(* ===== verification/Prelude.thy ===== *)
theory Prelude
  imports Main
begin

text \<open>
  The vocabulary every other theory uses: effectful programs over an opaque world with an
  error sum for exceptions, the combinators that mirror Python's sequencing,
  \<^verbatim>\<open>try/except\<close>, \<^verbatim>\<open>try/finally\<close> and \<^verbatim>\<open>for\<close>, a weakest precondition
  computed by the simplifier, contracts, and the string functions of Python that the
  repository uses (\<^verbatim>\<open>str(int)\<close>, \<^verbatim>\<open>str.replace\<close>, \<^verbatim>\<open>str.startswith\<close>,
  \<^verbatim>\<open>str.lower\<close>, \<^verbatim>\<open>str.strip\<close>). A Python \<^verbatim>\<open>str\<close> is a list of \<^typ>\<open>char\<close>,
  that is, of code points below 256.
\<close>

named_theorems wp_simps \<open>equations that compute a weakest precondition\<close>
named_theorems wp_rules \<open>introduction rules for the weakest precondition of a primitive\<close>

named_theorems frame_rules \<open>what a program leaves alone, on return and on exception\<close>

section \<open>Programs\<close>

text \<open>
  A coroutine of the repository is a function of the world that returns a result or an
  exception of type \<open>'e\<close>, and the world after it.
\<close>

type_synonym ('w, 'e, 'a) program = "'w \<Rightarrow> ('e + 'a) \<times> 'w"

definition ret :: "'a \<Rightarrow> ('w, 'e, 'a) program" where
  "ret x w = (Inr x, w)"

definition throw :: "'e \<Rightarrow> ('w, 'e, 'a) program" where
  "throw e w = (Inl e, w)"

definition andThen :: "('w, 'e, 'a) program \<Rightarrow> ('a \<Rightarrow> ('w, 'e, 'b) program) \<Rightarrow> ('w, 'e, 'b) program" where
  "andThen m f w = (case m w of (Inl e, w') \<Rightarrow> (Inl e, w') | (Inr x, w') \<Rightarrow> f x w')"

definition try_except ::
  "('w, 'e, 'a) program \<Rightarrow> ('e \<Rightarrow> ('w, 'f, 'a) program) \<Rightarrow> ('w, 'f, 'a) program" where
  "try_except m h w = (case m w of (Inl e, w') \<Rightarrow> h e w' | (Inr x, w') \<Rightarrow> (Inr x, w'))"

definition try_finally :: "('w, 'e, 'a) program \<Rightarrow> ('w, 'e, 'b) program \<Rightarrow> ('w, 'e, 'a) program" where
  "try_finally m f w =
     (case m w of (r, w') \<Rightarrow>
       (case f w' of (Inl e, w'') \<Rightarrow> (Inl e, w'') | (Inr _, w'') \<Rightarrow> (r, w'')))"

text \<open>
  A body that mutates a local object before it raises: the exception carries the object as
  it was when the exception was raised, for the handler that goes on using it.
\<close>

definition raising_with :: "'o \<Rightarrow> ('w, 'e, 'a) program \<Rightarrow> ('w, 'e \<times> 'o, 'a) program" where
  "raising_with x m w = (case m w of (Inl e, w') \<Rightarrow> (Inl (e, x), w') | (Inr r, w') \<Rightarrow> (Inr r, w'))"

text \<open>A pure computation that may raise, as a program that leaves the world alone.\<close>

definition from_sum :: "'e + 'a \<Rightarrow> ('w, 'e, 'a) program" where
  "from_sum r w = (r, w)"

primrec for_each :: "'a list \<Rightarrow> ('a \<Rightarrow> 's \<Rightarrow> ('w, 'e, 's) program) \<Rightarrow> 's \<Rightarrow> ('w, 'e, 's) program" where
  "for_each [] body s = ret s"
| "for_each (x # xs) body s = andThen (body x s) (\<lambda>s'. for_each xs body s')"

section \<open>Weakest preconditions\<close>

definition wp ::
  "('w, 'e, 'a) program \<Rightarrow> ('a \<Rightarrow> 'w \<Rightarrow> bool) \<Rightarrow> ('e \<Rightarrow> 'w \<Rightarrow> bool) \<Rightarrow> 'w \<Rightarrow> bool" where
  "wp m Q E w = (case m w of (Inl e, w') \<Rightarrow> E e w' | (Inr x, w') \<Rightarrow> Q x w')"

lemma wp_ret [wp_simps]: "wp (ret x) Q E = Q x"
  by (rule ext) (simp add: wp_def ret_def)

lemma wp_throw [wp_simps]: "wp (throw e) Q E = E e"
  by (rule ext) (simp add: wp_def throw_def)

lemma wp_andThen [wp_simps]: "wp (andThen m f) Q E = wp m (\<lambda>x. wp (f x) Q E) E"
  by (rule ext) (auto simp: wp_def andThen_def split: prod.splits sum.splits)

lemma wp_try_except [wp_simps]: "wp (try_except m h) Q E = wp m Q (\<lambda>e. wp (h e) Q E)"
  by (rule ext) (auto simp: wp_def try_except_def split: prod.splits sum.splits)

lemma wp_try_finally [wp_simps]:
  "wp (try_finally m f) Q E = wp m (\<lambda>x. wp f (\<lambda>_. Q x) E) (\<lambda>e. wp f (\<lambda>_. E e) E)"
  by (rule ext) (auto simp: wp_def try_finally_def split: prod.splits sum.splits)

lemma wp_raising_with [wp_simps]: "wp (raising_with x m) Q E = wp m Q (\<lambda>e. E (e, x))"
  by (rule ext) (auto simp: wp_def raising_with_def split: prod.splits sum.splits)

lemma wp_from_sum [wp_simps]:
  "wp (from_sum r) Q E = (case r of Inl e \<Rightarrow> E e | Inr x \<Rightarrow> Q x)"
  by (rule ext) (simp add: wp_def from_sum_def split: sum.split)

lemma wp_if [wp_simps]:
  "wp (if b then m else n) Q E = (if b then wp m Q E else wp n Q E)"
  by simp

lemma wp_case_option [wp_simps]:
  "wp (case x of None \<Rightarrow> m | Some y \<Rightarrow> n y) Q E =
     (case x of None \<Rightarrow> wp m Q E | Some y \<Rightarrow> wp (n y) Q E)"
  by (simp split: option.split)

lemma wp_case_sum [wp_simps]:
  "wp (case x of Inl e \<Rightarrow> m e | Inr y \<Rightarrow> n y) Q E =
     (case x of Inl e \<Rightarrow> wp (m e) Q E | Inr y \<Rightarrow> wp (n y) Q E)"
  by (simp split: sum.split)

lemma wp_case_prod [wp_simps]:
  "wp (case x of (a, b) \<Rightarrow> m a b) Q E = (case x of (a, b) \<Rightarrow> wp (m a b) Q E)"
  by (simp split: prod.split)

lemma wp_mono:
  assumes "wp m Q E w"
    and "\<And>x w'. Q x w' \<Longrightarrow> Q' x w'"
    and "\<And>e w'. E e w' \<Longrightarrow> E' e w'"
  shows "wp m Q' E' w"
  using assms by (auto simp: wp_def split: prod.splits sum.splits)

lemma wpD_Inr: "wp m Q E w \<Longrightarrow> m w = (Inr x, w') \<Longrightarrow> Q x w'"
  by (simp add: wp_def)

lemma wpD_Inl: "wp m Q E w \<Longrightarrow> m w = (Inl e, w') \<Longrightarrow> E e w'"
  by (simp add: wp_def)

lemma wpI:
  assumes "\<And>x w'. m w = (Inr x, w') \<Longrightarrow> Q x w'"
    and "\<And>e w'. m w = (Inl e, w') \<Longrightarrow> E e w'"
  shows "wp m Q E w"
  using assms by (auto simp: wp_def split: prod.splits sum.splits)

lemma wp_any: "wp m (\<lambda>_ _. True) (\<lambda>_ _. True) w"
  by (simp add: wp_def split: prod.split sum.split)

lemma wp_conj:
  assumes "wp m Q E w" and "wp m Q' E' w"
  shows "wp m (\<lambda>x w'. Q x w' \<and> Q' x w') (\<lambda>e w'. E e w' \<and> E' e w') w"
  using assms by (auto simp: wp_def split: prod.splits sum.splits)

text \<open>The loop rule: an invariant kept by the body on every normal exit.\<close>

lemma wp_for_each:
  assumes "I s w"
    and "\<And>x s w. x \<in> set xs \<Longrightarrow> I s w \<Longrightarrow> wp (body x s) I E w"
  shows "wp (for_each xs body s) I E w"
  using assms
proof (induction xs arbitrary: s w)
  case Nil
  then show ?case by (simp add: wp_simps)
next
  case (Cons x xs)
  have "wp (body x s) I E w" using Cons.prems by simp
  then have "wp (body x s) (\<lambda>s'. wp (for_each xs body s') I E) E w"
  proof (rule wp_mono)
    fix s' w' assume "I s' w'"
    then show "wp (for_each xs body s') I E w'"
      by (rule Cons.IH) (simp add: Cons.prems(2))
  qed
  then show ?case by (simp add: wp_simps)
qed

text \<open>The same with an invariant that knows the elements already visited.\<close>

lemma wp_for_each_prefix:
  assumes "I [] s w"
    and "\<And>ys y zs s w. xs = ys @ y # zs \<Longrightarrow> I ys s w \<Longrightarrow> wp (body y s) (I (ys @ [y])) E w"
  shows "wp (for_each xs body s) (I xs) E w"
proof -
  have "wp (for_each zs body s) (I xs) E w" if "xs = ys @ zs" and "I ys s w" for ys zs s w
    using that
  proof (induction zs arbitrary: ys s w)
    case Nil
    then show ?case by (simp add: wp_simps)
  next
    case (Cons z zs)
    from assms(2) [OF Cons.prems] have "wp (body z s) (I (ys @ [z])) E w" .
    then have "wp (body z s) (\<lambda>s'. wp (for_each zs body s') (I xs) E) E w"
      by (rule wp_mono) (rule Cons.IH [of "ys @ [z]"], use Cons.prems(1) in simp_all)
    then show ?case by (simp add: wp_simps)
  qed
  from this [of "[]" xs s w] assms(1) show ?thesis by simp
qed

section \<open>Contracts\<close>

text \<open>
  \<open>contract m S F\<close>: whatever the world before, a normal return relates it to the result and
  the world after by \<open>S\<close>, an exception by \<open>F\<close>.
\<close>

definition contract ::
  "('w, 'e, 'a) program \<Rightarrow> ('w \<Rightarrow> 'a \<Rightarrow> 'w \<Rightarrow> bool) \<Rightarrow> ('w \<Rightarrow> 'e \<Rightarrow> 'w \<Rightarrow> bool) \<Rightarrow> bool" where
  "contract m S F \<longleftrightarrow> (\<forall>w. wp m (S w) (F w) w)"

lemma contractI: "(\<And>w. wp m (S w) (F w) w) \<Longrightarrow> contract m S F"
  by (simp add: contract_def)

lemma contractD: "contract m S F \<Longrightarrow> wp m (S w) (F w) w"
  by (simp add: contract_def)

lemma contract_wp:
  assumes "contract m S F"
    and "\<And>x w'. S w x w' \<Longrightarrow> Q x w'"
    and "\<And>e w'. F w e w' \<Longrightarrow> E e w'"
  shows "wp m Q E w"
  by (rule wp_mono [OF contractD [OF assms(1)]]) (auto intro: assms(2,3))

lemma contract_Inr: "contract m S F \<Longrightarrow> m w = (Inr x, w') \<Longrightarrow> S w x w'"
  by (drule contractD [of m S F w]) (simp add: wp_def)

lemma contract_Inl: "contract m S F \<Longrightarrow> m w = (Inl e, w') \<Longrightarrow> F w e w'"
  by (drule contractD [of m S F w]) (simp add: wp_def)

section \<open>Strings and numbers\<close>

fun show_nat :: "nat \<Rightarrow> string" where
  "show_nat n = (if n < 10 then [char_of (48 + n)] else show_nat (n div 10) @ [char_of (48 + n mod 10)])"

declare show_nat.simps [simp del]

definition show_int :: "int \<Rightarrow> string" where
  "show_int i = (if i < 0 then CHR ''-'' # show_nat (nat (- i)) else show_nat (nat i))"

text \<open>Decimal texts are injective: reading the digits back gives the number.\<close>

definition read_digits :: "nat \<Rightarrow> string \<Rightarrow> nat" where
  "read_digits acc s = foldl (\<lambda>a c. a * 10 + (of_char c - 48)) acc s"

lemma read_digits_show_nat: "read_digits 0 (show_nat n) = n"
proof (induction n rule: show_nat.induct)
  case (1 n)
  show ?case
  proof (cases "n < 10")
    case True
    then show ?thesis by (subst show_nat.simps) (simp add: read_digits_def)
  next
    case False
    then have "read_digits 0 (show_nat (n div 10)) = n div 10" using 1 by simp
    with False show ?thesis
      by (subst show_nat.simps) (simp add: read_digits_def)
  qed
qed

lemma show_nat_inject [simp]: "show_nat m = show_nat n \<longleftrightarrow> m = n"
  by (metis read_digits_show_nat)

lemma show_nat_head: "\<exists>c s. show_nat n = c # s \<and> c \<noteq> CHR ''-''"
proof (induction n rule: show_nat.induct)
  case (1 n)
  have "(char_of (48 + n) :: char) \<noteq> CHR ''-''" if "n < 10"
  proof
    assume "(char_of (48 + n) :: char) = CHR ''-''"
    then have "of_char (char_of (48 + n)) = (of_char CHR ''-'' :: nat)" by simp
    with that show False by simp
  qed
  with 1 show ?case
    by (cases "n < 10") (subst show_nat.simps, auto)+
qed

lemma show_int_inject [simp]: "show_int i = show_int j \<longleftrightarrow> i = j"
proof -
  have "show_nat m \<noteq> CHR ''-'' # s" for m s using show_nat_head [of m] by auto
  moreover have "CHR ''-'' # s \<noteq> show_nat m" for m s using show_nat_head [of m] by auto
  ultimately show ?thesis by (auto simp: show_int_def)
qed

definition starts_with :: "string \<Rightarrow> string \<Rightarrow> bool" where
  "starts_with s p \<longleftrightarrow> take (length p) s = p"

text \<open>
  \<^verbatim>\<open>s.replace(p, r)\<close> for a non-empty pattern: left to right, without overlaps.
\<close>

function replace_all :: "string \<Rightarrow> string \<Rightarrow> string \<Rightarrow> string" where
  "replace_all p r [] = []"
| "replace_all p r (c # cs) =
     (if p \<noteq> [] \<and> starts_with (c # cs) p then r @ replace_all p r (drop (length p) (c # cs))
      else c # replace_all p r cs)"
  by pat_completeness auto
termination
  by (relation "measure (\<lambda>(p, r, s). length s)") (auto simp: neq_Nil_conv)

definition lower_char :: "char \<Rightarrow> char" where
  "lower_char c = (let n = of_char c :: nat in
     if (65 \<le> n \<and> n \<le> 90) \<or> (192 \<le> n \<and> n \<le> 222 \<and> n \<noteq> 215) then char_of (n + 32) else c)"

definition lower :: "string \<Rightarrow> string" where
  "lower s = map lower_char s"

text \<open>
  \<^verbatim>\<open>s.upper()\<close>; two letters (code points 181 and 255) have their upper case outside the
  characters of the model and stay.
\<close>

definition upper_char :: "char \<Rightarrow> string" where
  "upper_char c = (let n = of_char c :: nat in
     if (97 \<le> n \<and> n \<le> 122) \<or> (224 \<le> n \<and> n \<le> 254 \<and> n \<noteq> 247) then [char_of (n - 32)]
     else if n = 223 then ''SS'' else [c])"

definition upper :: "string \<Rightarrow> string" where
  "upper s = concat (map upper_char s)"

definition strip_chars :: "(char \<Rightarrow> bool) \<Rightarrow> string \<Rightarrow> string" where
  "strip_chars p s = rev (dropWhile p (rev (dropWhile p s)))"

lemma starts_with_append [simp]: "starts_with (p @ s) p"
  by (simp add: starts_with_def)

lemma replace_all_id: "(\<And>t u. s = t @ u \<Longrightarrow> u \<noteq> [] \<Longrightarrow> \<not> starts_with u p) \<Longrightarrow> replace_all p r s = s"
proof (induction s)
  case Nil
  then show ?case by simp
next
  case (Cons c cs)
  have "\<not> starts_with (c # cs) p" using Cons.prems [of "[]" "c # cs"] by simp
  moreover have "replace_all p r cs = cs"
    by (rule Cons.IH) (use Cons.prems in \<open>metis append_Cons\<close>)
  ultimately show ?case by simp
qed

lemma replace_all_head:
  assumes "p \<noteq> []" and "c = hd p" and "c \<notin> set s"
  shows "replace_all p r (p @ s) = r @ s"
proof -
  have "replace_all p r s = s"
  proof (rule replace_all_id)
    fix t u assume "s = t @ u" and "u \<noteq> []"
    with assms show "\<not> starts_with u p"
      by (cases u; cases p) (auto simp: starts_with_def)
  qed
  moreover obtain a q where "p = a # q" using assms(1) by (cases p) auto
  ultimately show ?thesis using assms(1) starts_with_append [of p s] by (simp del: starts_with_append)
qed

end
