(* ===== verification/Uuid.thy ===== *)
theory Uuid
  imports Prelude "HOL-Library.Word"
begin

text \<open>
  Task and worker identifiers: the 128-bit integer of \<^verbatim>\<open>uuid.UUID\<close>, its canonical
  text and the parser behind \<^verbatim>\<open>UUID(text)\<close> as the standard library has them
  (\<^verbatim>\<open>TaskId\<close> of \<^verbatim>\<open>domain/entities/task.py\<close> is a wrapper of these), with the round
  trip between the two that the Redis keys and members of the queue backend rely on.
\<close>

type_synonym uuid = "128 word"

section \<open>The text of an identifier\<close>

definition hex_digit :: "nat \<Rightarrow> char" where
  "hex_digit n = (if n < 10 then char_of (48 + n) else char_of (87 + n))"

primrec hex_digits :: "nat \<Rightarrow> nat \<Rightarrow> string" where
  "hex_digits 0 n = []"
| "hex_digits (Suc k) n = hex_digits k (n div 16) @ [hex_digit (n mod 16)]"

definition uuid_str :: "uuid \<Rightarrow> string" where
  "uuid_str u = (let h = hex_digits 32 (unat u) in
     take 8 h @ ''-'' @ take 4 (drop 8 h) @ ''-'' @ take 4 (drop 12 h) @ ''-'' @
     take 4 (drop 16 h) @ ''-'' @ drop 20 h)"

section \<open>Parsing\<close>

definition hex_val :: "char \<Rightarrow> nat option" where
  "hex_val c = (let n = of_char c :: nat in
     if 48 \<le> n \<and> n \<le> 57 then Some (n - 48)
     else if 97 \<le> n \<and> n \<le> 102 then Some (n - 87)
     else if 65 \<le> n \<and> n \<le> 70 then Some (n - 55)
     else None)"

definition is_space :: "char \<Rightarrow> bool" where
  "is_space c = (let n = of_char c :: nat in
     (9 \<le> n \<and> n \<le> 13) \<or> (28 \<le> n \<and> n \<le> 32) \<or> n = 133 \<or> n = 160)"

text \<open>Digits with single underscores between them; the flag says that no digit came last.\<close>

fun hex_scan :: "nat \<Rightarrow> bool \<Rightarrow> string \<Rightarrow> nat option" where
  "hex_scan acc gap [] = (if gap then None else Some acc)"
| "hex_scan acc gap (c # cs) =
     (if c = CHR ''_'' then (if gap then None else hex_scan acc True cs)
      else case hex_val c of None \<Rightarrow> None | Some d \<Rightarrow> hex_scan (acc * 16 + d) False cs)"

text \<open>An optional \<^verbatim>\<open>0x\<close>, after which one underscore may stand.\<close>

definition drop_hex_prefix :: "string \<Rightarrow> string" where
  "drop_hex_prefix s =
     (case s of
        z # x # rest \<Rightarrow>
          (if z = CHR ''0'' \<and> (x = CHR ''x'' \<or> x = CHR ''X'')
           then (case rest of [] \<Rightarrow> [] | c # cs \<Rightarrow> if c = CHR ''_'' then cs else rest)
           else s)
      | _ \<Rightarrow> s)"

definition int_base16 :: "string \<Rightarrow> int option" where
  "int_base16 s = (let t = strip_chars is_space s in
     case t of
       [] \<Rightarrow> None
     | c # cs \<Rightarrow>
         (if c = CHR ''-'' then map_option (\<lambda>n. - int n) (hex_scan 0 True (drop_hex_prefix cs))
          else if c = CHR ''+'' then map_option int (hex_scan 0 True (drop_hex_prefix cs))
          else map_option int (hex_scan 0 True (drop_hex_prefix t))))"

definition uuid_parse :: "string \<Rightarrow> string + uuid" where
  "uuid_parse s =
     (let h = replace_all ''-'' [] (strip_chars (\<lambda>c. c = CHR ''{'' \<or> c = CHR ''}'')
                (replace_all ''uuid:'' [] (replace_all ''urn:'' [] s)))
      in if length h \<noteq> 32 then Inl ''badly formed hexadecimal UUID string''
         else case int_base16 h of
                None \<Rightarrow> Inl ''invalid literal for int() with base 16''
              | Some i \<Rightarrow> (if 0 \<le> i \<and> i < 2 ^ 128 then Inr (word_of_int i)
                          else Inl ''int is out of range (need a 128-bit value)''))"

section \<open>Round trip\<close>

lemma length_hex_digits [simp]: "length (hex_digits k n) = k"
  by (induction k arbitrary: n) auto

definition hex_chars :: string where
  "hex_chars = ''0123456789abcdef''"

text \<open>What is known of a digit: it is none of the characters the parser treats apart.\<close>

definition plain_char :: "char \<Rightarrow> bool" where
  "plain_char c \<longleftrightarrow> \<not> is_space c \<and> c \<notin> set ''-+xX_{}u''"

lemma hex_chars_plain: "c \<in> set hex_chars \<Longrightarrow> plain_char c"
proof -
  have "list_all plain_char hex_chars" by code_simp
  then show "c \<in> set hex_chars \<Longrightarrow> plain_char c" by (simp add: list_all_iff)
qed

lemma hex_digit_char: "n < 16 \<Longrightarrow> hex_digit n \<in> set hex_chars"
proof -
  have "list_all (\<lambda>n. hex_digit n \<in> set hex_chars) [0..<16]" by code_simp
  then show "n < 16 \<Longrightarrow> hex_digit n \<in> set hex_chars" by (simp add: list_all_iff)
qed

lemma hex_digit_plain: "n < 16 \<Longrightarrow> plain_char (hex_digit n)"
  by (intro hex_chars_plain hex_digit_char)

lemma length_uuid_str: "length (uuid_str u) = 36"
  by (simp add: uuid_str_def Let_def)

lemma hex_digits_plain: "c \<in> set (hex_digits k n) \<Longrightarrow> plain_char c"
  by (induction k arbitrary: n) (auto simp: hex_digit_plain)

lemma hex_val_digit: "n < 16 \<Longrightarrow> hex_val (hex_digit n) = Some n"
  by (auto simp: hex_val_def hex_digit_def Let_def)

lemma hex_scan_append:
  assumes "d < 16"
  shows "hex_scan acc gap s = Some a \<Longrightarrow> hex_scan acc gap (s @ [hex_digit d]) = Some (a * 16 + d)"
proof (induction s arbitrary: acc gap)
  case Nil
  have "hex_digit d \<noteq> CHR ''_''" using hex_digit_plain [OF assms] by (auto simp: plain_char_def)
  with Nil show ?case using assms by (simp add: hex_val_digit split: if_splits)
next
  case (Cons c s)
  then show ?case by (auto split: option.splits if_splits)
qed

lemma hex_scan_digits:
  "hex_scan acc gap (hex_digits (Suc k) n) = Some (acc * 16 ^ Suc k + n mod 16 ^ Suc k)"
proof (induction k arbitrary: n)
  case 0
  have "hex_digit (n mod 16) \<noteq> CHR ''_''" using hex_digit_plain [of "n mod 16"] by (auto simp: plain_char_def)
  then show ?case by (simp add: hex_val_digit)
next
  case (Suc k)
  have "hex_scan acc gap (hex_digits (Suc (Suc k)) n) =
      hex_scan acc gap (hex_digits (Suc k) (n div 16) @ [hex_digit (n mod 16)])" by simp
  also have "\<dots> = Some ((acc * 16 ^ Suc k + (n div 16) mod 16 ^ Suc k) * 16 + n mod 16)"
    by (rule hex_scan_append [OF _ Suc.IH]) simp
  also have "(acc * 16 ^ Suc k + (n div 16) mod 16 ^ Suc k) * 16 + n mod 16 =
      acc * 16 ^ Suc (Suc k) + n mod 16 ^ Suc (Suc k)"
    using mod_mult2_eq [of n 16 "16 ^ Suc k"] by (simp del: mult.assoc add: algebra_simps)
  finally show ?case .
qed

lemma replace_dash: "replace_all ''-'' [] s = filter (\<lambda>c. c \<noteq> CHR ''-'') s"
  by (induction s) (auto simp: starts_with_def)

lemma replace_absent: "CHR ''u'' \<notin> set s \<Longrightarrow> replace_all (CHR ''u'' # p) r s = s"
  by (rule replace_all_id) (auto simp: starts_with_def neq_Nil_conv)

lemma strip_chars_id:
  assumes "\<And>c. c \<in> set s \<Longrightarrow> \<not> p c"
  shows "strip_chars p s = s"
proof -
  have "dropWhile p t = t" if "set t \<subseteq> set s" for t
    using that assms by (cases t) auto
  then show ?thesis by (simp add: strip_chars_def)
qed

lemma filter_plain: "(\<And>c. c \<in> set s \<Longrightarrow> plain_char c) \<Longrightarrow> filter (\<lambda>c. c \<noteq> CHR ''-'') s = s"
  by (rule filter_True) (auto simp: plain_char_def)

lemma uuid_str_chars: "c \<in> set (uuid_str u) \<Longrightarrow> c = CHR ''-'' \<or> plain_char c"
  by (auto simp: uuid_str_def Let_def dest!: in_set_takeD in_set_dropD dest: hex_digits_plain)

lemma split_8_4_4_4:
  "take 8 h @ take 4 (drop 8 h) @ take 4 (drop 12 h) @ take 4 (drop 16 h) @ drop 20 h = h"
proof -
  have "take 4 (drop 16 h) @ drop 20 h = drop 16 h"
    using append_take_drop_id [of 4 "drop 16 h"] by simp
  moreover have "take 4 (drop 12 h) @ drop 16 h = drop 12 h"
    using append_take_drop_id [of 4 "drop 12 h"] by simp
  moreover have "take 4 (drop 8 h) @ drop 12 h = drop 8 h"
    using append_take_drop_id [of 4 "drop 8 h"] by simp
  ultimately show ?thesis by simp
qed

lemma filter_uuid_str: "filter (\<lambda>c. c \<noteq> CHR ''-'') (uuid_str u) = hex_digits 32 (unat u)"
proof -
  let ?h = "hex_digits 32 (unat u)"
  have f: "filter (\<lambda>c. c \<noteq> CHR ''-'') (take i (drop j ?h)) = take i (drop j ?h)" for i j
    by (rule filter_plain) (blast dest: in_set_takeD in_set_dropD hex_digits_plain)
  have "drop 20 ?h = take 12 (drop 20 ?h)" by simp
  then show ?thesis
    using f [of 8 0] f [of 4 8] f [of 4 12] f [of 4 16] f [of 12 20] split_8_4_4_4 [of ?h]
    by (simp add: uuid_str_def Let_def)
qed

lemma int_base16_digits: "int_base16 (hex_digits 32 n) = Some (int (n mod 16 ^ 32))"
proof -
  let ?h = "hex_digits 32 n"
  have plain: "c \<in> set ?h \<Longrightarrow> plain_char c" for c by (rule hex_digits_plain)
  have "strip_chars is_space ?h = ?h"
    by (rule strip_chars_id) (use plain in \<open>auto simp: plain_char_def\<close>)
  moreover obtain a b t where h: "?h = a # b # t"
  proof -
    have "length ?h = Suc (Suc 30)" by simp
    then show ?thesis using that by (metis length_Suc_conv)
  qed
  moreover have ab: "plain_char a" "plain_char b" using plain by (auto simp: h)
  moreover from ab have "drop_hex_prefix ?h = ?h"
    by (auto simp: h drop_hex_prefix_def plain_char_def)
  moreover have "hex_scan 0 True ?h = Some (n mod 16 ^ 32)"
    using hex_scan_digits [of 0 True 31 n] by simp
  ultimately show ?thesis by (auto simp: int_base16_def Let_def plain_char_def)
qed

lemma uuid_roundtrip [simp]: "uuid_parse (uuid_str u) = Inr u"
proof -
  have nou: "CHR ''u'' \<notin> set (uuid_str u)"
    using uuid_str_chars [of "CHR ''u''" u] by (auto simp: plain_char_def)
  have "strip_chars (\<lambda>c. c = CHR ''{'' \<or> c = CHR ''}'') (uuid_str u) = uuid_str u"
  proof (rule strip_chars_id)
    fix c assume "c \<in> set (uuid_str u)"
    then show "\<not> (c = CHR ''{'' \<or> c = CHR ''}'')"
      by (auto dest!: uuid_str_chars simp: plain_char_def)
  qed
  then have "replace_all ''-'' [] (strip_chars (\<lambda>c. c = CHR ''{'' \<or> c = CHR ''}'')
      (replace_all ''uuid:'' [] (replace_all ''urn:'' [] (uuid_str u)))) = hex_digits 32 (unat u)"
    by (simp add: replace_absent nou replace_dash filter_uuid_str)
  moreover have "unat u mod 16 ^ 32 = unat u"
    using unsigned_less [of u, where ?'a = nat] by simp
  moreover have "int (unat u) < 2 ^ 128"
    using unsigned_less [of u, where ?'a = int] by simp
  ultimately show ?thesis
    by (simp add: uuid_parse_def Let_def int_base16_digits)
qed

lemma uuid_str_inject [simp]: "uuid_str u = uuid_str v \<longleftrightarrow> u = v"
  by (metis uuid_roundtrip sum.inject(2))

end
