(* ===== verification/Py_Float.thy ===== *)
theory Py_Float
  imports Prelude "HOL-Library.Log_Nat"
begin

text \<open>
  Python's \<^verbatim>\<open>float\<close> as far as \<^verbatim>\<open>BackoffPolicy.delay_for_attempt\<close> uses it: a binary64
  value is a rational, an infinity or NaN; conversion from \<^verbatim>\<open>int\<close>, multiplication and the
  power with an integer exponent round to nearest, ties to even, at 53 significant bits with
  gradual underflow; \<^verbatim>\<open>**\<close> raises \<^verbatim>\<open>OverflowError\<close> where the result is out of range,
  \<^verbatim>\<open>int\<close> truncates and raises for infinities and NaN. (The power is taken as correctly
  rounded, where the C library's \<^verbatim>\<open>pow\<close> may err in the last bit; negative zero is not told apart from zero, which \<^verbatim>\<open>int\<close> does not either.)
\<close>

datatype pyfloat = Finite rat | PosInf | NegInf | NaN

datatype float_error = Float_Overflow string | Float_Value string

section \<open>Rounding to binary64\<close>

definition round_even :: "rat \<Rightarrow> int" where
  "round_even x = (let f = \<lfloor>x\<rfloor>; r = x - of_int f in
     if r < 1 / 2 then f else if r > 1 / 2 then f + 1 else if even f then f else f + 1)"

definition pow2 :: "int \<Rightarrow> rat" where
  "pow2 e = (if 0 \<le> e then 2 ^ nat e else 1 / 2 ^ nat (- e))"

text \<open>The exponent of the leading bit of a positive rational.\<close>

definition ilog2 :: "rat \<Rightarrow> int" where
  "ilog2 x = (if 1 \<le> x then bitlen \<lfloor>x\<rfloor> - 1 else - bitlen (\<lceil>1 / x\<rceil> - 1))"

definition ulp_exp :: "rat \<Rightarrow> int" where
  "ulp_exp x = max (ilog2 \<bar>x\<bar>) (- 1022) - 52"

definition round64 :: "rat \<Rightarrow> rat" where
  "round64 x = (if x = 0 then 0
     else of_int (round_even (x / pow2 (ulp_exp x))) * pow2 (ulp_exp x))"

definition to_float :: "rat \<Rightarrow> pyfloat" where
  "to_float x = (let r = round64 x in
     if 2 ^ 1024 \<le> r then PosInf else if r \<le> - (2 ^ 1024) then NegInf else Finite r)"

section \<open>Operations\<close>

definition float_of_int :: "int \<Rightarrow> float_error + rat" where
  "float_of_int i = (case to_float (of_int i) of
     Finite r \<Rightarrow> Inr r | _ \<Rightarrow> Inl (Float_Overflow ''int too large to convert to float''))"

definition float_pow :: "pyfloat \<Rightarrow> nat \<Rightarrow> float_error + pyfloat" where
  "float_pow x k =
     (if k = 0 then Inr (Finite 1)
      else case x of
        NaN \<Rightarrow> Inr NaN
      | PosInf \<Rightarrow> Inr PosInf
      | NegInf \<Rightarrow> Inr (if even k then PosInf else NegInf)
      | Finite r \<Rightarrow> (case to_float (r ^ k) of
            Finite s \<Rightarrow> Inr (Finite s)
          | _ \<Rightarrow> Inl (Float_Overflow ''(34, 'Numerical result out of range')'')))"

definition float_mul :: "rat \<Rightarrow> pyfloat \<Rightarrow> pyfloat" where
  "float_mul a x = (case x of
       NaN \<Rightarrow> NaN
     | Finite r \<Rightarrow> to_float (a * r)
     | PosInf \<Rightarrow> (if a = 0 then NaN else if 0 < a then PosInf else NegInf)
     | NegInf \<Rightarrow> (if a = 0 then NaN else if 0 < a then NegInf else PosInf))"

definition int_of_float :: "pyfloat \<Rightarrow> float_error + int" where
  "int_of_float x = (case x of
       Finite r \<Rightarrow> Inr (if 0 \<le> r then \<lfloor>r\<rfloor> else \<lceil>r\<rceil>)
     | NaN \<Rightarrow> Inl (Float_Value ''cannot convert float NaN to integer'')
     | _ \<Rightarrow> Inl (Float_Overflow ''cannot convert float infinity to integer''))"

section \<open>Rounding is monotone and exact where it can be\<close>

lemma round_even_ge: "of_int z \<le> x \<Longrightarrow> z \<le> round_even x"
proof -
  assume "of_int z \<le> x"
  then have "z \<le> \<lfloor>x\<rfloor>" by (simp add: le_floor_iff)
  then show ?thesis by (simp add: round_even_def Let_def)
qed

lemma round_even_le: "x \<le> of_int z \<Longrightarrow> round_even x \<le> z"
proof -
  assume le: "x \<le> of_int z"
  show ?thesis
  proof (cases "x = of_int \<lfloor>x\<rfloor>")
    case True
    then have "round_even x = \<lfloor>x\<rfloor>" by (simp add: round_even_def Let_def)
    with le show ?thesis by linarith
  next
    case False
    with le have "\<lfloor>x\<rfloor> < z" by linarith
    then show ?thesis by (simp add: round_even_def Let_def)
  qed
qed

lemma round_even_int [simp]: "round_even (of_int z) = z"
  by (simp add: round_even_def Let_def)

lemma round_even_mono:
  assumes "x \<le> y"
  shows "round_even x \<le> round_even y"
proof (cases "\<lfloor>x\<rfloor> = \<lfloor>y\<rfloor>")
  case True
  with assms show ?thesis by (auto simp: round_even_def Let_def)
next
  case False
  with assms have "\<lfloor>x\<rfloor> + 1 \<le> \<lfloor>y\<rfloor>" using floor_mono [OF assms] by linarith
  moreover have "round_even x \<le> \<lfloor>x\<rfloor> + 1" by (rule round_even_le) linarith
  moreover have "\<lfloor>y\<rfloor> \<le> round_even y" by (rule round_even_ge) linarith
  ultimately show ?thesis by linarith
qed

lemma pow2_pos [simp]: "0 < pow2 e"
  by (simp add: pow2_def)

lemma pow2_nonneg [simp]: "0 \<le> pow2 e"
  by (rule less_imp_le) simp

lemma pow2_neq_0 [simp]: "pow2 e \<noteq> 0"
  by (rule less_imp_neq [symmetric]) simp

lemma pow2_powi: "pow2 e = 2 powi e"
  by (cases "0 \<le> e") (simp_all add: pow2_def power_int_def inverse_eq_divide power_one_over)

lemma pow2_add: "pow2 (a + b) = pow2 a * pow2 b"
  by (simp add: pow2_powi power_int_add)

lemma pow2_mono: "a \<le> b \<Longrightarrow> pow2 a \<le> pow2 b"
  by (simp add: pow2_powi power_int_increasing)

lemma pow2_strict_mono: "a < b \<Longrightarrow> pow2 a < pow2 b"
  by (simp add: pow2_powi power_int_strict_increasing)

lemma pow2_nat [simp]: "pow2 (int n) = 2 ^ n"
  by (simp add: pow2_def)

lemma bitlen_range: "0 < (z::int) \<Longrightarrow> pow2 (bitlen z - 1) \<le> of_int z \<and> of_int (z + 1) \<le> pow2 (bitlen z)"
proof -
  assume z: "0 < z"
  have l: "2 ^ nat (bitlen z - 1) \<le> z" and u: "z < 2 ^ nat (bitlen z)"
    using bitlen_bounds [OF z] by auto
  have "1 \<le> bitlen z" using z bitlen_nonneg [of z] bitlen_eq_zero_iff [of z] by linarith
  moreover have "of_int (2 ^ nat (bitlen z - 1)) \<le> (of_int z :: rat)"
    using l by (simp only: of_int_le_iff)
  moreover have "of_int (z + 1) \<le> (of_int (2 ^ nat (bitlen z)) :: rat)"
    using u by (simp only: of_int_le_iff zless_imp_add1_zle)
  ultimately show ?thesis by (simp add: pow2_def)
qed

lemma ilog2_range:
  assumes "0 < x"
  shows "pow2 (ilog2 x) \<le> x \<and> x < pow2 (ilog2 x + 1)"
proof (cases "1 \<le> x")
  case True
  then have "0 < \<lfloor>x\<rfloor>" by linarith
  from bitlen_range [OF this] True show ?thesis
    by (simp add: ilog2_def) linarith
next
  case False
  let ?c = "\<lceil>1 / x\<rceil> - 1"
  have gt: "1 < 1 / x" using assms False by (simp add: field_simps)
  then have c: "0 < ?c" by linarith
  have r: "pow2 (bitlen ?c - 1) < 1 / x" "1 / x \<le> pow2 (bitlen ?c)"
    using bitlen_range [OF c] by linarith+
  have inv: "pow2 (- k) = 1 / pow2 k" for k
    using pow2_add [of "- k" k] by (simp add: field_simps) (simp add: pow2_def)
  have "x < 1 / pow2 (bitlen ?c - 1)" using r(1) assms by (simp add: field_simps)
  moreover have "1 / pow2 (bitlen ?c) \<le> x" using r(2) assms by (simp add: field_simps)
  ultimately show ?thesis
    using False inv [of "bitlen ?c"] inv [of "bitlen ?c - 1"] by (simp add: ilog2_def)
qed

lemma ilog2_mono:
  assumes "0 < x" and "x \<le> y"
  shows "ilog2 x \<le> ilog2 y"
proof (rule ccontr)
  assume "\<not> ilog2 x \<le> ilog2 y"
  then have "pow2 (ilog2 y + 1) \<le> pow2 (ilog2 x)" by (intro pow2_mono) linarith
  with ilog2_range [of x] ilog2_range [of y] assms show False by linarith
qed

lemma ilog2_less:
  assumes "0 < x" and "x < pow2 k"
  shows "ilog2 x < k"
proof (rule ccontr)
  assume "\<not> ilog2 x < k"
  then have "pow2 k \<le> pow2 (ilog2 x)" by (intro pow2_mono) linarith
  with ilog2_range [of x] assms show False by linarith
qed

lemma round64_zero [simp]: "round64 0 = 0"
  by (simp add: round64_def)

text \<open>A value with at most 53 significant bits is a fixed point of the rounding.\<close>

lemma round64_exact:
  assumes "\<bar>m\<bar> < 2 ^ 53" and "- 1074 \<le> j"
  shows "round64 (of_int m * pow2 j) = of_int m * pow2 j"
proof (cases "m = 0")
  case True
  then show ?thesis by simp
next
  case False
  let ?x = "of_int m * pow2 j"
  have abs: "\<bar>?x\<bar> = of_int \<bar>m\<bar> * pow2 j" by (simp add: abs_mult)
  have "of_int \<bar>m\<bar> < (of_int (2 ^ 53) :: rat)" using assms(1) by (simp only: of_int_less_iff)
  then have "\<bar>?x\<bar> < pow2 53 * pow2 j"
    unfolding abs by (intro mult_strict_right_mono) (simp_all add: pow2_def [of 53])
  then have "\<bar>?x\<bar> < pow2 (53 + j)" by (simp add: pow2_add)
  moreover have "0 < \<bar>?x\<bar>" using False by simp
  ultimately have "ilog2 \<bar>?x\<bar> < 53 + j" by (intro ilog2_less)
  then have le: "ulp_exp ?x \<le> j" using assms(2) by (simp add: ulp_exp_def)
  define n where "n = nat (j - ulp_exp ?x)"
  have "j = ulp_exp ?x + int n" using le by (simp add: n_def)
  then have "pow2 j = pow2 (ulp_exp ?x) * 2 ^ n" by (metis pow2_add pow2_nat)
  then have "?x / pow2 (ulp_exp ?x) = of_int m * 2 ^ n"
    by (simp add: field_simps)
  also have "\<dots> = of_int (m * 2 ^ n)" by simp
  finally have q: "?x / pow2 (ulp_exp ?x) = of_int (m * 2 ^ n)" .
  have "round64 ?x = of_int (m * 2 ^ n) * pow2 (ulp_exp ?x)"
    using False unfolding round64_def q round_even_int by simp
  also have "\<dots> = ?x" using q by (metis nonzero_eq_divide_eq pow2_neq_0)
  finally show ?thesis .
qed

lemma ulp_exp_range:
  assumes "0 < x" and "ulp_exp x = ilog2 x - 52"
  shows "2 ^ 52 \<le> x / pow2 (ulp_exp x) \<and> x / pow2 (ulp_exp x) < 2 ^ 53"
proof -
  have "pow2 (ilog2 x) = pow2 (ulp_exp x) * 2 ^ 52"
    using pow2_add [of "ulp_exp x" 52] by (simp add: assms(2) pow2_def [of 52])
  moreover have "pow2 (ilog2 x + 1) = pow2 (ulp_exp x) * 2 ^ 53"
    using pow2_add [of "ulp_exp x" 53] by (simp add: assms(2) pow2_def [of 53] add.commute)
  ultimately show ?thesis
    using ilog2_range [OF assms(1)] by (simp add: field_simps)
qed

lemma ulp_exp_upper: "0 < x \<Longrightarrow> x / pow2 (ulp_exp x) < 2 ^ 53"
proof -
  assume x: "0 < x"
  have "pow2 (ilog2 x + 1) \<le> pow2 (ulp_exp x + 53)"
    using x by (intro pow2_mono) (simp add: ulp_exp_def)
  then have "x < pow2 (ulp_exp x) * 2 ^ 53"
    using ilog2_range [OF x] pow2_add [of "ulp_exp x" 53] by (simp add: pow2_def [of 53])
  then show ?thesis by (simp add: field_simps)
qed

lemma round64_mono_pos:
  assumes "0 < x" and "x \<le> y"
  shows "round64 x \<le> round64 y"
proof -
  let ?e = "ulp_exp x" and ?f = "ulp_exp y"
  have y: "0 < y" using assms by linarith
  have rx: "round64 x = of_int (round_even (x / pow2 ?e)) * pow2 ?e"
    and ry: "round64 y = of_int (round_even (y / pow2 ?f)) * pow2 ?f"
    using assms y by (simp_all add: round64_def)
  have "?e \<le> ?f" using ilog2_mono [OF assms] assms y by (simp add: ulp_exp_def)
  then consider "?e = ?f" | "?e < ?f" by linarith
  then show ?thesis
  proof cases
    case 1
    have "round_even (x / pow2 ?e) \<le> round_even (y / pow2 ?e)"
      by (rule round_even_mono) (simp add: assms divide_right_mono)
    then show ?thesis unfolding rx ry 1 [symmetric] by (simp add: mult_right_mono)
  next
    case 2
    then have f: "?f = ilog2 y - 52" using y by (auto simp: ulp_exp_def max_def split: if_splits)
    have "round_even (x / pow2 ?e) \<le> 2 ^ 53"
      by (rule round_even_le) (use ulp_exp_upper [OF assms(1)] in simp)
    then have "of_int (round_even (x / pow2 ?e)) \<le> (of_int (2 ^ 53) :: rat)"
      by (simp only: of_int_le_iff)
    then have "round64 x \<le> 2 ^ 53 * pow2 ?e"
      unfolding rx by (intro mult_right_mono) simp_all
    also have "\<dots> = 2 ^ 52 * pow2 (?e + 1)" by (simp add: pow2_add pow2_def [of 1])
    also have "\<dots> \<le> 2 ^ 52 * pow2 ?f" using 2 by (intro mult_left_mono pow2_mono) simp_all
    also have "\<dots> \<le> round64 y"
    proof -
      have "(2 ^ 52 :: int) \<le> round_even (y / pow2 ?f)"
        by (rule round_even_ge) (use ulp_exp_range [OF y f] in simp)
      then have "(of_int (2 ^ 52) :: rat) \<le> of_int (round_even (y / pow2 ?f))"
        by (simp only: of_int_le_iff)
      then show ?thesis unfolding ry by (intro mult_right_mono) simp_all
    qed
    finally show ?thesis .
  qed
qed

lemma round64_nonneg: "0 \<le> x \<Longrightarrow> 0 \<le> round64 x"
  using round_even_ge [of 0 "x / pow2 (ulp_exp x)"] by (simp add: round64_def)

lemma round64_mono: "0 \<le> x \<Longrightarrow> x \<le> y \<Longrightarrow> round64 x \<le> round64 y"
  using round64_mono_pos [of x y] round64_nonneg [of y] by (cases "x = 0") auto

lemma to_float_Finite: "to_float x = Finite r \<Longrightarrow> r = round64 x"
  by (auto simp: to_float_def Let_def split: if_splits)

lemma to_float_exact:
  assumes "\<bar>m\<bar> < 2 ^ 53" and "- 1074 \<le> j" and "j \<le> 970"
  shows "to_float (of_int m * pow2 j) = Finite (of_int m * pow2 j)"
proof -
  let ?x = "of_int m * pow2 j"
  have "of_int \<bar>m\<bar> < (of_int (2 ^ 53) :: rat)" using assms(1) by (simp only: of_int_less_iff)
  then have "of_int \<bar>m\<bar> * pow2 j < pow2 53 * pow2 j"
    by (intro mult_strict_right_mono) (simp_all add: pow2_def [of 53])
  then have "\<bar>?x\<bar> < pow2 53 * pow2 j" by (simp add: abs_mult)
  also have "\<dots> = pow2 (53 + j)" by (simp add: pow2_add)
  also have "\<dots> \<le> pow2 1024" by (rule pow2_mono) (use assms(3) in simp)
  also have "pow2 1024 = 2 ^ 1024" by (simp add: pow2_def)
  finally show ?thesis
    using round64_exact [OF assms(1,2)] by (simp add: to_float_def Let_def abs_less_iff)
qed

end
