(* ===== verification/Domain.thy ===== *)
theory Domain
  imports Uuid Py_Float Py_Value
begin

text \<open>
  The domain layer (\<^verbatim>\<open>src/atlasqueue/domain\<close>): the enumerations with their wire values,
  the exception hierarchy with its codes, priorities, backoff policies, tasks with their
  status machine, and workers. A point in time is a number of microseconds since the epoch;
  a \<^verbatim>\<open>datetime\<close> that comes from a request may lack a time zone.
\<close>

section \<open>Enumerations\<close>

datatype TaskStatus =
    PENDING | SCHEDULED | QUEUED | RUNNING | COMPLETED | FAILED | CANCELLED | DEAD_LETTER
  | ENQUEUE_FAILED

fun TaskStatus_value :: "TaskStatus \<Rightarrow> string" where
  "TaskStatus_value PENDING = ''pending''"
| "TaskStatus_value SCHEDULED = ''scheduled''"
| "TaskStatus_value QUEUED = ''queued''"
| "TaskStatus_value RUNNING = ''running''"
| "TaskStatus_value COMPLETED = ''completed''"
| "TaskStatus_value FAILED = ''failed''"
| "TaskStatus_value CANCELLED = ''cancelled''"
| "TaskStatus_value DEAD_LETTER = ''dead_letter''"
| "TaskStatus_value ENQUEUE_FAILED = ''enqueue_failed''"

datatype ExecutorType = PYTHON | WEBHOOK

fun ExecutorType_value :: "ExecutorType \<Rightarrow> string" where
  "ExecutorType_value PYTHON = ''python''"
| "ExecutorType_value WEBHOOK = ''webhook''"

datatype WorkerStatus = ACTIVE | IDLE | OFFLINE

fun WorkerStatus_value :: "WorkerStatus \<Rightarrow> string" where
  "WorkerStatus_value ACTIVE = ''active''"
| "WorkerStatus_value IDLE = ''idle''"
| "WorkerStatus_value OFFLINE = ''offline''"

section \<open>Exceptions\<close>

text \<open>
  The hierarchy of \<^verbatim>\<open>exceptions.py\<close>, each class with the arguments its constructor
  takes, and the exceptions of the language and the libraries that cross the modelled code.
  \<open>CancelledError\<close> is no \<^verbatim>\<open>Exception\<close>: \<^verbatim>\<open>except Exception\<close> lets it pass.
\<close>

datatype exn =
    AtlasQueueError string string
  | TaskNotFoundError string
  | InvalidTaskStateError string
  | EnqueueFailedError string
  | PayloadTooLargeError int
  | InvalidTaskIdError string
  | AuthenticationError string
  | AuthorizationError string
  | WebhookValidationError string
  | ValueError string
  | TypeError string
  | RuntimeError string
  | OverflowError string
  | TimeoutError
  | RedisTimeoutError string
  | RedisConnectionError string
  | IntegrityError string
  | LibraryError string
  | CancelledError

fun exn_str :: "exn \<Rightarrow> string" where
  "exn_str (AtlasQueueError m c) = m"
| "exn_str (TaskNotFoundError i) = ''Task '' @ i @ '' not found''"
| "exn_str (InvalidTaskStateError m) = m"
| "exn_str (EnqueueFailedError m) = m"
| "exn_str (PayloadTooLargeError n) = ''Payload exceeds max size of '' @ show_int n @ '' bytes''"
| "exn_str (InvalidTaskIdError i) = ''Invalid task id: '' @ i"
| "exn_str (AuthenticationError m) = m"
| "exn_str (AuthorizationError m) = m"
| "exn_str (WebhookValidationError m) = m"
| "exn_str (ValueError m) = m"
| "exn_str (TypeError m) = m"
| "exn_str (RuntimeError m) = m"
| "exn_str (OverflowError m) = m"
| "exn_str TimeoutError = []"
| "exn_str (RedisTimeoutError m) = m"
| "exn_str (RedisConnectionError m) = m"
| "exn_str (IntegrityError m) = m"
| "exn_str (LibraryError m) = m"
| "exn_str CancelledError = []"

text \<open>The \<^verbatim>\<open>code\<close> attribute; other exceptions have none.\<close>

fun exn_code :: "exn \<Rightarrow> string option" where
  "exn_code (AtlasQueueError m c) = Some c"
| "exn_code (TaskNotFoundError i) = Some ''task_not_found''"
| "exn_code (InvalidTaskStateError m) = Some ''invalid_task_state''"
| "exn_code (EnqueueFailedError m) = Some ''enqueue_failed''"
| "exn_code (PayloadTooLargeError n) = Some ''payload_too_large''"
| "exn_code (InvalidTaskIdError i) = Some ''invalid_task_id''"
| "exn_code (AuthenticationError m) = Some ''authentication_failed''"
| "exn_code (AuthorizationError m) = Some ''authorization_failed''"
| "exn_code _ = None"

definition is_Exception :: "exn \<Rightarrow> bool" where
  "is_Exception e \<longleftrightarrow> e \<noteq> CancelledError"

type_synonym ('w, 'a) prog = "('w, exn, 'a) program"

text \<open>\<^verbatim>\<open>try: m except Exception as e: h(e)\<close>\<close>

definition except_Exception :: "('w, 'a) prog \<Rightarrow> (exn \<Rightarrow> ('w, 'a) prog) \<Rightarrow> ('w, 'a) prog" where
  "except_Exception m h = try_except m (\<lambda>e. if is_Exception e then h e else throw e)"

lemma wp_except_Exception [wp_simps]:
  "wp (except_Exception m h) Q E =
     wp m Q (\<lambda>e. if is_Exception e then wp (h e) Q E else E e)"
  by (simp add: except_Exception_def wp_simps cong: if_cong)

text \<open>An enumeration called on a value: the member with that value, or \<^verbatim>\<open>ValueError\<close>.\<close>

definition invalid_value :: "string \<Rightarrow> string \<Rightarrow> exn" where
  "invalid_value v cls = ValueError (repr_str v @ '' is not a valid '' @ cls)"

definition all_statuses :: "TaskStatus list" where
  "all_statuses = [PENDING, SCHEDULED, QUEUED, RUNNING, COMPLETED, FAILED, CANCELLED, DEAD_LETTER,
     ENQUEUE_FAILED]"

text \<open>The members of the enumeration are these, so a claim about every status is checked on each.\<close>

instantiation TaskStatus :: enum
begin

definition enum_TaskStatus :: "TaskStatus list" where
  "enum_TaskStatus = all_statuses"

definition enum_all_TaskStatus :: "(TaskStatus \<Rightarrow> bool) \<Rightarrow> bool" where
  "enum_all_TaskStatus P = list_all P all_statuses"

definition enum_ex_TaskStatus :: "(TaskStatus \<Rightarrow> bool) \<Rightarrow> bool" where
  "enum_ex_TaskStatus P = list_ex P all_statuses"

instance
proof
  have all: "s \<in> set all_statuses" for s by (cases s) (simp_all add: all_statuses_def)
  then show "(UNIV :: TaskStatus set) = set enum_class.enum" by (auto simp: enum_TaskStatus_def)
  show "distinct (enum_class.enum :: TaskStatus list)" by (simp add: enum_TaskStatus_def all_statuses_def)
  show "enum_class.enum_all P = Ball UNIV P" for P :: "TaskStatus \<Rightarrow> bool"
    using all by (auto simp: enum_all_TaskStatus_def list_all_iff)
  show "enum_class.enum_ex P = Bex UNIV P" for P :: "TaskStatus \<Rightarrow> bool"
    using all by (auto simp: enum_ex_TaskStatus_def list_ex_iff)
qed

end

definition TaskStatus_of :: "string \<Rightarrow> exn + TaskStatus" where
  "TaskStatus_of v = (case find (\<lambda>s. TaskStatus_value s = v) all_statuses of
     Some s \<Rightarrow> Inr s | None \<Rightarrow> Inl (invalid_value v ''TaskStatus''))"

definition ExecutorType_of :: "string \<Rightarrow> exn + ExecutorType" where
  "ExecutorType_of v = (case find (\<lambda>s. ExecutorType_value s = v) [PYTHON, WEBHOOK] of
     Some s \<Rightarrow> Inr s | None \<Rightarrow> Inl (invalid_value v ''ExecutorType''))"

definition WorkerStatus_of :: "string \<Rightarrow> exn + WorkerStatus" where
  "WorkerStatus_of v = (case find (\<lambda>s. WorkerStatus_value s = v) [ACTIVE, IDLE, OFFLINE] of
     Some s \<Rightarrow> Inr s | None \<Rightarrow> Inl (invalid_value v ''WorkerStatus''))"

lemma TaskStatus_of_value [simp]: "TaskStatus_of (TaskStatus_value s) = Inr s"
  by (cases s) (simp_all add: TaskStatus_of_def all_statuses_def)

lemma ExecutorType_of_value [simp]: "ExecutorType_of (ExecutorType_value s) = Inr s"
  by (cases s) (simp_all add: ExecutorType_of_def)

lemma WorkerStatus_of_value [simp]: "WorkerStatus_of (WorkerStatus_value s) = Inr s"
  by (cases s) (simp_all add: WorkerStatus_of_def)

lemma TaskStatus_of_Inr: "TaskStatus_of v = Inr s \<longleftrightarrow> v = TaskStatus_value s"
proof
  assume "TaskStatus_of v = Inr s"
  then have "find (\<lambda>s. TaskStatus_value s = v) all_statuses = Some s"
    by (simp add: TaskStatus_of_def split: option.splits)
  then show "v = TaskStatus_value s" by (auto simp: find_Some_iff)
qed simp

lemma TaskStatus_value_nonempty [simp]: "TaskStatus_value s \<noteq> []"
proof -
  have "\<forall>s. TaskStatus_value s \<noteq> []" by code_simp
  then show ?thesis ..
qed

section \<open>Task identifiers and priorities\<close>

type_synonym TaskId = uuid

definition TaskId_from_string :: "string \<Rightarrow> exn + TaskId" where
  "TaskId_from_string s = (case uuid_parse s of Inl m \<Rightarrow> Inl (ValueError m) | Inr u \<Rightarrow> Inr u)"

definition TaskId_str :: "TaskId \<Rightarrow> string" where
  "TaskId_str i = uuid_str i"

lemma TaskId_from_string_str [simp]: "TaskId_from_string (TaskId_str i) = Inr i"
  by (simp add: TaskId_from_string_def TaskId_str_def)

text \<open>\<^verbatim>\<open>Priority(value)\<close>: the constructor's check; a priority is its value afterwards.\<close>

definition Priority :: "int \<Rightarrow> exn + int" where
  "Priority v = (if v < 0 then Inl (ValueError ''Priority must be non-negative'') else Inr v)"

definition Priority_critical :: "exn + int" where
  "Priority_critical = Priority 0"

definition Priority_normal :: "exn + int" where
  "Priority_normal = Priority 2"

section \<open>Backoff\<close>

record BackoffPolicy =
  strategy :: string
  base_delay_seconds :: int
  max_delay_seconds :: int
  multiplier :: pyfloat

definition default_BackoffPolicy :: BackoffPolicy where
  "default_BackoffPolicy =
     \<lparr>strategy = ''fixed'', base_delay_seconds = 5, max_delay_seconds = 300, multiplier = Finite 2\<rparr>"

fun float_exn :: "float_error \<Rightarrow> exn" where
  "float_exn (Float_Overflow m) = OverflowError m"
| "float_exn (Float_Value m) = ValueError m"

definition delay_for_attempt :: "BackoffPolicy \<Rightarrow> int \<Rightarrow> exn + int" where
  "delay_for_attempt p attempt =
     (if strategy p = ''exponential''
      then (case float_pow (multiplier p) (nat (max (attempt - 1) 0)) of
              Inl e \<Rightarrow> Inl (float_exn e)
            | Inr m \<Rightarrow> (case float_of_int (base_delay_seconds p) of
                Inl e \<Rightarrow> Inl (float_exn e)
              | Inr b \<Rightarrow> (case int_of_float (float_mul b m) of
                  Inl e \<Rightarrow> Inl (float_exn e)
                | Inr delay \<Rightarrow> Inr (min delay (max_delay_seconds p)))))
      else Inr (base_delay_seconds p))"

section \<open>Datetimes\<close>

datatype pydatetime = Aware int | Naive int

text \<open>\<^verbatim>\<open>d > now\<close> for an aware \<^verbatim>\<open>now\<close>.\<close>

fun datetime_gt :: "pydatetime \<Rightarrow> int \<Rightarrow> exn + bool" where
  "datetime_gt (Aware t) now = Inr (now < t)"
| "datetime_gt (Naive t) now = Inl (TypeError ''can't compare offset-naive and offset-aware datetimes'')"

text \<open>
  The first microsecond of the year 1, the last of the year 9999, \<^verbatim>\<open>timedelta(seconds=s)\<close>
  in microseconds, and \<^verbatim>\<open>t + timedelta(seconds=s)\<close>.
\<close>

definition datetime_max :: int where
  "datetime_max = 253402300799999999"

definition datetime_min :: int where
  "datetime_min = - 62135596800000000"

definition timedelta_seconds :: "int \<Rightarrow> exn + int" where
  "timedelta_seconds s =
     (if 86400 * 1000000000 \<le> s \<or> s < - (86400 * 999999999)
      then Inl (OverflowError (''days='' @ show_int (s div 86400) @ ''; must have magnitude <= 999999999''))
      else Inr (1000000 * s))"

definition add_seconds :: "int \<Rightarrow> int \<Rightarrow> exn + int" where
  "add_seconds t s =
     (case timedelta_seconds s of
        Inl e \<Rightarrow> Inl e
      | Inr d \<Rightarrow>
          if datetime_max < t + d \<or> t + d < datetime_min
          then Inl (OverflowError ''date value out of range'')
          else Inr (t + d))"

section \<open>Tasks\<close>

text \<open>
  \<^verbatim>\<open>__post_init__\<close> replaces a missing backoff policy, so the field is never \<^verbatim>\<open>None\<close>.
\<close>

record Task =
  task_id :: TaskId
  task_name :: string
  executor_type :: ExecutorType
  payload :: pydict
  task_status :: TaskStatus
  priority :: int
  max_retries :: int
  attempts :: int
  scheduled_at :: "pydatetime option"
  timeout_seconds :: int
  backoff_policy :: BackoffPolicy
  worker_id :: "string option"
  task_result :: "pydict option"
  task_error :: "string option"
  idempotency_key :: "string option"
  created_at :: "int option"
  updated_at :: "int option"
  started_at :: "int option"
  finished_at :: "int option"

text \<open>\<^verbatim>\<open>scheduled_at and scheduled_at > now\<close>\<close>

definition in_future :: "pydatetime option \<Rightarrow> int \<Rightarrow> exn + bool" where
  "in_future s now = (case s of None \<Rightarrow> Inr False | Some d \<Rightarrow> datetime_gt d now)"

text \<open>\<^verbatim>\<open>Task.create\<close>, given the clock reading and the generated identifier.\<close>

definition Task_create ::
  "int \<Rightarrow> TaskId \<Rightarrow> string \<Rightarrow> ExecutorType \<Rightarrow> pydict \<Rightarrow> int \<Rightarrow> int \<Rightarrow> pydatetime option \<Rightarrow> int \<Rightarrow>
   BackoffPolicy option \<Rightarrow> string option \<Rightarrow> exn + Task" where
  "Task_create now new_id nm ex pl prio retries sched tmo policy key =
     (case in_future sched now of
        Inl e \<Rightarrow> Inl e
      | Inr future \<Rightarrow> Inr
         \<lparr>task_id = new_id, task_name = nm, executor_type = ex, payload = pl,
          task_status = (if future then SCHEDULED else PENDING),
          priority = prio, max_retries = retries, attempts = 0, scheduled_at = sched,
          timeout_seconds = tmo,
          backoff_policy = (case policy of None \<Rightarrow> default_BackoffPolicy | Some p \<Rightarrow> p),
          worker_id = None, task_result = None, task_error = None, idempotency_key = key,
          created_at = Some now, updated_at = Some now, started_at = None, finished_at = None\<rparr>)"

definition can_retry :: "Task \<Rightarrow> bool" where
  "can_retry t \<longleftrightarrow> attempts t < max_retries t"

definition retry_delay_seconds :: "Task \<Rightarrow> exn + int" where
  "retry_delay_seconds t = delay_for_attempt (backoff_policy t) (attempts t)"

section \<open>The status machine\<close>

fun allowed :: "TaskStatus \<Rightarrow> TaskStatus list" where
  "allowed PENDING = [QUEUED, ENQUEUE_FAILED, CANCELLED]"
| "allowed SCHEDULED = [QUEUED, CANCELLED, ENQUEUE_FAILED]"
| "allowed QUEUED = [RUNNING, CANCELLED]"
| "allowed RUNNING = [COMPLETED, FAILED, CANCELLED, QUEUED, DEAD_LETTER]"
| "allowed FAILED = [QUEUED, DEAD_LETTER]"
| "allowed ENQUEUE_FAILED = [QUEUED, SCHEDULED]"
| "allowed DEAD_LETTER = [QUEUED]"
| "allowed COMPLETED = []"
| "allowed CANCELLED = []"

definition transition_to :: "int \<Rightarrow> Task \<Rightarrow> TaskStatus \<Rightarrow> exn + Task" where
  "transition_to now t s =
     (if s \<notin> set (allowed (task_status t))
      then Inl (ValueError (''Invalid transition from '' @ TaskStatus_value (task_status t) @
                            '' to '' @ TaskStatus_value s))
      else Inr (t\<lparr>task_status := s, updated_at := Some now\<rparr>))"

section \<open>Workers\<close>

record Worker =
  w_id :: uuid
  hostname :: string
  w_status :: WorkerStatus
  registered_at :: int
  last_seen_at :: int
  w_metadata :: "(string \<times> string) list"

text \<open>\<^verbatim>\<open>Worker.create\<close>: \<^verbatim>\<open>metadata or {}\<close>.\<close>

definition Worker_create :: "int \<Rightarrow> uuid \<Rightarrow> string \<Rightarrow> (string \<times> string) list option \<Rightarrow> Worker" where
  "Worker_create now new_id host md =
     \<lparr>w_id = new_id, hostname = host, w_status = ACTIVE, registered_at = now, last_seen_at = now,
      w_metadata = (case md of None \<Rightarrow> [] | Some m \<Rightarrow> m)\<rparr>"

definition Worker_heartbeat :: "int \<Rightarrow> Worker \<Rightarrow> Worker" where
  "Worker_heartbeat now w = w\<lparr>last_seen_at := now, w_status := ACTIVE\<rparr>"

section \<open>Properties of the status machine\<close>

text \<open>A run of \<^verbatim>\<open>transition_to\<close> calls, each with its clock reading, stopping at the first error.\<close>

fun transitions :: "(int \<times> TaskStatus) list \<Rightarrow> Task \<Rightarrow> exn + Task" where
  "transitions [] t = Inr t"
| "transitions ((now, s) # ss) t =
     (case transition_to now t s of Inl e \<Rightarrow> Inl e | Inr t' \<Rightarrow> transitions ss t')"

lemma transition_to_Inr:
  "transition_to now t s = Inr t' \<longleftrightarrow>
     s \<in> set (allowed (task_status t)) \<and> t' = t\<lparr>task_status := s, updated_at := Some now\<rparr>"
  by (auto simp: transition_to_def)

lemma transition_to_ok [simp]:
  "s \<in> set (allowed (task_status t)) \<Longrightarrow>
     transition_to now t s = Inr (t\<lparr>task_status := s, updated_at := Some now\<rparr>)"
  by (simp add: transition_to_def)

lemma allowed_into:
  "s \<in> set (allowed u) \<Longrightarrow> s = COMPLETED \<Longrightarrow> u = RUNNING"
  "s \<in> set (allowed u) \<Longrightarrow> s = RUNNING \<Longrightarrow> u = QUEUED"
proof -
  have "\<forall>u. (COMPLETED \<in> set (allowed u) \<longrightarrow> u = RUNNING) \<and> (RUNNING \<in> set (allowed u) \<longrightarrow> u = QUEUED)"
    by code_simp
  then show "s \<in> set (allowed u) \<Longrightarrow> s = COMPLETED \<Longrightarrow> u = RUNNING"
    "s \<in> set (allowed u) \<Longrightarrow> s = RUNNING \<Longrightarrow> u = QUEUED" by blast+
qed

lemma transitions_append:
  "transitions (xs @ ys) t = (case transitions xs t of Inl e \<Rightarrow> Inl e | Inr t' \<Rightarrow> transitions ys t')"
  by (induction xs arbitrary: t) (auto split: sum.split)

lemma transitions_snoc_Inr:
  "transitions (xs @ [x]) t = Inr t' \<longleftrightarrow>
     (\<exists>u. transitions xs t = Inr u \<and> transition_to (fst x) u (snd x) = Inr t')"
  by (cases x) (auto simp: transitions_append split: sum.splits)

text \<open>A status that a run ends in, other than the one it starts in, is the run's last step.\<close>

lemma transitions_last:
  assumes "transitions xs t = Inr t'" and "task_status t' \<noteq> task_status t"
  obtains ys now u where "xs = ys @ [(now, task_status t')]" and "transitions ys t = Inr u"
    and "task_status t' \<in> set (allowed (task_status u))"
proof (cases xs rule: rev_exhaust)
  case Nil
  with assms show ?thesis by simp
next
  case (snoc ys x)
  with assms(1) obtain u where "transitions ys t = Inr u" "transition_to (fst x) u (snd x) = Inr t'"
    by (auto simp: transitions_snoc_Inr)
  with that snoc show ?thesis by (cases x) (auto simp: transition_to_Inr)
qed

text \<open>
  C6. A task whose status runs from creation (PENDING or SCHEDULED) to COMPLETED through
  \<^verbatim>\<open>transition_to\<close> was made RUNNING by its last but one transition and QUEUED by the one
  before: no transition sequence completes a task that was not queued and then started.
\<close>

theorem completed_only_through_running:
  assumes "task_status t = PENDING \<or> task_status t = SCHEDULED"
    and "transitions xs t = Inr t'"
    and "task_status t' = COMPLETED"
  shows "\<exists>ys. map snd xs = ys @ [QUEUED, RUNNING, COMPLETED]"
proof -
  have "task_status t' \<noteq> task_status t" using assms(1,3) by auto
  from assms(2) this obtain ys n1 u where 1: "xs = ys @ [(n1, task_status t')]"
    "transitions ys t = Inr u" "task_status t' \<in> set (allowed (task_status u))"
    by (rule transitions_last)
  then have u: "task_status u = RUNNING" using assms(3) allowed_into(1) by simp
  then have "task_status u \<noteq> task_status t" using assms(1) by auto
  from 1(2) this obtain zs n2 v where 2: "ys = zs @ [(n2, task_status u)]"
    "transitions zs t = Inr v" "task_status u \<in> set (allowed (task_status v))"
    by (rule transitions_last)
  then have v: "task_status v = QUEUED" using u allowed_into(2) by simp
  then have "task_status v \<noteq> task_status t" using assms(1) by auto
  from 2(2) this obtain vs n3 where "zs = vs @ [(n3, task_status v)]"
    by (rule transitions_last)
  with 1(1) 2(1) have "map snd xs = map snd vs @ [QUEUED, RUNNING, COMPLETED]"
    using assms(3) u v by simp
  then show ?thesis ..
qed

theorem completed_only_through_running_witness:
  "map snd [(10, QUEUED), (20, RUNNING), (30, COMPLETED)] = [] @ [QUEUED, RUNNING, COMPLETED] \<and>
   (\<exists>ys. map snd [(10 :: int, QUEUED), (20, RUNNING), (30, COMPLETED)] = ys @ [QUEUED, RUNNING, COMPLETED])"
proof -
  define t where "t = \<lparr>task_id = 7, task_name = ''echo'', executor_type = PYTHON, payload = [],
    task_status = PENDING, priority = 0, max_retries = 3, attempts = 0, scheduled_at = None,
    timeout_seconds = 300, backoff_policy = default_BackoffPolicy, worker_id = None,
    task_result = None, task_error = None, idempotency_key = None, created_at = Some 1,
    updated_at = Some 1, started_at = None, finished_at = None\<rparr>"
  let ?t' = "t\<lparr>task_status := COMPLETED, updated_at := Some 30\<rparr>"
  have "task_status t = PENDING \<or> task_status t = SCHEDULED" by (simp add: t_def)
  moreover have "transitions [(10, QUEUED), (20, RUNNING), (30, COMPLETED)] t = Inr ?t'"
    by (simp add: t_def)
  moreover have "task_status ?t' = COMPLETED" by simp
  ultimately show ?thesis
    using completed_only_through_running [of t "[(10, QUEUED), (20, RUNNING), (30, COMPLETED)]" ?t']
    by simp
qed

section \<open>Properties of the backoff delay\<close>

lemma Inl_case_sum: "(case x of Inl e \<Rightarrow> Inl (f e) | Inr y \<Rightarrow> g y) = Inr z \<longleftrightarrow> (\<exists>y. x = Inr y \<and> g y = Inr z)"
  by (cases x) auto

lemma float_pow_Finite:
  assumes "float_pow (Finite r) k = Inr x"
  obtains m where "x = Finite m"
proof (cases "k = 0")
  case True
  with assms that [of 1] show ?thesis by (simp add: float_pow_def)
next
  case False
  with assms that show ?thesis by (cases "to_float (r ^ k)") (auto simp: float_pow_def)
qed

lemma delay_exponential_Inr:
  assumes "strategy p = ''exponential''" and "multiplier p = Finite r"
    and "delay_for_attempt p a = Inr d"
  obtains m where "float_pow (Finite r) (nat (max (a - 1) 0)) = Inr (Finite m)"
    and "0 \<le> base_delay_seconds p \<Longrightarrow> 0 \<le> m \<Longrightarrow>
         d = min \<lfloor>round64 (round64 (of_int (base_delay_seconds p)) * m)\<rfloor> (max_delay_seconds p)"
proof -
  from assms obtain x b i where x: "float_pow (Finite r) (nat (max (a - 1) 0)) = Inr x"
    and b: "float_of_int (base_delay_seconds p) = Inr b"
    and i: "int_of_float (float_mul b x) = Inr i" and d: "d = min i (max_delay_seconds p)"
    by (auto simp: delay_for_attempt_def Inl_case_sum)
  from x obtain m where m: "x = Finite m" by (rule float_pow_Finite)
  from b have br: "b = round64 (of_int (base_delay_seconds p))"
    by (auto simp: float_of_int_def dest: to_float_Finite split: pyfloat.splits)
  from i obtain s where s: "to_float (b * m) = Finite s" and i': "i = (if 0 \<le> s then \<lfloor>s\<rfloor> else \<lceil>s\<rceil>)"
    by (auto simp: m float_mul_def int_of_float_def split: pyfloat.splits)
  show ?thesis
  proof (rule that)
    show "float_pow (Finite r) (nat (max (a - 1) 0)) = Inr (Finite m)" using x m by simp
    assume "0 \<le> base_delay_seconds p" "0 \<le> m"
    then have "0 \<le> b * m" by (simp add: br round64_nonneg)
    then have "0 \<le> s" using to_float_Finite [OF s] round64_nonneg by simp
    then show "d = min \<lfloor>round64 (round64 (of_int (base_delay_seconds p)) * m)\<rfloor> (max_delay_seconds p)"
      using d i' to_float_Finite [OF s] br by simp
  qed
qed

lemma float_pow_mono:
  assumes "1 \<le> r" and "i \<le> j" and "float_pow (Finite r) i = Inr (Finite x)"
    and "float_pow (Finite r) j = Inr (Finite y)"
  shows "1 \<le> x \<and> x \<le> y"
proof -
  have one: "round64 1 = 1" using round64_exact [of 1 0] by (simp add: pow2_def)
  have v: "v = round64 (r ^ k)" if "float_pow (Finite r) k = Inr (Finite v)" for k v
    using that one by (auto simp: float_pow_def dest: to_float_Finite split: if_splits pyfloat.splits)
  have "1 \<le> r ^ i" using assms(1) by simp
  moreover have "r ^ i \<le> r ^ j" by (rule power_increasing) (use assms in auto)
  ultimately show ?thesis
    using round64_mono [of 1 "r ^ i"] round64_mono [of "r ^ i" "r ^ j"] one
      v [OF assms(3)] v [OF assms(4)] by simp
qed

lemma float_pow_two: "k \<le> 970 \<Longrightarrow> float_pow (Finite 2) k = Inr (Finite (2 ^ k))"
  using to_float_exact [of 1 "int k"] by (simp add: float_pow_def)

lemma delay_exact:
  assumes "strategy p = ''exponential''" and "multiplier p = Finite 2"
    and "\<bar>base_delay_seconds p\<bar> < 2 ^ 53" and "a \<le> 971"
  shows "delay_for_attempt p a =
    Inr (min (base_delay_seconds p * 2 ^ nat (max (a - 1) 0)) (max_delay_seconds p))"
proof -
  define k where "k = nat (max (a - 1) 0)"
  let ?b = "base_delay_seconds p"
  have k: "k \<le> 970" using assms(4) by (simp add: k_def)
  have b: "float_of_int ?b = Inr (of_int ?b)"
    using to_float_exact [of ?b 0] assms(3) by (simp add: float_of_int_def pow2_def)
  have "to_float (of_int ?b * pow2 (int k)) = Finite (of_int ?b * pow2 (int k))"
    by (rule to_float_exact) (use assms(3) k in simp_all)
  then have "float_mul (of_int ?b) (Finite (2 ^ k)) = Finite (of_int (?b * 2 ^ k))"
    by (simp add: float_mul_def)
  then have "int_of_float (float_mul (of_int ?b) (Finite (2 ^ k))) = Inr (?b * 2 ^ k)"
    by (simp add: int_of_float_def del: of_int_mult)
  then show ?thesis
    using assms(1,2) float_pow_two [OF k] b by (simp add: delay_for_attempt_def flip: k_def)
qed

text \<open>
  C31. Exponential backoff with a multiplier of at least 1 and a non-negative base never
  shortens from one attempt to a later one, is never negative, and never exceeds
  \<^verbatim>\<open>max_delay_seconds\<close>, whatever the rounding of the float arithmetic does.
\<close>

theorem exponential_delay_monotone_and_capped:
  assumes "strategy p = ''exponential''" and "multiplier p = Finite r" and "1 \<le> r"
    and "0 \<le> base_delay_seconds p" and "0 \<le> max_delay_seconds p" and "a \<le> b"
    and "delay_for_attempt p a = Inr d" and "delay_for_attempt p b = Inr e"
  shows "0 \<le> d \<and> d \<le> e \<and> e \<le> max_delay_seconds p"
proof -
  obtain x where x: "float_pow (Finite r) (nat (max (a - 1) 0)) = Inr (Finite x)"
    and d: "0 \<le> x \<Longrightarrow> d = min \<lfloor>round64 (round64 (of_int (base_delay_seconds p)) * x)\<rfloor> (max_delay_seconds p)"
    using delay_exponential_Inr [OF assms(1,2,7)] assms(4) by metis
  obtain y where y: "float_pow (Finite r) (nat (max (b - 1) 0)) = Inr (Finite y)"
    and e: "0 \<le> y \<Longrightarrow> e = min \<lfloor>round64 (round64 (of_int (base_delay_seconds p)) * y)\<rfloor> (max_delay_seconds p)"
    using delay_exponential_Inr [OF assms(1,2,8)] assms(4) by metis
  have "nat (max (a - 1) 0) \<le> nat (max (b - 1) 0)" using assms(6) by simp
  from float_pow_mono [OF assms(3) this x y] have xy: "1 \<le> x" "x \<le> y" by auto
  let ?b = "round64 (of_int (base_delay_seconds p))"
  have "0 \<le> ?b" using assms(4) by (simp add: round64_nonneg)
  then have "0 \<le> ?b * x" "?b * x \<le> ?b * y" using xy by (auto intro: mult_left_mono)
  then have "0 \<le> \<lfloor>round64 (?b * x)\<rfloor>" "\<lfloor>round64 (?b * x)\<rfloor> \<le> \<lfloor>round64 (?b * y)\<rfloor>"
    by (auto simp: round64_nonneg intro: floor_mono round64_mono)
  with d e xy assms(5) show ?thesis by auto
qed

theorem exponential_delay_monotone_and_capped_witness:
  "\<exists>p d e. delay_for_attempt p 2 = Inr d \<and> delay_for_attempt p 9 = Inr e \<and> 0 \<le> d \<and> d \<le> e \<and> e \<le> 300"
proof -
  let ?p = "default_BackoffPolicy\<lparr>strategy := ''exponential''\<rparr>"
  have p: "delay_for_attempt ?p 2 = Inr 10" "delay_for_attempt ?p 9 = Inr 300"
    using delay_exact [of ?p 2] delay_exact [of ?p 9] by (simp_all add: default_BackoffPolicy_def)
  have "0 \<le> (10::int) \<and> (10::int) \<le> 300 \<and> 300 \<le> max_delay_seconds ?p"
    using exponential_delay_monotone_and_capped [of ?p 2 2 9 10 300] p
    by (simp add: default_BackoffPolicy_def)
  with p show ?thesis by (intro exI [of _ ?p] exI [of _ 10] exI [of _ 300]) simp
qed

text \<open>
  With the default multiplier 2.0 the float arithmetic of exponential backoff is exact:
  while the base has at most 53 bits and the power is below 2^970, attempt \<open>a\<close> waits
  \<^verbatim>\<open>min(base * 2**(a-1), max_delay)\<close> seconds, and the first attempt waits like attempt 0.
\<close>

theorem exponential_delay_exact:
  assumes "strategy p = ''exponential''" and "multiplier p = Finite 2"
    and "\<bar>base_delay_seconds p\<bar> < 2 ^ 53" and "a \<le> 971"
  shows "delay_for_attempt p a =
    Inr (min (base_delay_seconds p * 2 ^ nat (max (a - 1) 0)) (max_delay_seconds p))"
  using assms by (rule delay_exact)

theorem exponential_delay_exact_witness:
  "delay_for_attempt (default_BackoffPolicy\<lparr>strategy := ''exponential''\<rparr>) 5 = Inr 80"
  using exponential_delay_exact [of "default_BackoffPolicy\<lparr>strategy := ''exponential''\<rparr>" 5]
  by (simp add: default_BackoffPolicy_def)

end
