(* ===== verification/Ports.thy ===== *)
theory Ports
  imports Domain Config
begin

text \<open>
  The ports of \<^verbatim>\<open>domain/ports/repositories.py\<close> as records of operations over an opaque
  world, the settings the services read, and the contract of each port as a locale: what an
  operation does to the database view and to the queue view, on return and on exception.
  The services are proved against these contracts; the SQLAlchemy and Redis adapters are
  shown to meet them (theories Redis\_Backend and Persistence).
\<close>

section \<open>Text of a date\<close>

text \<open>
  \<^verbatim>\<open>datetime.isoformat()\<close> of an aware UTC time: the Gregorian date of a day number, the
  time of day, and the microseconds unless they are zero.
\<close>

definition civil_of_days :: "int \<Rightarrow> int \<times> int \<times> int" where
  "civil_of_days days =
     (let z = days + 719468; era = z div 146097; doe = z mod 146097;
          yoe = (doe - doe div 1460 + doe div 36524 - doe div 146096) div 365;
          doy = doe - (365 * yoe + yoe div 4 - yoe div 100);
          mp = (5 * doy + 2) div 153;
          d = doy - (153 * mp + 2) div 5 + 1;
          m = (if mp < 10 then mp + 3 else mp - 9);
          y = yoe + era * 400 + (if m \<le> 2 then 1 else 0)
      in (y, m, d))"

definition pad_int :: "nat \<Rightarrow> int \<Rightarrow> string" where
  "pad_int k i = (let s = show_int i in replicate (k - length s) (CHR ''0'') @ s)"

definition isoformat :: "int \<Rightarrow> string" where
  "isoformat t =
     (let us = t mod 1000000; secs = t div 1000000; sod = secs mod 86400 in
      case civil_of_days (secs div 86400) of (y, m, d) \<Rightarrow>
        pad_int 4 y @ ''-'' @ pad_int 2 m @ ''-'' @ pad_int 2 d @ ''T'' @
        pad_int 2 (sod div 3600) @ '':'' @ pad_int 2 (sod mod 3600 div 60) @ '':'' @
        pad_int 2 (sod mod 60) @ (if us = 0 then [] else ''.'' @ pad_int 6 us) @ ''+00:00'')"

lemma isoformat_epoch: "isoformat 0 = ''1970-01-01T00:00:00+00:00''"
  by code_simp

lemma isoformat_leap_day: "isoformat 1709210096000789 = ''2024-02-29T12:34:56.000789+00:00''"
  by code_simp

section \<open>Clock, identifiers, metrics\<close>

datatype metric =
    TASKS_SUBMITTED string string
  | TASKS_COMPLETED string string
  | TASK_DURATION string int
  | TASKS_CANCELLED
  | TASKS_RETRIED
  | SCHEDULER_TICKS
  | SCHEDULER_RELEASED int
  | QUEUE_DEPTH string int
  | WORKERS_ACTIVE int
  | HTTP_REQUESTS string string string
  | HTTP_LATENCY string string int

record 'w runtime =
  rt_now :: "'w \<Rightarrow> int \<times> 'w"
  rt_uuid4 :: "'w \<Rightarrow> uuid \<times> 'w"
  rt_metric :: "metric \<Rightarrow> 'w \<Rightarrow> 'w"

text \<open>\<^verbatim>\<open>datetime.now(UTC)\<close>, \<^verbatim>\<open>uuid4()\<close> and a metric's \<^verbatim>\<open>inc\<close> or \<^verbatim>\<open>observe\<close>: none raises.\<close>

definition now :: "'w runtime \<Rightarrow> ('w, int) prog" where
  "now rt w = (case rt_now rt w of (t, w') \<Rightarrow> (Inr t, w'))"

definition uuid4 :: "'w runtime \<Rightarrow> ('w, uuid) prog" where
  "uuid4 rt w = (case rt_uuid4 rt w of (u, w') \<Rightarrow> (Inr u, w'))"

definition metric :: "'w runtime \<Rightarrow> metric \<Rightarrow> ('w, unit) prog" where
  "metric rt m w = (Inr (), rt_metric rt m w)"

section \<open>The ports\<close>

record TaskEvent =
  ev_id :: uuid
  ev_task_id :: TaskId
  event_type :: string
  from_status :: "TaskStatus option"
  to_status :: "TaskStatus option"
  ev_message :: "string option"
  ev_metadata :: pydict
  ev_created_at :: int

record task_query =
  q_status :: "TaskStatus option"
  q_name :: "string option"
  q_sort_by :: string
  q_sort_order :: string
  q_limit :: int
  q_offset :: int

text \<open>The keyword defaults of \<^verbatim>\<open>list_tasks\<close>.\<close>

definition default_task_query :: task_query where
  "default_task_query = \<lparr>q_status = None, q_name = None, q_sort_by = ''created_at'',
     q_sort_order = ''desc'', q_limit = 50, q_offset = 0\<rparr>"

record 'w TaskRepository =
  tr_save :: "Task \<Rightarrow> ('w, Task) prog"
  tr_get_by_id :: "TaskId \<Rightarrow> ('w, Task option) prog"
  tr_get_by_idempotency_key :: "string \<Rightarrow> ('w, Task option) prog"
  tr_list_tasks :: "task_query \<Rightarrow> ('w, Task list) prog"
  tr_count_tasks :: "TaskStatus option \<Rightarrow> string option \<Rightarrow> ('w, int) prog"
  tr_count_by_status :: "('w, (string \<times> int) list) prog"

record 'w TaskEventRepository =
  er_append :: "TaskId \<Rightarrow> string \<Rightarrow> TaskStatus option \<Rightarrow> TaskStatus option \<Rightarrow> string option \<Rightarrow>
    pydict option \<Rightarrow> ('w, TaskEvent) prog"
  er_list_for_task :: "TaskId \<Rightarrow> ('w, TaskEvent list) prog"

record 'w WorkerRepository =
  wr_save :: "Worker \<Rightarrow> ('w, Worker) prog"
  wr_get_by_id :: "uuid \<Rightarrow> ('w, Worker option) prog"
  wr_list_workers :: "int \<Rightarrow> ('w, Worker list) prog"
  wr_mark_stale_offline :: "int \<Rightarrow> ('w, int) prog"

record 'w QueueBackend =
  qb_enqueue_ready :: "TaskId \<Rightarrow> int \<Rightarrow> ('w, unit) prog"
  qb_enqueue_scheduled :: "TaskId \<Rightarrow> int \<Rightarrow> ('w, unit) prog"
  qb_dequeue_ready :: "int \<Rightarrow> ('w, TaskId option) prog"
  qb_remove_scheduled :: "TaskId \<Rightarrow> ('w, unit) prog"
  qb_get_due_scheduled :: "int \<Rightarrow> ('w, TaskId list) prog"
  qb_mark_inflight :: "TaskId \<Rightarrow> string \<Rightarrow> int \<Rightarrow> ('w, unit) prog"
  qb_clear_inflight :: "TaskId \<Rightarrow> ('w, unit) prog"
  qb_enqueue_dlq :: "TaskId \<Rightarrow> ('w, unit) prog"
  qb_dequeue_dlq :: "('w, TaskId option) prog"
  qb_mark_cancelled :: "TaskId \<Rightarrow> ('w, unit) prog"
  qb_is_cancelled :: "TaskId \<Rightarrow> ('w, bool) prog"
  qb_clear_cancelled :: "TaskId \<Rightarrow> ('w, unit) prog"
  qb_queue_depths :: "('w, (string \<times> int) list) prog"
  qb_set_worker_heartbeat :: "string \<Rightarrow> (string \<times> string) list \<Rightarrow> ('w, unit) prog"
  qb_get_active_workers :: "('w, string list) prog"
  qb_get_inflight_task_ids :: "('w, TaskId list) prog"
  qb_claim_due_scheduled :: "int \<Rightarrow> ('w, TaskId list) prog"

record 'w LeaderLock =
  ll_acquire :: "int \<Rightarrow> ('w, bool) prog"
  ll_renew :: "int \<Rightarrow> ('w, bool) prog"
  ll_release :: "('w, unit) prog"

section \<open>What the services can observe\<close>

text \<open>
  \<open>tasks\<close> and \<open>events\<close> are what the current session sees, \<open>committed\<close> and
  \<open>committed_events\<close> what is durable and visible to other sessions.
\<close>

record db_view =
  tasks :: "TaskId \<Rightarrow> Task option"
  events :: "TaskEvent list"
  committed :: "TaskId \<Rightarrow> Task option"
  committed_events :: "TaskEvent list"

text \<open>
  \<open>ready\<close> holds one list per priority level, the next identifier to run at its end;
  \<open>scheduled\<close> maps an identifier to its due time.
\<close>

record queue_view =
  ready :: "int \<Rightarrow> TaskId list"
  scheduled :: "TaskId \<Rightarrow> int option"
  dlq :: "TaskId list"
  cancelled :: "TaskId set"

text \<open>
  The row that \<^verbatim>\<open>save\<close> leaves: timestamps that are \<^verbatim>\<open>None\<close> are filled with the clock
  readings \<open>n\<close>; an existing row keeps its idempotency key and creation time.
\<close>

definition stored :: "int \<times> int \<Rightarrow> Task option \<Rightarrow> Task \<Rightarrow> Task" where
  "stored n old t =
     (let u = Some (case updated_at t of None \<Rightarrow> snd n | Some x \<Rightarrow> x) in
      case old of
        None \<Rightarrow> t\<lparr>created_at := Some (case created_at t of None \<Rightarrow> fst n | Some x \<Rightarrow> x), updated_at := u\<rparr>
      | Some r \<Rightarrow> t\<lparr>idempotency_key := idempotency_key r, created_at := created_at r, updated_at := u\<rparr>)"

lemma stored_simps [simp]:
  "task_status (stored n r t) = task_status t"
  "task_id (stored n r t) = task_id t"
  "attempts (stored n r t) = attempts t"
  "max_retries (stored n r t) = max_retries t"
  "worker_id (stored n r t) = worker_id t"
  "task_result (stored n r t) = task_result t"
  "task_error (stored n r t) = task_error t"
  "started_at (stored n r t) = started_at t"
  "finished_at (stored n r t) = finished_at t"
  "scheduled_at (stored n r t) = scheduled_at t"
  "priority (stored n r t) = priority t"
  "task_name (stored n r t) = task_name t"
  "payload (stored n r t) = payload t"
  "executor_type (stored n r t) = executor_type t"
  "timeout_seconds (stored n r t) = timeout_seconds t"
  "backoff_policy (stored n r t) = backoff_policy t"
  by (simp_all add: stored_def Let_def split: option.split)

definition put_task :: "int \<times> int \<Rightarrow> Task \<Rightarrow> db_view \<Rightarrow> db_view" where
  "put_task n t d = d\<lparr>tasks := (tasks d)(task_id t \<mapsto> stored n (tasks d (task_id t)) t)\<rparr>"

definition put_event :: "TaskEvent \<Rightarrow> db_view \<Rightarrow> db_view" where
  "put_event e d = d\<lparr>events := events d @ [e]\<rparr>"

lemma put_task_simps [simp]:
  "events (put_task n t d) = events d"
  "committed (put_task n t d) = committed d"
  "committed_events (put_task n t d) = committed_events d"
  "tasks (put_task n t d) = (tasks d)(task_id t \<mapsto> stored n (tasks d (task_id t)) t)"
  by (simp_all add: put_task_def)

lemma put_event_simps [simp]:
  "events (put_event e d) = events d @ [e]"
  "committed (put_event e d) = committed d"
  "committed_events (put_event e d) = committed_events d"
  "tasks (put_event e d) = tasks d"
  by (simp_all add: put_event_def)

definition push_ready :: "int \<Rightarrow> TaskId \<Rightarrow> int \<Rightarrow> queue_view \<Rightarrow> queue_view" where
  "push_ready levels i p v =
     (let l = min p (levels - 1) in v\<lparr>ready := (ready v)(l := i # ready v l)\<rparr>)"

text \<open>The first non-empty level of \<open>0, \<dots>, levels - 1\<close> gives up its last element.\<close>

fun pop_from :: "int list \<Rightarrow> queue_view \<Rightarrow> (TaskId \<times> queue_view) option" where
  "pop_from [] v = None"
| "pop_from (l # ls) v =
     (if ready v l = [] then pop_from ls v
      else Some (last (ready v l), v\<lparr>ready := (ready v)(l := butlast (ready v l))\<rparr>))"

definition pop_ready :: "int \<Rightarrow> queue_view \<Rightarrow> (TaskId \<times> queue_view) option" where
  "pop_ready levels v = pop_from [0..levels - 1] v"

lemma pop_from_first:
  "(\<And>x. x \<in> set xs \<Longrightarrow> ready v x = []) \<Longrightarrow> ready v l \<noteq> [] \<Longrightarrow>
     pop_from (xs @ l # ys) v = Some (last (ready v l), v\<lparr>ready := (ready v)(l := butlast (ready v l))\<rparr>)"
  by (induction xs) auto

lemma pop_ready_first:
  assumes "0 \<le> l" and "l < levels" and "\<And>x. 0 \<le> x \<Longrightarrow> x < l \<Longrightarrow> ready v x = []" and "ready v l \<noteq> []"
  shows "pop_ready levels v = Some (last (ready v l), v\<lparr>ready := (ready v)(l := butlast (ready v l))\<rparr>)"
proof -
  have "[0..levels - 1] = [0..l - 1] @ l # [l + 1..levels - 1]"
    using assms(1,2) by (intro upto_split3) auto
  moreover have "ready v x = []" if "x \<in> set [0..l - 1]" for x using that assms(3) by simp
  ultimately show ?thesis unfolding pop_ready_def using pop_from_first assms(4) by metis
qed

text \<open>Two identifiers pushed onto empty lists: the lower level first, one level in order.\<close>

lemma pop_two_pushed:
  assumes "0 < levels" and "0 \<le> p" and "0 \<le> q" and "\<And>l. ready v l = []"
  shows "\<exists>v'. pop_ready levels (push_ready levels j q (push_ready levels i p v)) =
    Some (if min q (levels - 1) < min p (levels - 1) then j else i, v')"
proof -
  let ?a = "min p (levels - 1)" and ?b = "min q (levels - 1)"
  let ?v = "push_ready levels j q (push_ready levels i p v)" and ?m = "min (min p (levels - 1)) (min q (levels - 1))"
  have r: "ready ?v l = (if l = ?b then [j] else []) @ (if l = ?a then [i] else [])" for l
    by (simp add: push_ready_def Let_def assms(4))
  have "pop_ready levels ?v = Some (last (ready ?v ?m), ?v\<lparr>ready := (ready ?v)(?m := butlast (ready ?v ?m))\<rparr>)"
    by (rule pop_ready_first) (use assms(1-3) in \<open>auto simp: r min_def split: if_splits\<close>)
  moreover have "last (ready ?v ?m) = (if ?b < ?a then j else i)"
    unfolding r by (auto simp: min_def)
  ultimately show ?thesis by auto
qed

definition due :: "queue_view \<Rightarrow> int \<Rightarrow> TaskId \<Rightarrow> bool" where
  "due v n i = (case scheduled v i of None \<Rightarrow> False | Some s \<Rightarrow> 0 \<le> s \<and> s \<le> n)"

text \<open>
  What a claim at time \<open>n\<close> may return: distinct due identifiers, no more than the limit (a
  negative limit is none), all of them if they fit, and none later than one left behind.
\<close>

definition claimable :: "int \<Rightarrow> int \<Rightarrow> queue_view \<Rightarrow> TaskId list \<Rightarrow> bool" where
  "claimable limit n v r \<longleftrightarrow>
     distinct r \<and> (\<forall>i \<in> set r. due v n i) \<and> (0 \<le> limit \<longrightarrow> int (length r) \<le> limit) \<and>
     (limit < 0 \<or> int (length r) < limit \<longrightarrow> (\<forall>i. due v n i \<longrightarrow> i \<in> set r)) \<and>
     (\<forall>i \<in> set r. \<forall>j. due v n j \<longrightarrow> j \<notin> set r \<longrightarrow> the (scheduled v i) \<le> the (scheduled v j))"

definition unschedule :: "TaskId set \<Rightarrow> queue_view \<Rightarrow> queue_view" where
  "unschedule is v = v\<lparr>scheduled := (\<lambda>i. if i \<in> is then None else scheduled v i)\<rparr>"

section \<open>Contracts\<close>

text \<open>
  An operation that touches neither view; a failed database operation, after which only the
  durable part is known; a queue operation, which on an exception may or may not have taken
  effect. The predicate \<open>pe\<close> says which exceptions the ports raise: a service theorem that
  ends in \<open>pe\<close> says that the service itself raises nothing else, and nothing at all over
  ports that never fail.
\<close>

definition keeps :: "('w \<Rightarrow> 'd) \<Rightarrow> ('w \<Rightarrow> 'q) \<Rightarrow> 'w \<Rightarrow> 'w \<Rightarrow> bool" where
  "keeps dbv qv w w' \<longleftrightarrow> dbv w' = dbv w \<and> qv w' = qv w"

definition db_failed :: "('w \<Rightarrow> db_view) \<Rightarrow> ('w \<Rightarrow> 'q) \<Rightarrow> 'w \<Rightarrow> 'w \<Rightarrow> bool" where
  "db_failed dbv qv w w' \<longleftrightarrow>
     committed (dbv w') = committed (dbv w) \<and> committed_events (dbv w') = committed_events (dbv w) \<and>
     qv w' = qv w"

text \<open>
  A member of a queue or of a table that its reader refuses: \<^verbatim>\<open>TaskId.from_string\<close> or an
  enumeration raises \<^verbatim>\<open>ValueError\<close>; a scan that the library does not finish.
\<close>

definition unreadable :: "(exn \<Rightarrow> bool) \<Rightarrow> exn \<Rightarrow> bool" where
  "unreadable pe e \<longleftrightarrow> pe e \<or> (\<exists>m. e = ValueError m \<or> e = LibraryError m)"

lemma unreadableI [simp, intro]:
  "pe e \<Longrightarrow> unreadable pe e" "unreadable pe (ValueError m)" "unreadable pe (LibraryError m)"
  by (auto simp: unreadable_def)

definition queue_effect ::
  "('w \<Rightarrow> 'd) \<Rightarrow> ('w \<Rightarrow> queue_view) \<Rightarrow> (exn \<Rightarrow> bool) \<Rightarrow> ('w, 'a) prog \<Rightarrow> (queue_view \<Rightarrow> queue_view) \<Rightarrow> bool" where
  "queue_effect dbv qv pe m f \<longleftrightarrow>
     contract m (\<lambda>w r w'. dbv w' = dbv w \<and> qv w' = f (qv w))
       (\<lambda>w e w'. pe e \<and> dbv w' = dbv w \<and> (qv w' = qv w \<or> qv w' = f (qv w)))"

locale runtime_port =
  fixes rt :: "'w runtime" and dbv :: "'w \<Rightarrow> 'd" and qv :: "'w \<Rightarrow> 'q"
  assumes now_keeps: "keeps dbv qv w (snd (rt_now rt w))"
    and uuid4_keeps: "keeps dbv qv w (snd (rt_uuid4 rt w))"
    and metric_keeps: "keeps dbv qv w (rt_metric rt m w)"

locale task_store =
  fixes repo :: "'w TaskRepository" and evs :: "'w TaskEventRepository"
    and dbv :: "'w \<Rightarrow> db_view" and qv :: "'w \<Rightarrow> 'q" and pe :: "exn \<Rightarrow> bool"
  assumes save: "0 \<le> priority t \<Longrightarrow> contract (tr_save repo t)
      (\<lambda>w r w'. r = t \<and> (\<exists>n. dbv w' = put_task n t (dbv w)) \<and> qv w' = qv w)
      (\<lambda>w e w'. pe e \<and> db_failed dbv qv w w')"
    and get_by_id: "contract (tr_get_by_id repo i)
      (\<lambda>w r w'. r = tasks (dbv w) i \<and> keeps dbv qv w w') (\<lambda>w e w'. pe e \<and> db_failed dbv qv w w')"
    and get_by_idempotency_key: "contract (tr_get_by_idempotency_key repo k)
      (\<lambda>w r w'. keeps dbv qv w w' \<and>
         (case r of
            None \<Rightarrow> (\<forall>i t. tasks (dbv w) i = Some t \<longrightarrow> idempotency_key t \<noteq> Some k)
          | Some t \<Rightarrow> idempotency_key t = Some k \<and> (\<exists>i. tasks (dbv w) i = Some t)))
      (\<lambda>w e w'. pe e \<and> db_failed dbv qv w w')"
    and list_tasks: "contract (tr_list_tasks repo q)
      (\<lambda>w r w'. keeps dbv qv w w' \<and> int (length r) \<le> max 0 (q_limit q) \<and>
         (\<forall>t \<in> set r. (\<exists>i. tasks (dbv w) i = Some t) \<and>
            (case q_status q of None \<Rightarrow> True | Some s \<Rightarrow> task_status t = s)))
      (\<lambda>w e w'. pe e \<and> db_failed dbv qv w w')"
    and append: "contract (er_append evs i ty fs ts msg md)
      (\<lambda>w r w'. dbv w' = put_event r (dbv w) \<and> qv w' = qv w \<and>
         ev_task_id r = i \<and> event_type r = ty \<and> from_status r = fs \<and> to_status r = ts \<and>
         ev_message r = msg \<and> ev_metadata r = (case md of None \<Rightarrow> [] | Some m \<Rightarrow> m))
      (\<lambda>w e w'. pe e \<and> db_failed dbv qv w w')"
    and stored_task: "tasks (dbv w) i = Some t \<Longrightarrow> task_id t = i \<and> 0 \<le> priority t"

text \<open>The worker table is apart from the tasks.\<close>

locale worker_store =
  fixes workers :: "'w WorkerRepository" and dbv :: "'w \<Rightarrow> db_view" and qv :: "'w \<Rightarrow> 'q"
    and pe :: "exn \<Rightarrow> bool"
  assumes worker_save: "contract (wr_save workers y)
      (\<lambda>w r w'. r = y \<and> keeps dbv qv w w') (\<lambda>w e w'. pe e \<and> db_failed dbv qv w w')"
    and worker_get: "contract (wr_get_by_id workers u)
      (\<lambda>w r w'. keeps dbv qv w w') (\<lambda>w e w'. unreadable pe e \<and> db_failed dbv qv w w')"

locale queue_port =
  fixes queue :: "'w QueueBackend" and levels :: int
    and dbv :: "'w \<Rightarrow> 'd" and qv :: "'w \<Rightarrow> queue_view" and pe :: "exn \<Rightarrow> bool"
  assumes enqueue_ready: "queue_effect dbv qv pe (qb_enqueue_ready queue i p) (push_ready levels i p)"
    and enqueue_scheduled: "queue_effect dbv qv pe (qb_enqueue_scheduled queue i due_at)
      (\<lambda>v. v\<lparr>scheduled := (scheduled v)(i \<mapsto> due_at)\<rparr>)"
    and remove_scheduled: "queue_effect dbv qv pe (qb_remove_scheduled queue i) (unschedule {i})"
    and mark_inflight: "queue_effect dbv qv pe (qb_mark_inflight queue i wid ttl) (\<lambda>v. v)"
    and clear_inflight: "queue_effect dbv qv pe (qb_clear_inflight queue i) (\<lambda>v. v)"
    and get_inflight: "queue_effect dbv qv (unreadable pe) (qb_get_inflight_task_ids queue) (\<lambda>v. v)"
    and set_worker_heartbeat: "queue_effect dbv qv pe (qb_set_worker_heartbeat queue wid md) (\<lambda>v. v)"
    and enqueue_dlq: "queue_effect dbv qv pe (qb_enqueue_dlq queue i) (\<lambda>v. v\<lparr>dlq := i # dlq v\<rparr>)"
    and mark_cancelled: "queue_effect dbv qv pe (qb_mark_cancelled queue i)
      (\<lambda>v. v\<lparr>cancelled := insert i (cancelled v)\<rparr>)"
    and clear_cancelled: "queue_effect dbv qv pe (qb_clear_cancelled queue i)
      (\<lambda>v. v\<lparr>cancelled := cancelled v - {i}\<rparr>)"
    and is_cancelled: "contract (qb_is_cancelled queue i)
      (\<lambda>w r w'. r = (i \<in> cancelled (qv w)) \<and> keeps dbv qv w w') (\<lambda>w e w'. pe e \<and> keeps dbv qv w w')"
    and dequeue_ready: "contract (qb_dequeue_ready queue tmo)
      (\<lambda>w r w'. dbv w' = dbv w \<and>
         (case r of None \<Rightarrow> qv w' = qv w \<and> pop_ready levels (qv w) = None
          | Some i \<Rightarrow> pop_ready levels (qv w) = Some (i, qv w')))
      (\<lambda>w e w'. unreadable pe e \<and> dbv w' = dbv w \<and>
         (qv w' = qv w \<or> (\<exists>i. pop_ready levels (qv w) = Some (i, qv w'))))"
    and claim_due: "contract (qb_claim_due_scheduled queue limit)
      (\<lambda>w r w'. dbv w' = dbv w \<and> qv w' = unschedule (set r) (qv w) \<and> (\<exists>n. claimable limit n (qv w) r))
      (\<lambda>w e w'. pe e \<and> dbv w' = dbv w \<and>
         (\<exists>r. qv w' = unschedule r (qv w)))"

text \<open>What a service needs: the runtime, the stores and the queue over the same world.\<close>

locale task_ports =
  runtime_port rt dbv qv + task_store repo evs dbv qv pe + worker_store workers dbv qv pe +
  queue_port queue levels dbv qv pe
  for rt :: "'w runtime" and repo :: "'w TaskRepository" and evs :: "'w TaskEventRepository"
    and workers :: "'w WorkerRepository"
    and queue :: "'w QueueBackend" and levels :: int
    and dbv :: "'w \<Rightarrow> db_view" and qv :: "'w \<Rightarrow> queue_view" and pe :: "exn \<Rightarrow> bool"

end
