(* ===== verification/Services.thy ===== *)
theory Services
  imports Ports
begin

text \<open>
  What the application services share: the ports they are constructed with, the task
  transition as a program, and the locale \<open>services\<close> with one weakest-precondition rule per
  port operation, so that a service is proved by running these rules over its definition.
\<close>

section \<open>The constructor arguments of the services\<close>

record 'w Services =
  svc_rt :: "'w runtime"
  svc_repo :: "'w TaskRepository"
  svc_evs :: "'w TaskEventRepository"
  svc_workers :: "'w WorkerRepository"
  svc_queue :: "'w QueueBackend"
  svc_st :: Settings

text \<open>\<^verbatim>\<open>task.transition_to(status)\<close>: the clock is read once the check has passed.\<close>

definition transition :: "'w Services \<Rightarrow> Task \<Rightarrow> TaskStatus \<Rightarrow> ('w, Task) prog" where
  "transition x t s =
     andThen (if s \<in> set (allowed (task_status t)) then now (svc_rt x) else ret 0) (\<lambda>n.
     from_sum (transition_to n t s))"

definition save :: "'w Services \<Rightarrow> Task \<Rightarrow> ('w, unit) prog" where
  "save x t = andThen (tr_save (svc_repo x) t) (\<lambda>_. ret ())"

text \<open>\<^verbatim>\<open>append(task.id, type, from, task.status, message=\<dots>, metadata=\<dots>)\<close>\<close>

definition append_event ::
  "'w Services \<Rightarrow> Task \<Rightarrow> string \<Rightarrow> TaskStatus option \<Rightarrow> string option \<Rightarrow> pydict option \<Rightarrow> ('w, unit) prog" where
  "append_event x t ty fs msg md =
     andThen (er_append (svc_evs x) (task_id t) ty fs (Some (task_status t)) msg md) (\<lambda>_. ret ())"

text \<open>\<^verbatim>\<open>get_task_or_raise\<close> and the same lookup in the cancellation service.\<close>

definition get_task_or_raise :: "'w Services \<Rightarrow> TaskId \<Rightarrow> ('w, Task) prog" where
  "get_task_or_raise x i =
     andThen (tr_get_by_id (svc_repo x) i) (\<lambda>t. case t of
       None \<Rightarrow> throw (TaskNotFoundError (TaskId_str i))
     | Some t \<Rightarrow> ret t)"

text \<open>The values that the clock may show.\<close>

definition reads :: "'w Services \<Rightarrow> int \<Rightarrow> bool" where
  "reads x n \<longleftrightarrow> (\<exists>w. fst (rt_now (svc_rt x) w) = n)"

text \<open>The identifiers that \<^verbatim>\<open>uuid4()\<close> may return.\<close>

definition mints :: "'w Services \<Rightarrow> uuid \<Rightarrow> bool" where
  "mints x u \<longleftrightarrow> (\<exists>w. fst (rt_uuid4 (svc_rt x) w) = u)"

section \<open>Frames\<close>

text \<open>Two queue views that agree on every identifier outside a set.\<close>

definition queue_only :: "TaskId set \<Rightarrow> queue_view \<Rightarrow> queue_view \<Rightarrow> bool" where
  "queue_only is v v' \<longleftrightarrow>
     (\<forall>j. j \<notin> is \<longrightarrow> scheduled v' j = scheduled v j \<and> (j \<in> cancelled v' \<longleftrightarrow> j \<in> cancelled v)) \<and>
     (\<forall>l. filter (\<lambda>j. j \<notin> is) (ready v' l) = filter (\<lambda>j. j \<notin> is) (ready v l)) \<and>
     filter (\<lambda>j. j \<notin> is) (dlq v') = filter (\<lambda>j. j \<notin> is) (dlq v)"

lemma queue_only_refl [simp]: "queue_only is v v"
  by (simp add: queue_only_def)

lemma queue_only_trans: "queue_only is u v \<Longrightarrow> queue_only is v w \<Longrightarrow> queue_only is u w"
  by (simp add: queue_only_def)

lemma queue_only_steps [simp]:
  "i \<in> is \<Longrightarrow> queue_only is u (push_ready levels i p v) = queue_only is u v"
  "i \<in> is \<Longrightarrow> queue_only is u (v\<lparr>scheduled := (scheduled v)(i \<mapsto> s)\<rparr>) = queue_only is u v"
  "i \<in> is \<Longrightarrow> queue_only is u (v\<lparr>dlq := i # dlq v\<rparr>) = queue_only is u v"
  "i \<in> is \<Longrightarrow> queue_only is u (v\<lparr>cancelled := insert i (cancelled v)\<rparr>) = queue_only is u v"
  "i \<in> is \<Longrightarrow> queue_only is u (v\<lparr>cancelled := cancelled v - {i}\<rparr>) = queue_only is u v"
  by (auto simp: queue_only_def push_ready_def Let_def)

lemma queue_only_unschedule [simp]:
  "js \<subseteq> is \<Longrightarrow> queue_only is u (unschedule js v) = queue_only is u v"
  by (auto simp: queue_only_def unschedule_def subset_iff)

lemma queue_only_own:
  "queue_only {i} v (push_ready levels i p v)"
  "queue_only {i} v (v\<lparr>scheduled := (scheduled v)(i \<mapsto> s)\<rparr>)"
  "queue_only {i} v (v\<lparr>dlq := i # dlq v\<rparr>)"
  "queue_only {i} v (v\<lparr>cancelled := insert i (cancelled v)\<rparr>)"
  "queue_only {i} v (v\<lparr>cancelled := cancelled v - {i}\<rparr>)"
  "queue_only {i} v (unschedule {i} v)"
  "queue_only {} v v"
  by simp_all

text \<open>
  Nothing durable changed, and the queues changed at most for the given identifiers: what
  holds of every service operation, whether it returns or raises, until the session commits.
\<close>

definition frame :: "('w \<Rightarrow> db_view) \<Rightarrow> ('w \<Rightarrow> queue_view) \<Rightarrow> TaskId set \<Rightarrow> 'w \<Rightarrow> 'w \<Rightarrow> bool" where
  "frame dbv qv is w w' \<longleftrightarrow>
     committed (dbv w') = committed (dbv w) \<and> committed_events (dbv w') = committed_events (dbv w) \<and>
     queue_only is (qv w) (qv w')"

lemma frame_refl [simp]: "frame dbv qv is w w"
  by (simp add: frame_def)

lemma frame_trans: "frame dbv qv is u v \<Longrightarrow> frame dbv qv is v w \<Longrightarrow> frame dbv qv is u w"
  by (auto simp: frame_def intro: queue_only_trans)

lemma queue_only_mono: "queue_only is u v \<Longrightarrow> is \<subseteq> js \<Longrightarrow> queue_only js u v"
proof -
  assume a: "queue_only is u v" and s: "is \<subseteq> js"
  have f: "filter (\<lambda>j. j \<notin> js) xs = filter (\<lambda>j. j \<notin> js) (filter (\<lambda>j. j \<notin> is) xs)" for xs
    using s by (auto simp: intro!: filter_cong)
  show ?thesis using a s unfolding queue_only_def
    by (auto simp: subset_iff) (metis f)+
qed

lemma frame_mono: "frame dbv qv is u v \<Longrightarrow> is \<subseteq> js \<Longrightarrow> frame dbv qv js u v"
  by (auto simp: frame_def intro: queue_only_mono)

text \<open>
  \<open>framed \<dots> is m P X\<close>: \<open>m\<close> keeps the frame on both exits, a result of \<open>m\<close> satisfies \<open>P\<close>
  and an exception \<open>X\<close>.
\<close>

definition framed ::
  "('w \<Rightarrow> db_view) \<Rightarrow> ('w \<Rightarrow> queue_view) \<Rightarrow> TaskId set \<Rightarrow> ('w, 'e, 'a) program \<Rightarrow> ('a \<Rightarrow> bool) \<Rightarrow>
   ('e \<Rightarrow> bool) \<Rightarrow> bool" where
  "framed dbv qv is m P X \<longleftrightarrow>
     contract m (\<lambda>w r w'. frame dbv qv is w w' \<and> P r) (\<lambda>w e w'. frame dbv qv is w w' \<and> X e)"

lemma framed_ret [frame_rules]: "P r \<Longrightarrow> framed dbv qv is (ret r) P X"
  by (simp add: framed_def contract_def wp_simps)

lemma framed_throw [frame_rules]: "X e \<Longrightarrow> framed dbv qv is (throw e) P X"
  by (simp add: framed_def contract_def wp_simps)

lemma framed_from_sum [frame_rules]: "framed dbv qv is (from_sum r) (\<lambda>v. r = Inr v) (\<lambda>_. True)"
  by (simp add: framed_def contract_def wp_simps split: sum.split)

text \<open>Running on from a world that keeps the frame.\<close>

lemma framed_on:
  assumes "framed dbv qv is m P X" and "frame dbv qv is w w1"
  shows "wp m (\<lambda>r w'. frame dbv qv is w w' \<and> P r) (\<lambda>e w'. frame dbv qv is w w' \<and> X e) w1"
  using contractD [OF assms(1) [unfolded framed_def], of w1] assms(2)
  by (auto intro: frame_trans elim!: wp_mono)

lemma framed_andThen [frame_rules]:
  assumes "framed dbv qv is m P X" and "\<And>r. P r \<Longrightarrow> framed dbv qv is (f r) Q X"
  shows "framed dbv qv is (andThen m f) Q X"
  unfolding framed_def
  by (intro contractI)
    (auto simp: wp_simps intro!: contract_wp [OF assms(1) [unfolded framed_def]] framed_on [OF assms(2)])

lemma framed_try_except [frame_rules]:
  assumes "framed dbv qv is m P Y" and "\<And>e. Y e \<Longrightarrow> framed dbv qv is (h e) P X"
  shows "framed dbv qv is (try_except m h) P X"
  unfolding framed_def
  by (intro contractI)
    (auto simp: wp_simps intro!: contract_wp [OF assms(1) [unfolded framed_def]] framed_on [OF assms(2)])

lemma framed_try_finally [frame_rules]:
  assumes "framed dbv qv is m P X" and "framed dbv qv is f (\<lambda>_. True) X"
  shows "framed dbv qv is (try_finally m f) P X"
proof -
  have "wp f (\<lambda>_. R) (\<lambda>e w'. frame dbv qv is w w' \<and> X e) w1"
    if "frame dbv qv is w w1" and "\<And>w'. frame dbv qv is w w' \<Longrightarrow> R w'" for w w1 R
    using framed_on [OF assms(2) that(1)] by (rule wp_mono) (auto intro: that(2))
  then show ?thesis unfolding framed_def
    by (intro contractI)
      (auto simp: wp_simps intro!: contract_wp [OF assms(1) [unfolded framed_def]])
qed

lemma framed_raising_with [frame_rules]:
  assumes "framed dbv qv is m P Y" and "\<And>e. Y e \<Longrightarrow> X (e, y)"
  shows "framed dbv qv is (raising_with y m) P X"
  unfolding framed_def
  by (intro contractI)
    (auto simp: wp_simps intro!: assms(2) contract_wp [OF assms(1) [unfolded framed_def]])

lemma framed_if [frame_rules]:
  "(b \<Longrightarrow> framed dbv qv is m P X) \<Longrightarrow> (\<not> b \<Longrightarrow> framed dbv qv is n P X) \<Longrightarrow>
     framed dbv qv is (if b then m else n) P X"
  by simp

lemma framed_option [frame_rules]:
  "(y = None \<Longrightarrow> framed dbv qv is m P X) \<Longrightarrow> (\<And>z. y = Some z \<Longrightarrow> framed dbv qv is (n z) P X) \<Longrightarrow>
     framed dbv qv is (case y of None \<Rightarrow> m | Some z \<Rightarrow> n z) P X"
  by (simp split: option.split)

lemma framed_pair [frame_rules]:
  "(\<And>a b. y = (a, b) \<Longrightarrow> framed dbv qv is (f a b) P X) \<Longrightarrow>
     framed dbv qv is (case y of (a, b) \<Rightarrow> f a b) P X"
  by (simp split: prod.split)

lemma framed_let [frame_rules]:
  "framed dbv qv is (f y) P X \<Longrightarrow> framed dbv qv is (let z = y in f z) P X"
  by simp

lemma framed_weaken:
  "framed dbv qv is m P X \<Longrightarrow> is \<subseteq> js \<Longrightarrow> (\<And>r. P r \<Longrightarrow> Q r) \<Longrightarrow> (\<And>e. X e \<Longrightarrow> Y e) \<Longrightarrow>
     framed dbv qv js m Q Y"
  unfolding framed_def by (rule contractI) (auto intro: frame_mono elim!: contract_wp)

lemma framed_for_each [frame_rules]:
  assumes "\<And>y s. y \<in> set ys \<Longrightarrow> P s \<Longrightarrow> framed dbv qv is (body y s) P X" and "P s"
  shows "framed dbv qv is (for_each ys body s) P X"
  using assms by (induction ys arbitrary: s) (auto intro!: framed_ret intro: framed_andThen)

lemma framed_wp:
  assumes "framed dbv qv is m P X" and "wp m Q E w"
  shows "wp m (\<lambda>r w'. Q r w' \<and> frame dbv qv is w w' \<and> P r) (\<lambda>e w'. E e w' \<and> frame dbv qv is w w') w"
  using wp_conj [OF assms(2) contractD [OF assms(1) [unfolded framed_def], of w]]
  by (auto elim!: wp_mono)

section \<open>Rules for the port operations\<close>

locale services =
  task_ports "svc_rt x" "svc_repo x" "svc_evs x" "svc_workers x" "svc_queue x" "priority_levels (svc_st x)" dbv qv pe
  for x :: "'w Services" and dbv :: "'w \<Rightarrow> db_view" and qv :: "'w \<Rightarrow> queue_view" and pe :: "exn \<Rightarrow> bool"

context services
begin

lemma db_failed_frame: "db_failed dbv qv w w' \<Longrightarrow> frame dbv qv is w w'"
  by (simp add: db_failed_def frame_def)

lemma reads_at: "reads x (fst (rt_now (svc_rt x) w))"
  by (auto simp: reads_def)

lemma now_rule [wp_rules]:
  assumes "\<And>n w'. reads x n \<Longrightarrow> dbv w' = dbv w \<Longrightarrow> qv w' = qv w \<Longrightarrow> Q n w'"
  shows "wp (now (svc_rt x)) Q E w"
  using now_keeps [of w] assms [OF reads_at [of w]] by (auto simp: wp_def now_def keeps_def split: prod.split)

lemma mints_at: "mints x (fst (rt_uuid4 (svc_rt x) w))"
  by (auto simp: mints_def)

lemma uuid4_rule [wp_rules]:
  assumes "\<And>n w'. mints x n \<Longrightarrow> dbv w' = dbv w \<Longrightarrow> qv w' = qv w \<Longrightarrow> Q n w'"
  shows "wp (uuid4 (svc_rt x)) Q E w"
  using uuid4_keeps [of w] assms [OF mints_at [of w]]
  by (auto simp: wp_def uuid4_def keeps_def split: prod.split)

lemma metric_rule [wp_rules]:
  assumes "\<And>w'. dbv w' = dbv w \<Longrightarrow> qv w' = qv w \<Longrightarrow> Q () w'"
  shows "wp (metric (svc_rt x) m) Q E w"
  using metric_keeps [of w m] assms by (auto simp: wp_def metric_def keeps_def split: prod.split)

lemma transition_rule:
  assumes "s \<in> set (allowed (task_status t))"
    and "\<And>n w'. dbv w' = dbv w \<Longrightarrow> qv w' = qv w \<Longrightarrow> Q (t\<lparr>task_status := s, updated_at := Some n\<rparr>) w'"
  shows "wp (transition x t s) Q E w"
  using assms by (auto simp: transition_def wp_simps intro: now_rule)

lemma transition_error:
  assumes "s \<notin> set (allowed (task_status t))"
    and "\<And>m. E (ValueError m) w"
  shows "wp (transition x t s) Q E w"
  using assms by (simp add: transition_def transition_to_def wp_simps)

lemma save_rule [wp_rules]:
  assumes "0 \<le> priority t"
    and "\<And>n w'. dbv w' = put_task n t (dbv w) \<Longrightarrow> qv w' = qv w \<Longrightarrow> Q () w'"
    and "\<And>e w'. pe e \<Longrightarrow> frame dbv qv {} w w' \<Longrightarrow> E e w'"
  shows "wp (save x t) Q E w"
  unfolding save_def wp_simps
  by (rule contract_wp [OF save [OF assms(1)]]) (auto intro: assms(2,3) db_failed_frame)

lemma append_rule [wp_rules]:
  assumes "\<And>e w'. dbv w' = put_event e (dbv w) \<Longrightarrow> qv w' = qv w \<Longrightarrow>
      ev_task_id e = task_id t \<Longrightarrow> event_type e = ty \<Longrightarrow> from_status e = fs \<Longrightarrow>
      to_status e = Some (task_status t) \<Longrightarrow> ev_message e = msg \<Longrightarrow>
      ev_metadata e = (case md of None \<Rightarrow> [] | Some m \<Rightarrow> m) \<Longrightarrow> Q () w'"
    and "\<And>e w'. pe e \<Longrightarrow> frame dbv qv {} w w' \<Longrightarrow> E e w'"
  shows "wp (append_event x t ty fs msg md) Q E w"
  unfolding append_event_def wp_simps
  by (rule contract_wp [OF append]) (auto intro: assms(1,2) db_failed_frame)

lemma get_rule [wp_rules]:
  assumes "\<And>w'. dbv w' = dbv w \<Longrightarrow> qv w' = qv w \<Longrightarrow> Q (tasks (dbv w) i) w'"
    and "\<And>e w'. pe e \<Longrightarrow> frame dbv qv {} w w' \<Longrightarrow> E e w'"
  shows "wp (tr_get_by_id (svc_repo x) i) Q E w"
  by (rule contract_wp [OF get_by_id]) (auto simp: keeps_def intro: assms(1,2) db_failed_frame)

text \<open>A queue operation on identifier \<open>i\<close>.\<close>

lemma effect_rule:
  assumes "queue_effect dbv qv pf m f"
    and "\<And>v. queue_only is v (f v)"
    and "\<And>r w'. dbv w' = dbv w \<Longrightarrow> qv w' = f (qv w) \<Longrightarrow> Q r w'"
    and "\<And>e w'. pf e \<Longrightarrow> frame dbv qv is w w' \<Longrightarrow> E e w'"
  shows "wp m Q E w"
  using assms(1) unfolding queue_effect_def
  by (rule contract_wp) (auto simp: frame_def intro!: assms(3,4) assms(2))

lemmas enqueue_ready_rule [wp_rules] = effect_rule [OF enqueue_ready queue_only_own(1)]
lemmas enqueue_scheduled_rule [wp_rules] = effect_rule [OF enqueue_scheduled queue_only_own(2)]
lemmas set_worker_heartbeat_rule [wp_rules] = effect_rule [OF set_worker_heartbeat queue_only_own(7)]
lemmas enqueue_dlq_rule [wp_rules] = effect_rule [OF enqueue_dlq queue_only_own(3)]
lemmas mark_cancelled_rule [wp_rules] = effect_rule [OF mark_cancelled queue_only_own(4)]
lemmas clear_cancelled_rule [wp_rules] = effect_rule [OF clear_cancelled queue_only_own(5)]
lemmas remove_scheduled_rule [wp_rules] = effect_rule [OF remove_scheduled queue_only_own(6)]
lemmas mark_inflight_rule [wp_rules] = effect_rule [OF mark_inflight queue_only_own(7)]
lemmas clear_inflight_rule [wp_rules] = effect_rule [OF clear_inflight queue_only_own(7)]
lemmas get_inflight_rule [wp_rules] = effect_rule [OF get_inflight queue_only_own(7)]

text \<open>The frames of the port operations.\<close>

lemma framedI:
  assumes "\<And>w. wp m (\<lambda>r w'. frame dbv qv is w w' \<and> P r) (\<lambda>e w'. frame dbv qv is w w' \<and> X e) w"
  shows "framed dbv qv is m P X"
  unfolding framed_def using assms by (rule contractI)

lemma framed_now [frame_rules]: "framed dbv qv is (now (svc_rt x)) (\<lambda>_. True) (\<lambda>_. True)"
  by (rule framedI, rule now_rule) (simp add: frame_def)

lemma framed_uuid4 [frame_rules]: "framed dbv qv is (uuid4 (svc_rt x)) (mints x) (\<lambda>_. True)"
  by (rule framedI, rule uuid4_rule) (simp add: frame_def)

lemma framed_metric [frame_rules]: "framed dbv qv is (metric (svc_rt x) m) (\<lambda>_. True) (\<lambda>_. True)"
  by (rule framedI, rule metric_rule) (simp add: frame_def)

lemma framed_transition [frame_rules]:
  "framed dbv qv is (transition x t s)
     (\<lambda>t'. \<exists>s n. t' = t\<lparr>task_status := s, updated_at := Some n\<rparr>) (\<lambda>_. True)"
  by (rule framedI, cases "s \<in> set (allowed (task_status t))")
    (rule transition_rule transition_error; auto simp: frame_def)+

lemma framed_save [frame_rules]: "0 \<le> priority t \<Longrightarrow> framed dbv qv is (save x t) (\<lambda>_. True) (\<lambda>_. True)"
  by (rule framedI, rule save_rule) (auto simp: frame_def intro: queue_only_mono)

lemma framed_append [frame_rules]: "framed dbv qv is (append_event x t ty fs msg md) (\<lambda>_. True) (\<lambda>_. True)"
  by (rule framedI, rule append_rule) (auto simp: frame_def intro: queue_only_mono)

lemma framed_get [frame_rules]:
  "framed dbv qv is (tr_get_by_id (svc_repo x) i)
     (\<lambda>r. case r of None \<Rightarrow> True | Some t \<Rightarrow> task_id t = i \<and> 0 \<le> priority t) (\<lambda>_. True)"
  by (rule framedI, rule get_rule)
    (auto simp: frame_def dest: stored_task intro: queue_only_mono split: option.split)

lemma framed_effect:
  assumes "queue_effect dbv qv pf m f" and "\<And>v. queue_only js v (f v)" and "js \<subseteq> is"
  shows "framed dbv qv is m (\<lambda>_. True) (\<lambda>_. True)"
  by (rule framed_weaken [OF framedI [OF effect_rule [OF assms(1,2)]] assms(3)])
    (auto simp: frame_def assms(2))

lemmas framed_queue [frame_rules] =
  framed_effect [OF enqueue_ready queue_only_own(1)]
  framed_effect [OF enqueue_scheduled queue_only_own(2)]
  framed_effect [OF set_worker_heartbeat queue_only_own(7)]
  framed_effect [OF enqueue_dlq queue_only_own(3)]
  framed_effect [OF mark_cancelled queue_only_own(4)]
  framed_effect [OF clear_cancelled queue_only_own(5)]
  framed_effect [OF remove_scheduled queue_only_own(6)]
  framed_effect [OF mark_inflight queue_only_own(7)]
  framed_effect [OF clear_inflight queue_only_own(7)]

lemma framed_is_cancelled [frame_rules]: "framed dbv qv is (qb_is_cancelled (svc_queue x) i) (\<lambda>_. True) (\<lambda>_. True)"
  by (rule framedI, rule contract_wp [OF is_cancelled]) (auto simp: keeps_def frame_def)

lemma is_cancelled_rule [wp_rules]:
  assumes "\<And>w'. dbv w' = dbv w \<Longrightarrow> qv w' = qv w \<Longrightarrow> Q (i \<in> cancelled (qv w)) w'"
    and "\<And>e w'. pe e \<Longrightarrow> frame dbv qv {} w w' \<Longrightarrow> E e w'"
  shows "wp (qb_is_cancelled (svc_queue x) i) Q E w"
  by (rule contract_wp [OF is_cancelled]) (auto simp: keeps_def frame_def intro!: assms)

lemma framed_get_or_raise [frame_rules]:
  "framed dbv qv is (get_task_or_raise x i) (\<lambda>t. task_id t = i \<and> 0 \<le> priority t) (\<lambda>_. True)"
  unfolding get_task_or_raise_def by (rule frame_rules | clarsimp)+

lemma get_task_or_raise_rule [wp_rules]:
  assumes "\<And>t w'. dbv w' = dbv w \<Longrightarrow> qv w' = qv w \<Longrightarrow> tasks (dbv w) i = Some t \<Longrightarrow> task_id t = i \<Longrightarrow>
      0 \<le> priority t \<Longrightarrow> Q t w'"
    and "\<And>w'. dbv w' = dbv w \<Longrightarrow> qv w' = qv w \<Longrightarrow> tasks (dbv w) i = None \<Longrightarrow>
      E (TaskNotFoundError (TaskId_str i)) w'"
    and "\<And>e w'. pe e \<Longrightarrow> frame dbv qv {} w w' \<Longrightarrow> E e w'"
  shows "wp (get_task_or_raise x i) Q E w"
  unfolding get_task_or_raise_def wp_simps
  by (rule get_rule) (auto intro: assms dest: stored_task split: option.split)

lemma framed_contract:
  assumes "contract m S F" and "\<And>w r w'. S w r w' \<Longrightarrow> frame dbv qv is w w' \<and> P r"
    and "\<And>w e w'. F w e w' \<Longrightarrow> frame dbv qv is w w'"
  shows "framed dbv qv is m P (\<lambda>_. True)"
  by (rule framedI, rule contract_wp [OF assms(1)]) (use assms(2,3) in auto)

lemma keeps_frame: "keeps dbv qv w w' \<Longrightarrow> frame dbv qv is w w'"
  by (simp add: keeps_def frame_def)

lemma framed_get_by_key [frame_rules]:
  "framed dbv qv is (tr_get_by_idempotency_key (svc_repo x) k) (\<lambda>_. True) (\<lambda>_. True)"
  by (rule framed_contract [OF get_by_idempotency_key]) (auto intro: keeps_frame db_failed_frame)

text \<open>The tasks of a listing carry non-negative priorities, and those of the wanted status.\<close>

lemma framed_list_tasks [frame_rules]:
  "framed dbv qv is (tr_list_tasks (svc_repo x) q)
     (\<lambda>ts. \<forall>t \<in> set ts. 0 \<le> priority t \<and>
        (case q_status q of None \<Rightarrow> True | Some s \<Rightarrow> task_status t = s)) (\<lambda>_. True)"
  by (rule framed_contract [OF list_tasks]) (auto intro: keeps_frame db_failed_frame dest: stored_task)

text \<open>Worker rows.\<close>

lemma framed_worker_save [frame_rules]:
  "framed dbv qv is (wr_save (svc_workers x) y) (\<lambda>_. True) (\<lambda>_. True)"
  by (rule framed_contract [OF worker_save]) (auto intro: keeps_frame db_failed_frame)

lemma framed_worker_get [frame_rules]:
  "framed dbv qv is (wr_get_by_id (svc_workers x) u) (\<lambda>_. True) (\<lambda>_. True)"
  by (rule framed_contract [OF worker_get]) (auto intro: keeps_frame db_failed_frame)

lemma worker_save_rule [wp_rules]:
  assumes "\<And>w'. dbv w' = dbv w \<Longrightarrow> qv w' = qv w \<Longrightarrow> Q y w'"
    and "\<And>e w'. pe e \<Longrightarrow> frame dbv qv {} w w' \<Longrightarrow> E e w'"
  shows "wp (wr_save (svc_workers x) y) Q E w"
  by (rule contract_wp [OF worker_save]) (auto simp: keeps_def intro: assms db_failed_frame)

lemma worker_get_rule [wp_rules]:
  assumes "\<And>r w'. dbv w' = dbv w \<Longrightarrow> qv w' = qv w \<Longrightarrow> Q r w'"
    and "\<And>e w'. unreadable pe e \<Longrightarrow> frame dbv qv {} w w' \<Longrightarrow> E e w'"
  shows "wp (wr_get_by_id (svc_workers x) u) Q E w"
  by (rule contract_wp [OF worker_get]) (auto simp: keeps_def intro: assms db_failed_frame)

end

end
