(* ===== verification/Persistence.thy ===== *)
theory Persistence
  imports Ports
begin

text \<open>
  \<^verbatim>\<open>infrastructure/persistence\<close>: the rows of \<^verbatim>\<open>models.py\<close>, the conversions between rows
  and domain objects, and the SQLAlchemy repositories, over a session that is a parameter. The
  locale \<open>sql_service\<close> states what SQLAlchemy and PostgreSQL document of the session calls used;
  under it the task and event repositories meet the contract of their ports.
\<close>

section \<open>Rows\<close>

text \<open>The JSON object of a backoff policy: each key may be missing.\<close>

record BackoffData =
  bd_strategy :: "string option"
  bd_base_delay_seconds :: "int option"
  bd_max_delay_seconds :: "int option"
  bd_multiplier :: "pyfloat option"

record TaskModel =
  m_id :: uuid
  m_name :: string
  m_executor_type :: string
  m_payload :: pydict
  m_status :: string
  m_priority :: int
  m_scheduled_at :: "pydatetime option"
  m_attempts :: int
  m_max_retries :: int
  m_timeout_seconds :: int
  m_backoff_policy :: BackoffData
  m_worker_id :: "string option"
  m_result :: "pydict option"
  m_error :: "string option"
  m_idempotency_key :: "string option"
  m_created_at :: int
  m_updated_at :: int
  m_started_at :: "int option"
  m_finished_at :: "int option"

record TaskEventModel =
  em_id :: uuid
  em_task_id :: uuid
  em_event_type :: string
  em_from_status :: "string option"
  em_to_status :: "string option"
  em_message :: "string option"
  em_metadata :: pydict
  em_created_at :: int

record WorkerModel =
  wm_id :: uuid
  wm_hostname :: string
  wm_status :: string
  wm_registered_at :: int
  wm_last_seen_at :: int
  wm_metadata :: "(string \<times> string) list"

record UserModel =
  um_id :: uuid
  um_username :: string
  um_password_hash :: string
  um_role :: string
  um_created_at :: int

section \<open>Conversions\<close>

text \<open>\<^verbatim>\<open>_to_domain_task\<close>: the enumerations and the priority are checked as they are built.\<close>

definition to_domain_task :: "TaskModel \<Rightarrow> exn + Task" where
  "to_domain_task m =
     (case ExecutorType_of (m_executor_type m) of
        Inl e \<Rightarrow> Inl e
      | Inr ex \<Rightarrow> (case TaskStatus_of (m_status m) of
          Inl e \<Rightarrow> Inl e
        | Inr s \<Rightarrow> (case Priority (m_priority m) of
            Inl e \<Rightarrow> Inl e
          | Inr p \<Rightarrow> Inr
             \<lparr>task_id = m_id m, task_name = m_name m, executor_type = ex, payload = m_payload m,
              task_status = s, priority = p, max_retries = m_max_retries m, attempts = m_attempts m,
              scheduled_at = m_scheduled_at m, timeout_seconds = m_timeout_seconds m,
              backoff_policy = (let b = m_backoff_policy m in
                \<lparr>strategy = (case bd_strategy b of None \<Rightarrow> ''fixed'' | Some x \<Rightarrow> x),
                 base_delay_seconds = (case bd_base_delay_seconds b of None \<Rightarrow> 5 | Some x \<Rightarrow> x),
                 max_delay_seconds = (case bd_max_delay_seconds b of None \<Rightarrow> 300 | Some x \<Rightarrow> x),
                 multiplier = (case bd_multiplier b of None \<Rightarrow> Finite 2 | Some x \<Rightarrow> x)\<rparr>),
              worker_id = m_worker_id m, task_result = m_result m, task_error = m_error m,
              idempotency_key = m_idempotency_key m, created_at = Some (m_created_at m),
              updated_at = Some (m_updated_at m), started_at = m_started_at m,
              finished_at = m_finished_at m\<rparr>)))"

definition policy_data :: "BackoffPolicy \<Rightarrow> BackoffData" where
  "policy_data p = \<lparr>bd_strategy = Some (strategy p), bd_base_delay_seconds = Some (base_delay_seconds p),
     bd_max_delay_seconds = Some (max_delay_seconds p), bd_multiplier = Some (multiplier p)\<rparr>"

text \<open>\<^verbatim>\<open>x or datetime.now(UTC)\<close>\<close>

definition or_now :: "'w runtime \<Rightarrow> int option \<Rightarrow> ('w, int) prog" where
  "or_now rt x = (case x of None \<Rightarrow> now rt | Some t \<Rightarrow> ret t)"

definition task_model :: "int \<Rightarrow> int \<Rightarrow> Task \<Rightarrow> TaskModel" where
  "task_model created updated t =
     \<lparr>m_id = task_id t, m_name = task_name t, m_executor_type = ExecutorType_value (executor_type t),
      m_payload = payload t, m_status = TaskStatus_value (task_status t), m_priority = priority t,
      m_scheduled_at = scheduled_at t, m_attempts = attempts t, m_max_retries = max_retries t,
      m_timeout_seconds = timeout_seconds t, m_backoff_policy = policy_data (backoff_policy t),
      m_worker_id = worker_id t, m_result = task_result t, m_error = task_error t,
      m_idempotency_key = idempotency_key t, m_created_at = created, m_updated_at = updated,
      m_started_at = started_at t, m_finished_at = finished_at t\<rparr>"

definition to_model_task :: "'w runtime \<Rightarrow> Task \<Rightarrow> ('w, TaskModel) prog" where
  "to_model_task rt t =
     andThen (or_now rt (created_at t)) (\<lambda>created.
     andThen (or_now rt (updated_at t)) (\<lambda>updated. ret (task_model created updated t)))"

text \<open>The attribute assignments of \<^verbatim>\<open>save\<close> on an instance that exists.\<close>

definition assign_task :: "int \<Rightarrow> Task \<Rightarrow> TaskModel \<Rightarrow> TaskModel" where
  "assign_task updated t m = m
     \<lparr>m_name := task_name t, m_executor_type := ExecutorType_value (executor_type t),
      m_payload := payload t, m_status := TaskStatus_value (task_status t), m_priority := priority t,
      m_scheduled_at := scheduled_at t, m_attempts := attempts t, m_max_retries := max_retries t,
      m_timeout_seconds := timeout_seconds t, m_backoff_policy := policy_data (backoff_policy t),
      m_worker_id := worker_id t, m_result := task_result t, m_error := task_error t,
      m_updated_at := updated, m_started_at := started_at t, m_finished_at := finished_at t\<rparr>"

fun opt_status :: "string option \<Rightarrow> exn + TaskStatus option" where
  "opt_status None = Inr None"
| "opt_status (Some v) = (if v = [] then Inr None
     else case TaskStatus_of v of Inl e \<Rightarrow> Inl e | Inr s \<Rightarrow> Inr (Some s))"

definition to_domain_event :: "TaskEventModel \<Rightarrow> exn + TaskEvent" where
  "to_domain_event m =
     (case opt_status (em_from_status m) of
        Inl e \<Rightarrow> Inl e
      | Inr fs \<Rightarrow> (case opt_status (em_to_status m) of
          Inl e \<Rightarrow> Inl e
        | Inr ts \<Rightarrow> Inr
           \<lparr>ev_id = em_id m, ev_task_id = em_task_id m, event_type = em_event_type m,
            from_status = fs, to_status = ts, ev_message = em_message m,
            ev_metadata = em_metadata m, ev_created_at = em_created_at m\<rparr>))"

definition to_domain_worker :: "WorkerModel \<Rightarrow> exn + Worker" where
  "to_domain_worker m =
     (case WorkerStatus_of (wm_status m) of
        Inl e \<Rightarrow> Inl e
      | Inr s \<Rightarrow> Inr \<lparr>w_id = wm_id m, hostname = wm_hostname m, w_status = s,
          registered_at = wm_registered_at m, last_seen_at = wm_last_seen_at m,
          w_metadata = wm_metadata m\<rparr>)"

text \<open>A list comprehension over a conversion that may raise.\<close>

fun convert_all :: "('a \<Rightarrow> exn + 'b) \<Rightarrow> 'a list \<Rightarrow> exn + 'b list" where
  "convert_all f [] = Inr []"
| "convert_all f (x # xs) =
     (case f x of Inl e \<Rightarrow> Inl e
      | Inr y \<Rightarrow> (case convert_all f xs of Inl e \<Rightarrow> Inl e | Inr ys \<Rightarrow> Inr (y # ys)))"

section \<open>The session\<close>

datatype sort_column = Col_created_at | Col_priority | Col_status | Col_name

record task_select =
  s_status :: "string option"
  s_name_ilike :: "string option"
  s_column :: sort_column
  s_desc :: bool
  s_limit :: int
  s_offset :: int

text \<open>
  The calls of an \<^verbatim>\<open>AsyncSession\<close> that the repositories make. \<^verbatim>\<open>sq_add_\<dots>\<close> is
  \<^verbatim>\<open>session.add\<close>, \<^verbatim>\<open>sq_set_\<dots>\<close> the attribute assignments on a loaded instance; both
  reach the database at the next \<^verbatim>\<open>flush\<close>, which for a new event also fetches the
  creation time that the server filled in. \<^verbatim>\<open>sq_add_user\<close> takes the name, the hash and the
  role that a new user is made of.
\<close>

record 'w SqlSession =
  sq_get_task :: "uuid \<Rightarrow> ('w, TaskModel option) prog"
  sq_add_task :: "TaskModel \<Rightarrow> 'w \<Rightarrow> 'w"
  sq_set_task :: "TaskModel \<Rightarrow> 'w \<Rightarrow> 'w"
  sq_flush :: "('w, unit) prog"
  sq_task_by_key :: "string \<Rightarrow> ('w, TaskModel option) prog"
  sq_select_tasks :: "task_select \<Rightarrow> ('w, TaskModel list) prog"
  sq_count_tasks :: "string option \<Rightarrow> string option \<Rightarrow> ('w, int) prog"
  sq_count_by_status :: "('w, (string \<times> int) list) prog"
  sq_add_event :: "TaskEventModel \<Rightarrow> 'w \<Rightarrow> 'w"
  sq_event_created_at :: "uuid \<Rightarrow> ('w, int) prog"
  sq_select_events :: "uuid \<Rightarrow> ('w, TaskEventModel list) prog"
  sq_get_worker :: "uuid \<Rightarrow> ('w, WorkerModel option) prog"
  sq_add_worker :: "WorkerModel \<Rightarrow> 'w \<Rightarrow> 'w"
  sq_set_worker :: "WorkerModel \<Rightarrow> 'w \<Rightarrow> 'w"
  sq_select_workers :: "int \<Rightarrow> ('w, WorkerModel list) prog"
  sq_update_stale_workers :: "int \<Rightarrow> string \<Rightarrow> ('w, int) prog"
  sq_user_by_name :: "string \<Rightarrow> ('w, UserModel option) prog"
  sq_add_user :: "string \<Rightarrow> string \<Rightarrow> string \<Rightarrow> 'w \<Rightarrow> 'w"
  sq_begin :: "'w \<Rightarrow> 'w"
  sq_commit :: "('w, unit) prog"
  sq_rollback :: "('w, unit) prog"
  sq_close :: "('w, unit) prog"

definition stage :: "('w \<Rightarrow> 'w) \<Rightarrow> ('w, unit) prog" where
  "stage f w = (Inr (), f w)"

lemma wp_stage [wp_simps]: "wp (stage f) Q E = (\<lambda>w. Q () (f w))"
  by (simp add: fun_eq_iff wp_def stage_def)

section \<open>The task repository\<close>

definition repo_save :: "'w SqlSession \<Rightarrow> 'w runtime \<Rightarrow> Task \<Rightarrow> ('w, Task) prog" where
  "repo_save sq rt t =
     andThen (sq_get_task sq (task_id t)) (\<lambda>existing.
     andThen (case existing of
         None \<Rightarrow> andThen (to_model_task rt t) (\<lambda>m. stage (sq_add_task sq m))
       | Some m \<Rightarrow> andThen (or_now rt (updated_at t)) (\<lambda>u. stage (sq_set_task sq (assign_task u t m)))) (\<lambda>_.
     andThen (sq_flush sq) (\<lambda>_. ret t)))"

definition opt_domain :: "TaskModel option \<Rightarrow> ('w, Task option) prog" where
  "opt_domain m = (case m of None \<Rightarrow> ret None
     | Some r \<Rightarrow> andThen (from_sum (to_domain_task r)) (\<lambda>t. ret (Some t)))"

definition repo_get_by_id :: "'w SqlSession \<Rightarrow> TaskId \<Rightarrow> ('w, Task option) prog" where
  "repo_get_by_id sq i = andThen (sq_get_task sq i) opt_domain"

definition repo_get_by_idempotency_key :: "'w SqlSession \<Rightarrow> string \<Rightarrow> ('w, Task option) prog" where
  "repo_get_by_idempotency_key sq k = andThen (sq_task_by_key sq k) opt_domain"

definition sort_column_of :: "string \<Rightarrow> sort_column" where
  "sort_column_of s =
     (if s = ''priority'' then Col_priority else if s = ''status'' then Col_status
      else if s = ''name'' then Col_name else Col_created_at)"

text \<open>\<^verbatim>\<open>if name:\<close> leaves an empty name out; the pattern is \<^verbatim>\<open>%name%\<close> as it stands.\<close>

definition name_pattern :: "string option \<Rightarrow> string option" where
  "name_pattern n = (case n of None \<Rightarrow> None
     | Some s \<Rightarrow> if s = [] then None else Some (''%'' @ s @ ''%''))"

definition repo_list_tasks :: "'w SqlSession \<Rightarrow> task_query \<Rightarrow> ('w, Task list) prog" where
  "repo_list_tasks sq q =
     andThen (sq_select_tasks sq
       \<lparr>s_status = map_option TaskStatus_value (q_status q), s_name_ilike = name_pattern (q_name q),
        s_column = sort_column_of (q_sort_by q), s_desc = (lower (q_sort_order q) = ''desc''),
        s_limit = q_limit q, s_offset = q_offset q\<rparr>)
       (\<lambda>ms. from_sum (convert_all to_domain_task ms))"

definition repo_count_tasks ::
  "'w SqlSession \<Rightarrow> TaskStatus option \<Rightarrow> string option \<Rightarrow> ('w, int) prog" where
  "repo_count_tasks sq s n = sq_count_tasks sq (map_option TaskStatus_value s) (name_pattern n)"

definition repo_count_by_status :: "'w SqlSession \<Rightarrow> ('w, (string \<times> int) list) prog" where
  "repo_count_by_status sq = sq_count_by_status sq"

definition SqlAlchemyTaskRepository :: "'w SqlSession \<Rightarrow> 'w runtime \<Rightarrow> 'w TaskRepository" where
  "SqlAlchemyTaskRepository sq rt =
     \<lparr>tr_save = repo_save sq rt, tr_get_by_id = repo_get_by_id sq,
      tr_get_by_idempotency_key = repo_get_by_idempotency_key sq,
      tr_list_tasks = repo_list_tasks sq, tr_count_tasks = repo_count_tasks sq,
      tr_count_by_status = repo_count_by_status sq\<rparr>"

section \<open>The event repository\<close>

definition event_model ::
  "uuid \<Rightarrow> TaskId \<Rightarrow> string \<Rightarrow> TaskStatus option \<Rightarrow> TaskStatus option \<Rightarrow> string option \<Rightarrow> pydict option \<Rightarrow>
   int \<Rightarrow> TaskEventModel" where
  "event_model new_id i ty fs ts msg md created =
     \<lparr>em_id = new_id, em_task_id = i, em_event_type = ty,
      em_from_status = map_option TaskStatus_value fs, em_to_status = map_option TaskStatus_value ts,
      em_message = msg, em_metadata = (case md of None \<Rightarrow> [] | Some m \<Rightarrow> m), em_created_at = created\<rparr>"

definition event_append ::
  "'w SqlSession \<Rightarrow> 'w runtime \<Rightarrow> TaskId \<Rightarrow> string \<Rightarrow> TaskStatus option \<Rightarrow> TaskStatus option \<Rightarrow>
   string option \<Rightarrow> pydict option \<Rightarrow> ('w, TaskEvent) prog" where
  "event_append sq rt i ty fs ts msg md =
     andThen (uuid4 rt) (\<lambda>new_id.
     andThen (stage (sq_add_event sq (event_model new_id i ty fs ts msg md 0))) (\<lambda>_.
     andThen (sq_flush sq) (\<lambda>_.
     andThen (sq_event_created_at sq new_id) (\<lambda>created. ret
       \<lparr>ev_id = new_id, ev_task_id = i, event_type = ty, from_status = fs, to_status = ts,
        ev_message = msg, ev_metadata = (case md of None \<Rightarrow> [] | Some m \<Rightarrow> m),
        ev_created_at = created\<rparr>))))"

definition event_list_for_task :: "'w SqlSession \<Rightarrow> TaskId \<Rightarrow> ('w, TaskEvent list) prog" where
  "event_list_for_task sq i =
     andThen (sq_select_events sq i) (\<lambda>ms. from_sum (convert_all to_domain_event ms))"

definition SqlAlchemyTaskEventRepository :: "'w SqlSession \<Rightarrow> 'w runtime \<Rightarrow> 'w TaskEventRepository" where
  "SqlAlchemyTaskEventRepository sq rt =
     \<lparr>er_append = event_append sq rt, er_list_for_task = event_list_for_task sq\<rparr>"

section \<open>The worker repository\<close>

definition worker_save :: "'w SqlSession \<Rightarrow> Worker \<Rightarrow> ('w, Worker) prog" where
  "worker_save sq x =
     andThen (sq_get_worker sq (w_id x)) (\<lambda>existing.
     andThen (stage (case existing of
         None \<Rightarrow> sq_add_worker sq \<lparr>wm_id = w_id x, wm_hostname = hostname x,
           wm_status = WorkerStatus_value (w_status x), wm_registered_at = registered_at x,
           wm_last_seen_at = last_seen_at x, wm_metadata = w_metadata x\<rparr>
       | Some m \<Rightarrow> sq_set_worker sq (m\<lparr>wm_hostname := hostname x,
           wm_status := WorkerStatus_value (w_status x), wm_last_seen_at := last_seen_at x,
           wm_metadata := w_metadata x\<rparr>))) (\<lambda>_.
     andThen (sq_flush sq) (\<lambda>_. ret x)))"

definition worker_get_by_id :: "'w SqlSession \<Rightarrow> uuid \<Rightarrow> ('w, Worker option) prog" where
  "worker_get_by_id sq i =
     andThen (sq_get_worker sq i) (\<lambda>m. case m of None \<Rightarrow> ret None
       | Some r \<Rightarrow> andThen (from_sum (to_domain_worker r)) (\<lambda>x. ret (Some x)))"

definition worker_list :: "'w SqlSession \<Rightarrow> int \<Rightarrow> ('w, Worker list) prog" where
  "worker_list sq limit =
     andThen (sq_select_workers sq limit) (\<lambda>ms. from_sum (convert_all to_domain_worker ms))"

definition worker_mark_stale_offline :: "'w SqlSession \<Rightarrow> 'w runtime \<Rightarrow> int \<Rightarrow> ('w, int) prog" where
  "worker_mark_stale_offline sq rt stale_seconds =
     andThen (now rt) (\<lambda>cutoff.
     andThen (from_sum (add_seconds cutoff (- stale_seconds))) (\<lambda>threshold.
     sq_update_stale_workers sq threshold (WorkerStatus_value OFFLINE)))"

definition SqlAlchemyWorkerRepository :: "'w SqlSession \<Rightarrow> 'w runtime \<Rightarrow> 'w WorkerRepository" where
  "SqlAlchemyWorkerRepository sq rt =
     \<lparr>wr_save = worker_save sq, wr_get_by_id = worker_get_by_id sq, wr_list_workers = worker_list sq,
      wr_mark_stale_offline = worker_mark_stale_offline sq rt\<rparr>"

section \<open>What SQLAlchemy and PostgreSQL document\<close>

text \<open>
  The rows the session sees (its own flushed changes included) and the committed rows.
\<close>

record sql_view =
  trows :: "uuid \<Rightarrow> TaskModel option"
  erows :: "TaskEventModel list"
  c_trows :: "uuid \<Rightarrow> TaskModel option"
  c_erows :: "TaskEventModel list"

definition sql_failed :: "('w \<Rightarrow> sql_view) \<Rightarrow> ('w \<Rightarrow> 'q) \<Rightarrow> 'w \<Rightarrow> 'w \<Rightarrow> bool" where
  "sql_failed sv qv w w' \<longleftrightarrow>
     c_trows (sv w') = c_trows (sv w) \<and> c_erows (sv w') = c_erows (sv w) \<and> qv w' = qv w"

text \<open>
  A call that raises leaves the committed rows alone, save a commit whose answer is lost. A
  flush that adds a row with an idempotency key that another row has fails on the unique
  index. The tables hold only rows this code wrote.
\<close>

locale sql_service =
  fixes sq :: "'w SqlSession" and sv :: "'w \<Rightarrow> sql_view" and qv :: "'w \<Rightarrow> 'q" and pe :: "exn \<Rightarrow> bool"
  assumes sql_get_task: "contract (sq_get_task sq i)
      (\<lambda>w r w'. r = trows (sv w) i \<and> keeps sv qv w w') (\<lambda>w e w'. pe e \<and> sql_failed sv qv w w')"
    and sql_add_task: "wp (sq_flush sq)
      (\<lambda>_ w'. sv w' = (sv w)\<lparr>trows := (trows (sv w))(m_id m \<mapsto> m)\<rparr> \<and> qv w' = qv w)
      (\<lambda>e w'. pe e \<and> sql_failed sv qv w w') (sq_add_task sq m w)"
    and sql_set_task: "wp (sq_flush sq)
      (\<lambda>_ w'. sv w' = (sv w)\<lparr>trows := (trows (sv w))(m_id m \<mapsto> m)\<rparr> \<and> qv w' = qv w)
      (\<lambda>e w'. pe e \<and> sql_failed sv qv w w') (sq_set_task sq m w)"
    and sql_unique_key: "trows (sv w) i = Some m' \<Longrightarrow> m_idempotency_key m' = Some k \<Longrightarrow>
      m_idempotency_key m = Some k \<Longrightarrow> i \<noteq> m_id m \<Longrightarrow>
      \<exists>e w'. sq_flush sq (sq_add_task sq m w) = (Inl e, w')"
    and sql_task_by_key: "contract (sq_task_by_key sq k)
      (\<lambda>w r w'. keeps sv qv w w' \<and>
         (case r of
            None \<Rightarrow> (\<forall>i m. trows (sv w) i = Some m \<longrightarrow> m_idempotency_key m \<noteq> Some k)
          | Some m \<Rightarrow> m_idempotency_key m = Some k \<and> trows (sv w) (m_id m) = Some m))
      (\<lambda>w e w'. pe e \<and> sql_failed sv qv w w')"
    and sql_select_tasks: "contract (sq_select_tasks sq q)
      (\<lambda>w r w'. keeps sv qv w w' \<and> int (length r) \<le> max 0 (s_limit q) \<and>
         (\<forall>m \<in> set r. trows (sv w) (m_id m) = Some m \<and>
            (case s_status q of None \<Rightarrow> True | Some s \<Rightarrow> m_status m = s)))
      (\<lambda>w e w'. pe e \<and> sql_failed sv qv w w')"
    and sql_add_event: "wp (sq_flush sq)
      (\<lambda>_ w'. (\<exists>created. sv w' = (sv w)\<lparr>erows := erows (sv w) @ [e\<lparr>em_created_at := created\<rparr>]\<rparr>) \<and>
         qv w' = qv w)
      (\<lambda>e w'. pe e \<and> sql_failed sv qv w w') (sq_add_event sq e w)"
    and sql_event_created_at: "contract (sq_event_created_at sq i)
      (\<lambda>w r w'. keeps sv qv w w' \<and>
         (\<forall>es e. erows (sv w) = es @ [e] \<longrightarrow> em_id e = i \<longrightarrow> r = em_created_at e))
      (\<lambda>w e w'. pe e \<and> sql_failed sv qv w w')"
    and sql_get_worker: "contract (sq_get_worker sq u)
      (\<lambda>w r w'. keeps sv qv w w') (\<lambda>w e w'. pe e \<and> sql_failed sv qv w w')"
    and sql_add_worker: "wp (sq_flush sq) (\<lambda>_ w'. sv w' = sv w \<and> qv w' = qv w)
      (\<lambda>e w'. pe e \<and> sql_failed sv qv w w') (sq_add_worker sq wm w)"
    and sql_set_worker: "wp (sq_flush sq) (\<lambda>_ w'. sv w' = sv w \<and> qv w' = qv w)
      (\<lambda>e w'. pe e \<and> sql_failed sv qv w w') (sq_set_worker sq wm w)"
    and sql_begin: "sv (sq_begin sq w) = (sv w)\<lparr>trows := c_trows (sv w), erows := c_erows (sv w)\<rparr> \<and>
      qv (sq_begin sq w) = qv w"
    and sql_commit: "contract (sq_commit sq)
      (\<lambda>w _ w'. sv w' = (sv w)\<lparr>c_trows := trows (sv w), c_erows := erows (sv w)\<rparr> \<and> qv w' = qv w)
      (\<lambda>w e w'. pe e \<and> qv w' = qv w \<and>
         (c_trows (sv w') = c_trows (sv w) \<and> c_erows (sv w') = c_erows (sv w) \<or>
          c_trows (sv w') = trows (sv w) \<and> c_erows (sv w') = erows (sv w)))"
    and sql_rollback: "contract (sq_rollback sq)
      (\<lambda>w _ w'. sql_failed sv qv w w') (\<lambda>w e w'. pe e \<and> sql_failed sv qv w w')"
    and sql_close: "contract (sq_close sq)
      (\<lambda>w _ w'. sql_failed sv qv w w') (\<lambda>w e w'. pe e \<and> sql_failed sv qv w w')"
    and sql_rows: "trows (sv w) i = Some m \<Longrightarrow> m_id m = i \<and> (\<exists>t. to_domain_task m = Inr t)"

text \<open>
  The users, by their unique names, as the session sees them and as committed.
\<close>

record user_view =
  users :: "string \<Rightarrow> UserModel option"
  c_users :: "string \<Rightarrow> UserModel option"

locale user_service =
  fixes sq :: "'w SqlSession" and uv :: "'w \<Rightarrow> user_view" and pe :: "exn \<Rightarrow> bool"
  assumes user_by_name: "contract (sq_user_by_name sq n)
      (\<lambda>w r w'. r = users (uv w) n \<and> uv w' = uv w) (\<lambda>w e w'. pe e \<and> c_users (uv w') = c_users (uv w))"
    and add_user: "wp (sq_flush sq)
      (\<lambda>_ w'. \<exists>m. um_username m = n \<and> um_password_hash m = h \<and> um_role m = r \<and>
         uv w' = (uv w)\<lparr>users := (users (uv w))(n \<mapsto> m)\<rparr>)
      (\<lambda>e w'. pe e \<and> c_users (uv w') = c_users (uv w)) (sq_add_user sq n h r w)"
    and user_begin: "uv (sq_begin sq w) = (uv w)\<lparr>users := c_users (uv w)\<rparr>"
    and user_commit: "contract (sq_commit sq)
      (\<lambda>w _ w'. c_users (uv w') = users (uv w))
      (\<lambda>w e w'. pe e \<and> (c_users (uv w') = c_users (uv w) \<or> c_users (uv w') = users (uv w)))"
    and user_rollback: "contract (sq_rollback sq)
      (\<lambda>w _ w'. c_users (uv w') = c_users (uv w)) (\<lambda>w e w'. pe e \<and> c_users (uv w') = c_users (uv w))"
    and user_close: "contract (sq_close sq)
      (\<lambda>w _ w'. c_users (uv w') = c_users (uv w)) (\<lambda>w e w'. pe e \<and> c_users (uv w') = c_users (uv w))"
    and user_names: "users (uv w) n = Some m \<Longrightarrow> um_username m = n"

section \<open>The database view of the rows\<close>

definition decode_task :: "TaskModel \<Rightarrow> Task option" where
  "decode_task m = (case to_domain_task m of Inl e \<Rightarrow> None | Inr t \<Rightarrow> Some t)"

fun decode_events :: "TaskEventModel list \<Rightarrow> TaskEvent list" where
  "decode_events [] = []"
| "decode_events (m # ms) =
     (case to_domain_event m of Inl e \<Rightarrow> decode_events ms | Inr e \<Rightarrow> e # decode_events ms)"

definition dview :: "sql_view \<Rightarrow> db_view" where
  "dview s = \<lparr>tasks = (\<lambda>i. Option.bind (trows s i) decode_task),
     events = decode_events (erows s),
     committed = (\<lambda>i. Option.bind (c_trows s i) decode_task),
     committed_events = decode_events (c_erows s)\<rparr>"

lemma dview_tasks_Some:
  "tasks (dview s) i = Some t \<longleftrightarrow> (\<exists>m. trows s i = Some m \<and> to_domain_task m = Inr t)"
proof -
  have "decode_task m = Some t \<longleftrightarrow> to_domain_task m = Inr t" for m
    by (cases "to_domain_task m") (auto simp: decode_task_def)
  then show ?thesis by (auto simp: dview_def bind_eq_Some_conv)
qed

lemma decode_events_append: "decode_events (xs @ ys) = decode_events xs @ decode_events ys"
  by (induction xs) (auto split: sum.split)

text \<open>A stored task reads back as it was saved, up to the filled timestamps.\<close>

lemma to_domain_task_model:
  assumes "0 \<le> priority t"
  shows "to_domain_task (task_model c u t) = Inr (t\<lparr>created_at := Some c, updated_at := Some u\<rparr>)"
  using assms by (simp add: to_domain_task_def task_model_def Priority_def policy_data_def Let_def)

lemma to_domain_assign_task:
  assumes "0 \<le> priority t" and "m_id m = task_id t"
  shows "to_domain_task (assign_task u t m) =
    Inr (t\<lparr>idempotency_key := m_idempotency_key m, created_at := Some (m_created_at m), updated_at := Some u\<rparr>)"
  using assms by (simp add: to_domain_task_def assign_task_def Priority_def policy_data_def Let_def)

lemma model_ids [simp]:
  "m_id (task_model c u t) = task_id t"
  "m_id (assign_task u t m) = m_id m"
  by (simp_all add: task_model_def assign_task_def)

lemma to_domain_task_fields:
  assumes "to_domain_task m = Inr t"
  shows "task_id t = m_id m" "0 \<le> priority t" "idempotency_key t = m_idempotency_key m"
    "created_at t = Some (m_created_at m)" "TaskStatus_value (task_status t) = m_status m"
  using assms
  by (auto simp: to_domain_task_def Priority_def TaskStatus_of_Inr split: sum.splits if_splits)

lemma to_domain_event_model:
  "to_domain_event (event_model new_id i ty fs ts msg md c) =
     Inr \<lparr>ev_id = new_id, ev_task_id = i, event_type = ty, from_status = fs, to_status = ts,
        ev_message = msg, ev_metadata = (case md of None \<Rightarrow> [] | Some m \<Rightarrow> m), ev_created_at = c\<rparr>"
  by (cases fs; cases ts) (simp_all add: to_domain_event_def event_model_def)

lemma event_model_created [simp]:
  "(event_model new_id i ty fs ts msg md c)\<lparr>em_created_at := c'\<rparr> = event_model new_id i ty fs ts msg md c'"
  "em_id (event_model new_id i ty fs ts msg md c) = new_id"
  "em_created_at (event_model new_id i ty fs ts msg md c) = c"
  by (simp_all add: event_model_def)

lemma convert_all_Inr:
  "convert_all f xs = Inr ys \<Longrightarrow> length ys = length xs \<and> (\<forall>y \<in> set ys. \<exists>x \<in> set xs. f x = Inr y)"
  by (induction xs arbitrary: ys) (auto split: sum.splits)

lemma convert_all_Inl: "convert_all f xs = Inl e \<Longrightarrow> \<exists>x \<in> set xs. f x = Inl e"
  by (induction xs) (auto split: sum.splits)

lemma sql_failed_db: "sql_failed sv qv w w' \<Longrightarrow> db_failed (\<lambda>w. dview (sv w)) qv w w'"
  by (simp add: sql_failed_def db_failed_def dview_def)

section \<open>The repositories meet the contract of the store\<close>

locale sql_store =
  sql_service sq sv qv pe + runtime_port rt sv qv
  for sq :: "'w SqlSession" and rt :: "'w runtime" and sv :: "'w \<Rightarrow> sql_view" and qv :: "'w \<Rightarrow> 'q" and pe :: "exn \<Rightarrow> bool"

context sql_store
begin

lemma or_now_rule:
  assumes "\<And>n w'. sv w' = sv w \<Longrightarrow> qv w' = qv w \<Longrightarrow> x = None \<or> x = Some n \<Longrightarrow> Q n w'"
  shows "wp (or_now rt x) Q E w"
proof (cases x)
  case None
  then show ?thesis using now_keeps [of w] assms
    by (auto simp: or_now_def wp_def now_def keeps_def split: prod.split)
next
  case (Some t)
  then show ?thesis using assms [of w t] by (simp add: or_now_def wp_simps)
qed

lemma uuid_rule:
  assumes "\<And>u w'. sv w' = sv w \<Longrightarrow> qv w' = qv w \<Longrightarrow> Q u w'"
  shows "wp (uuid4 rt) Q E w"
  using uuid4_keeps [of w] assms by (auto simp: wp_def uuid4_def keeps_def split: prod.split)

text \<open>Reading: the result in terms of the decoded view.\<close>

lemma opt_domain_row:
  assumes "trows (sv w) i = r"
  shows "wp (opt_domain r) Q E w' = Q (tasks (dview (sv w)) i) w'"
proof (cases r)
  case None
  then show ?thesis using assms by (simp add: opt_domain_def wp_simps dview_def)
next
  case (Some m)
  then obtain t where "to_domain_task m = Inr t" using sql_rows assms by blast
  then show ?thesis using assms Some
    by (simp add: opt_domain_def wp_simps dview_def decode_task_def)
qed

lemma failed: "sql_failed sv qv w w1 \<Longrightarrow> sv w = sv w0 \<Longrightarrow> qv w = qv w0 \<Longrightarrow>
    db_failed (\<lambda>w. dview (sv w)) qv w0 w1"
  by (rule sql_failed_db) (simp add: sql_failed_def)

lemma get_contract:
  "contract (repo_get_by_id sq i)
     (\<lambda>w r w'. r = tasks (dview (sv w)) i \<and> keeps (\<lambda>w. dview (sv w)) qv w w')
     (\<lambda>w e w'. pe e \<and> db_failed (\<lambda>w. dview (sv w)) qv w w')"
  unfolding repo_get_by_id_def
  by (rule contractI, simp only: wp_simps, rule contract_wp [OF sql_get_task])
    (auto simp: opt_domain_row keeps_def intro: failed)

lemma key_contract:
  "contract (repo_get_by_idempotency_key sq k)
     (\<lambda>w r w'. keeps (\<lambda>w. dview (sv w)) qv w w' \<and>
        (case r of
           None \<Rightarrow> (\<forall>i t. tasks (dview (sv w)) i = Some t \<longrightarrow> idempotency_key t \<noteq> Some k)
         | Some t \<Rightarrow> idempotency_key t = Some k \<and> (\<exists>i. tasks (dview (sv w)) i = Some t)))
     (\<lambda>w e w'. pe e \<and> db_failed (\<lambda>w. dview (sv w)) qv w w')"
  (is "contract _ ?S ?F")
proof (rule contractI, unfold repo_get_by_idempotency_key_def wp_simps, rule contract_wp [OF sql_task_by_key])
  fix w r w'
  assume r: "keeps sv qv w w' \<and> (case r of
      None \<Rightarrow> \<forall>i m. trows (sv w) i = Some m \<longrightarrow> m_idempotency_key m \<noteq> Some k
    | Some m \<Rightarrow> m_idempotency_key m = Some k \<and> trows (sv w) (m_id m) = Some m)"
  show "wp (opt_domain r) (?S w) (?F w) w'"
  proof (cases r)
    case None
    have "idempotency_key t \<noteq> Some k" if "tasks (dview (sv w)) i = Some t" for i t
    proof -
      from that obtain m where "trows (sv w) i = Some m" "to_domain_task m = Inr t"
        by (auto simp: dview_tasks_Some)
      then show ?thesis using r None to_domain_task_fields(3) [of m t] by auto
    qed
    with r None show ?thesis by (simp add: opt_domain_def wp_simps keeps_def)
  next
    case (Some m)
    with r have m: "trows (sv w) (m_id m) = r" "m_idempotency_key m = Some k" by auto
    from sql_rows m Some obtain t where t: "to_domain_task m = Inr t" by blast
    then have "tasks (dview (sv w)) (m_id m) = Some t" using m Some by (simp add: dview_def decode_task_def)
    with r t m(2) show ?thesis
      using to_domain_task_fields(3) [OF t] by (auto simp: opt_domain_row [OF m(1)] keeps_def)
  qed
next
  fix w e w' assume "pe e \<and> sql_failed sv qv w w'" then show "?F w e w'" by (simp add: sql_failed_db)
qed

lemma list_contract:
  "contract (repo_list_tasks sq q)
     (\<lambda>w r w'. keeps (\<lambda>w. dview (sv w)) qv w w' \<and> int (length r) \<le> max 0 (q_limit q) \<and>
        (\<forall>t \<in> set r. (\<exists>i. tasks (dview (sv w)) i = Some t) \<and>
           (case q_status q of None \<Rightarrow> True | Some s \<Rightarrow> task_status t = s)))
     (\<lambda>w e w'. pe e \<and> db_failed (\<lambda>w. dview (sv w)) qv w w')"
  (is "contract _ ?S ?F")
proof (rule contractI, unfold repo_list_tasks_def wp_simps, rule contract_wp [OF sql_select_tasks])
  fix w ms w'
  let ?sel = "\<lparr>s_status = map_option TaskStatus_value (q_status q), s_name_ilike = name_pattern (q_name q),
        s_column = sort_column_of (q_sort_by q), s_desc = (lower (q_sort_order q) = ''desc''),
        s_limit = q_limit q, s_offset = q_offset q\<rparr>"
  assume r: "keeps sv qv w w' \<and> int (length ms) \<le> max 0 (s_limit ?sel) \<and>
    (\<forall>m \<in> set ms. trows (sv w) (m_id m) = Some m \<and>
       (case s_status ?sel of None \<Rightarrow> True | Some s \<Rightarrow> m_status m = s))"
  show "(case convert_all to_domain_task ms of Inl e \<Rightarrow> ?F w e | Inr x \<Rightarrow> ?S w x) w'"
  proof (cases "convert_all to_domain_task ms")
    case (Inl e)
    then obtain m where "m \<in> set ms" "to_domain_task m = Inl e" by (auto dest: convert_all_Inl)
    with r sql_rows [of w "m_id m" m] have False by auto
    then show ?thesis ..
  next
    case (Inr ts)
    have "(\<exists>i. tasks (dview (sv w)) i = Some t) \<and>
        (case q_status q of None \<Rightarrow> True | Some s \<Rightarrow> task_status t = s)" if "t \<in> set ts" for t
    proof -
      from convert_all_Inr [OF Inr] that obtain m where m: "m \<in> set ms" "to_domain_task m = Inr t" by auto
      with r have "tasks (dview (sv w)) (m_id m) = Some t" by (simp add: dview_def decode_task_def)
      moreover have "TaskStatus_value (task_status t) = m_status m" using m(2) by (rule to_domain_task_fields)
      then have "case q_status q of None \<Rightarrow> True | Some s \<Rightarrow> task_status t = s"
        using r m(1) by (auto split: option.splits) (metis TaskStatus_of_value sum.inject(2))
      ultimately show ?thesis by auto
    qed
    with r convert_all_Inr [OF Inr] Inr show ?thesis by (simp add: keeps_def)
  qed
next
  fix w e w' assume "pe e \<and> sql_failed sv qv w w'" then show "?F w e w'" by (simp add: sql_failed_db)
qed

text \<open>Writing: the staged row decodes to the task that the contract stores.\<close>

lemma dview_put:
  assumes "sv w' = (sv w)\<lparr>trows := (trows (sv w))(m_id m \<mapsto> m)\<rparr>"
    and "to_domain_task m = Inr (stored n (tasks (dview (sv w)) (task_id t)) t)" and "m_id m = task_id t"
  shows "dview (sv w') = put_task n t (dview (sv w))"
  using assms by (auto simp: dview_def put_task_def decode_task_def fun_eq_iff)

lemma insert_row_wp:
  assumes "0 \<le> priority t" and "tasks (dview (sv w)) (task_id t) = None"
    and w3: "sv w3 = sv w" "qv w3 = qv w"
    and cu: "created_at t = None \<or> created_at t = Some c" "updated_at t = None \<or> updated_at t = Some u"
  shows "wp (sq_flush sq) (\<lambda>_ w'. (\<exists>n. dview (sv w') = put_task n t (dview (sv w))) \<and> qv w' = qv w)
    (\<lambda>e w'. pe e \<and> db_failed (\<lambda>w. dview (sv w)) qv w w') (sq_add_task sq (task_model c u t) w3)"
proof (rule wp_mono [OF sql_add_task])
  fix x w4 assume w4: "sv w4 = (sv w3)\<lparr>trows := (trows (sv w3))(m_id (task_model c u t) \<mapsto> task_model c u t)\<rparr> \<and>
    qv w4 = qv w3"
  have "dview (sv w4) = put_task (c, u) t (dview (sv w))"
  proof (rule dview_put [of _ _ "task_model c u t"])
    show "to_domain_task (task_model c u t) = Inr (stored (c, u) (tasks (dview (sv w)) (task_id t)) t)"
      unfolding to_domain_task_model [OF assms(1)] assms(2) stored_def Let_def using cu by auto
  qed (simp_all add: w4 w3)
  then show "(\<exists>n. dview (sv w4) = put_task n t (dview (sv w))) \<and> qv w4 = qv w" using w4 w3 by auto
qed (use w3 in \<open>auto intro: failed\<close>)

lemma update_row_wp:
  assumes "0 \<le> priority t" and m: "trows (sv w) (task_id t) = Some m"
    and w3: "sv w3 = sv w" "qv w3 = qv w" and u: "updated_at t = None \<or> updated_at t = Some u"
  shows "wp (sq_flush sq) (\<lambda>_ w'. (\<exists>n. dview (sv w') = put_task n t (dview (sv w))) \<and> qv w' = qv w)
    (\<lambda>e w'. pe e \<and> db_failed (\<lambda>w. dview (sv w)) qv w w') (sq_set_task sq (assign_task u t m) w3)"
proof -
  obtain t' where t': "m_id m = task_id t" "to_domain_task m = Inr t'" using sql_rows m by blast
  then have some: "tasks (dview (sv w)) (task_id t) = Some t'" using m by (simp add: dview_tasks_Some)
  show ?thesis
  proof (rule wp_mono [OF sql_set_task])
    let ?m = "assign_task u t m"
    fix x w4 assume w4: "sv w4 = (sv w3)\<lparr>trows := (trows (sv w3))(m_id ?m \<mapsto> ?m)\<rparr> \<and> qv w4 = qv w3"
    have "dview (sv w4) = put_task (u, u) t (dview (sv w))"
    proof (rule dview_put [of _ _ ?m])
      show "to_domain_task ?m = Inr (stored (u, u) (tasks (dview (sv w)) (task_id t)) t)"
        unfolding to_domain_assign_task [OF assms(1) t'(1)] some stored_def Let_def
        using u to_domain_task_fields [OF t'(2)] by auto
    qed (simp_all add: w4 w3 t'(1))
    then show "(\<exists>n. dview (sv w4) = put_task n t (dview (sv w))) \<and> qv w4 = qv w" using w4 w3 by auto
  qed (use w3 in \<open>auto intro: failed\<close>)
qed

lemma save_contract:
  assumes "0 \<le> priority t"
  shows "contract (repo_save sq rt t)
     (\<lambda>w r w'. r = t \<and> (\<exists>n. dview (sv w') = put_task n t (dview (sv w))) \<and> qv w' = qv w)
     (\<lambda>w e w'. pe e \<and> db_failed (\<lambda>w. dview (sv w)) qv w w')"
  (is "contract _ ?S ?F")
proof (rule contractI, unfold repo_save_def wp_andThen wp_ret simp_thms, rule contract_wp [OF sql_get_task])
  fix w r w1
  assume r: "r = trows (sv w) (task_id t) \<and> keeps sv qv w w1"
  then have w1: "sv w1 = sv w" "qv w1 = qv w" by (simp_all add: keeps_def)
  show "wp (case r of
      None \<Rightarrow> andThen (to_model_task rt t) (\<lambda>m. stage (sq_add_task sq m))
    | Some m \<Rightarrow> andThen (or_now rt (updated_at t)) (\<lambda>u. stage (sq_set_task sq (assign_task u t m))))
    (\<lambda>_. wp (sq_flush sq) (\<lambda>_ w'. (\<exists>n. dview (sv w') = put_task n t (dview (sv w))) \<and> qv w' = qv w) (?F w)) (?F w) w1"
  proof (cases r)
    case None
    then have none: "tasks (dview (sv w)) (task_id t) = None" using r by (simp add: dview_def)
    show ?thesis
      unfolding None option.case to_model_task_def wp_andThen wp_ret wp_stage
      by (rule or_now_rule, rule or_now_rule, rule insert_row_wp [OF assms none]) (use w1 in simp_all)
  next
    case (Some m)
    then have m: "trows (sv w) (task_id t) = Some m" using r by simp
    show ?thesis
      unfolding Some option.case wp_andThen wp_stage
      by (rule or_now_rule, rule update_row_wp [OF assms m]) (use w1 in simp_all)
  qed
next
  fix w e w' assume "pe e \<and> sql_failed sv qv w w'" then show "?F w e w'" by (simp add: sql_failed_db)
qed

lemma append_contract:
  "contract (event_append sq rt i ty fs ts msg md)
     (\<lambda>w r w'. dview (sv w') = put_event r (dview (sv w)) \<and> qv w' = qv w \<and>
        ev_task_id r = i \<and> event_type r = ty \<and> from_status r = fs \<and> to_status r = ts \<and>
        ev_message r = msg \<and> ev_metadata r = (case md of None \<Rightarrow> [] | Some m \<Rightarrow> m))
     (\<lambda>w e w'. pe e \<and> db_failed (\<lambda>w. dview (sv w)) qv w w')"
  (is "contract _ ?S ?F")
proof (rule contractI, unfold event_append_def wp_simps, rule uuid_rule)
  fix w u w1
  assume w1: "sv w1 = sv w" "qv w1 = qv w"
  let ?e = "event_model u i ty fs ts msg md"
  show "wp (sq_flush sq) (\<lambda>_. wp (sq_event_created_at sq u) (\<lambda>created. ?S w
      \<lparr>ev_id = u, ev_task_id = i, event_type = ty, from_status = fs, to_status = ts,
        ev_message = msg, ev_metadata = (case md of None \<Rightarrow> [] | Some m \<Rightarrow> m),
        ev_created_at = created\<rparr>) (?F w)) (?F w) (sq_add_event sq (?e 0) w1)"
  proof (rule wp_mono [OF sql_add_event])
    fix x w2
    assume w2: "(\<exists>created. sv w2 = (sv w1)\<lparr>erows := erows (sv w1) @ [(?e 0)\<lparr>em_created_at := created\<rparr>]\<rparr>) \<and>
      qv w2 = qv w1"
    then obtain c where c: "sv w2 = (sv w)\<lparr>erows := erows (sv w) @ [?e c]\<rparr>" using w1 by auto
    show "wp (sq_event_created_at sq u) (\<lambda>created. ?S w
      \<lparr>ev_id = u, ev_task_id = i, event_type = ty, from_status = fs, to_status = ts,
        ev_message = msg, ev_metadata = (case md of None \<Rightarrow> [] | Some m \<Rightarrow> m),
        ev_created_at = created\<rparr>) (?F w) w2"
    proof (rule contract_wp [OF sql_event_created_at])
      fix r w3
      assume w3: "keeps sv qv w2 w3 \<and> (\<forall>es e. erows (sv w2) = es @ [e] \<longrightarrow> em_id e = u \<longrightarrow> r = em_created_at e)"
      then have "r = em_created_at (?e c)" using c by simp
      then have "r = c" by simp
      then show "?S w \<lparr>ev_id = u, ev_task_id = i, event_type = ty, from_status = fs, to_status = ts,
          ev_message = msg, ev_metadata = (case md of None \<Rightarrow> [] | Some m \<Rightarrow> m), ev_created_at = r\<rparr> w3"
        using w1 w2 w3 c
        by (simp add: keeps_def dview_def put_event_def decode_events_append to_domain_event_model)
    next
      fix e w3 assume "pe e \<and> sql_failed sv qv w2 w3"
      then show "?F w e w3" using w1 w2 c
        by (intro conjI sql_failed_db) (simp_all add: sql_failed_def)
    qed
  qed (use w1 in \<open>auto intro: failed\<close>)
qed

end

sublocale sql_store \<subseteq> worker_store "SqlAlchemyWorkerRepository sq rt" "\<lambda>w. dview (sv w)" qv pe
proof (unfold_locales, goal_cases)
  case (1 y)
  have "contract (worker_save sq y) (\<lambda>w r w'. r = y \<and> keeps (\<lambda>w. dview (sv w)) qv w w')
      (\<lambda>w e w'. pe e \<and> db_failed (\<lambda>w. dview (sv w)) qv w w')"
    unfolding worker_save_def
  proof (rule contractI, simp only: wp_simps, rule contract_wp [OF sql_get_worker])
    fix w r w1 assume w1: "keeps sv qv w w1"
    have step: "wp (sq_flush sq) (\<lambda>_ w'. y = y \<and> keeps (\<lambda>w. dview (sv w)) qv w w')
        (\<lambda>e w'. pe e \<and> db_failed (\<lambda>w. dview (sv w)) qv w w') w2"
      if "wp (sq_flush sq) (\<lambda>_ w'. sv w' = sv w1 \<and> qv w' = qv w1)
        (\<lambda>e w'. pe e \<and> sql_failed sv qv w1 w') w2" for w2
      using that by (rule wp_mono) (use w1 in \<open>auto simp: keeps_def intro: failed\<close>)
    show "wp (sq_flush sq) (\<lambda>_ w'. y = y \<and> keeps (\<lambda>w. dview (sv w)) qv w w')
        (\<lambda>e w'. pe e \<and> db_failed (\<lambda>w. dview (sv w)) qv w w')
        ((case r of
           None \<Rightarrow> sq_add_worker sq \<lparr>wm_id = w_id y, wm_hostname = hostname y,
             wm_status = WorkerStatus_value (w_status y), wm_registered_at = registered_at y,
             wm_last_seen_at = last_seen_at y, wm_metadata = w_metadata y\<rparr>
         | Some m \<Rightarrow> sq_set_worker sq (m\<lparr>wm_hostname := hostname y,
             wm_status := WorkerStatus_value (w_status y), wm_last_seen_at := last_seen_at y,
             wm_metadata := w_metadata y\<rparr>)) w1)"
      by (rule step) (auto simp: sql_add_worker sql_set_worker split: option.split)
  qed (auto intro: sql_failed_db)
  then show ?case by (simp add: SqlAlchemyWorkerRepository_def)
next
  case (2 u)
  have "contract (worker_get_by_id sq u) (\<lambda>w r w'. keeps (\<lambda>w. dview (sv w)) qv w w')
      (\<lambda>w e w'. unreadable pe e \<and> db_failed (\<lambda>w. dview (sv w)) qv w w')"
    unfolding worker_get_by_id_def
    by (rule contractI, simp only: wp_simps, rule contract_wp [OF sql_get_worker])
      (auto simp: keeps_def db_failed_def sql_failed_def dview_def to_domain_worker_def WorkerStatus_of_def invalid_value_def
         split: option.split sum.split)
  then show ?case by (simp add: SqlAlchemyWorkerRepository_def)
qed

sublocale sql_store \<subseteq>
  task_store "SqlAlchemyTaskRepository sq rt" "SqlAlchemyTaskEventRepository sq rt" "\<lambda>w. dview (sv w)" qv pe
proof (unfold_locales, goal_cases)
  case (1 t)
  from save_contract [OF this] show ?case by (simp add: SqlAlchemyTaskRepository_def)
next
  case (2 i)
  show ?case by (simp add: SqlAlchemyTaskRepository_def get_contract)
next
  case (3 k)
  show ?case by (simp add: SqlAlchemyTaskRepository_def key_contract)
next
  case (4 q)
  show ?case by (simp add: SqlAlchemyTaskRepository_def list_contract)
next
  case (5 i ty fs ts msg md)
  show ?case by (simp add: SqlAlchemyTaskEventRepository_def append_contract)
next
  case (6 w i t)
  then show ?case using sql_rows by (auto simp: dview_tasks_Some dest: to_domain_task_fields)
qed

end
