(* ===== verification/Redis_Backend.thy ===== *)
theory Redis_Backend
  imports Ports
begin

text \<open>
  \<^verbatim>\<open>infrastructure/redis/queue_backend.py\<close>: the Redis queue backend, operation by
  operation, over a Redis client that is a parameter. The locale \<open>redis_service\<close> states what
  Redis documents of the commands used; under it the backend meets the contract of the
  \<^verbatim>\<open>QueueBackend\<close> port. A score (\<^verbatim>\<open>datetime.timestamp()\<close>) is carried as the number of
  microseconds, of which the float is an increasing function.
\<close>

section \<open>The client\<close>

record redis_data =
  rlists :: "string \<Rightarrow> string list"
  zsets :: "string \<Rightarrow> string \<Rightarrow> int option"
  rsets :: "string \<Rightarrow> string set"

text \<open>
  The \<^verbatim>\<open>rs_\<close> fields are the commands as a Lua script sees them inside the server, where
  \<^verbatim>\<open>rc_script\<close> runs a script as one atomic step.
\<close>

record 'w RedisClient =
  rc_lpush :: "string \<Rightarrow> string \<Rightarrow> ('w, int) prog"
  rc_rpop :: "string \<Rightarrow> ('w, string option) prog"
  rc_brpop :: "string list \<Rightarrow> int \<Rightarrow> ('w, (string \<times> string) option) prog"
  rc_llen :: "string \<Rightarrow> ('w, int) prog"
  rc_zadd :: "string \<Rightarrow> string \<Rightarrow> int \<Rightarrow> ('w, int) prog"
  rc_zrem :: "string \<Rightarrow> string \<Rightarrow> ('w, int) prog"
  rc_zrangebyscore :: "string \<Rightarrow> int \<Rightarrow> int \<Rightarrow> int \<Rightarrow> int \<Rightarrow> ('w, string list) prog"
  rc_zcard :: "string \<Rightarrow> ('w, int) prog"
  rc_sadd :: "string \<Rightarrow> string \<Rightarrow> ('w, int) prog"
  rc_srem :: "string \<Rightarrow> string \<Rightarrow> ('w, int) prog"
  rc_sismember :: "string \<Rightarrow> string \<Rightarrow> ('w, bool) prog"
  rc_hset :: "string \<Rightarrow> (string \<times> string) list \<Rightarrow> ('w, int) prog"
  rc_expire :: "string \<Rightarrow> int \<Rightarrow> ('w, bool) prog"
  rc_delete :: "string \<Rightarrow> ('w, int) prog"
  rc_scan :: "int \<Rightarrow> string \<Rightarrow> int \<Rightarrow> ('w, int \<times> string list) prog"
  rc_set_nx_ex :: "string \<Rightarrow> string \<Rightarrow> int \<Rightarrow> ('w, bool) prog"
  rc_get :: "string \<Rightarrow> ('w, string option) prog"
  rc_close :: "('w, unit) prog"
  rc_script :: "(redis_data \<Rightarrow> string list \<times> redis_data) \<Rightarrow> ('w, string list) prog"
  rs_zrangebyscore :: "redis_data \<Rightarrow> string \<Rightarrow> int \<Rightarrow> int \<Rightarrow> int \<Rightarrow> int \<Rightarrow> string list"
  rs_zrem :: "string \<Rightarrow> string \<Rightarrow> redis_data \<Rightarrow> redis_data"

section \<open>Keys\<close>

definition READY_PREFIX :: string where "READY_PREFIX = ''queue:ready:''"
definition SCHEDULED_KEY :: string where "SCHEDULED_KEY = ''queue:scheduled''"
definition INFLIGHT_PREFIX :: string where "INFLIGHT_PREFIX = ''queue:inflight:''"
definition DLQ_KEY :: string where "DLQ_KEY = ''queue:dlq''"
definition CANCEL_KEY :: string where "CANCEL_KEY = ''cancel:pending''"
definition WORKER_PREFIX :: string where "WORKER_PREFIX = ''workers:''"
definition LEADER_LOCK_KEY :: string where "LEADER_LOCK_KEY = ''lock:scheduler''"

lemmas key_defs = READY_PREFIX_def SCHEDULED_KEY_def INFLIGHT_PREFIX_def DLQ_KEY_def
  CANCEL_KEY_def WORKER_PREFIX_def LEADER_LOCK_KEY_def

definition ready_key :: "int \<Rightarrow> string" where
  "ready_key p = READY_PREFIX @ show_int p"

definition ready_keys :: "Settings \<Rightarrow> string list" where
  "ready_keys st = map ready_key [0..priority_levels st - 1]"

definition inflight_key :: "TaskId \<Rightarrow> string" where
  "inflight_key i = INFLIGHT_PREFIX @ TaskId_str i"

section \<open>The operations\<close>

definition unit_prog :: "('w, 'a) prog \<Rightarrow> ('w, unit) prog" where
  "unit_prog m = andThen m (\<lambda>_. ret ())"

definition rq_enqueue_ready :: "'w RedisClient \<Rightarrow> Settings \<Rightarrow> TaskId \<Rightarrow> int \<Rightarrow> ('w, unit) prog" where
  "rq_enqueue_ready rc st i p =
     (let clamped = min p (priority_levels st - 1)
      in unit_prog (rc_lpush rc (ready_key clamped) (TaskId_str i)))"

definition rq_enqueue_scheduled :: "'w RedisClient \<Rightarrow> TaskId \<Rightarrow> int \<Rightarrow> ('w, unit) prog" where
  "rq_enqueue_scheduled rc i run_at = unit_prog (rc_zadd rc SCHEDULED_KEY (TaskId_str i) run_at)"

definition rq_dequeue_ready :: "'w RedisClient \<Rightarrow> Settings \<Rightarrow> int \<Rightarrow> ('w, TaskId option) prog" where
  "rq_dequeue_ready rc st timeout =
     andThen (rc_brpop rc (ready_keys st) timeout) (\<lambda>result.
       case result of
         None \<Rightarrow> ret None
       | Some (_, task_id_str) \<Rightarrow>
           andThen (from_sum (TaskId_from_string task_id_str)) (\<lambda>i. ret (Some i)))"

definition rq_remove_scheduled :: "'w RedisClient \<Rightarrow> TaskId \<Rightarrow> ('w, unit) prog" where
  "rq_remove_scheduled rc i = unit_prog (rc_zrem rc SCHEDULED_KEY (TaskId_str i))"

text \<open>\<^verbatim>\<open>[TaskId.from_string(item) for item in raw]\<close>: the first bad item raises.\<close>

fun parse_ids :: "string list \<Rightarrow> exn + TaskId list" where
  "parse_ids [] = Inr []"
| "parse_ids (s # ss) =
     (case TaskId_from_string s of
        Inl e \<Rightarrow> Inl e
      | Inr i \<Rightarrow> (case parse_ids ss of Inl e \<Rightarrow> Inl e | Inr is \<Rightarrow> Inr (i # is)))"

definition rq_get_due_scheduled :: "'w RedisClient \<Rightarrow> 'w runtime \<Rightarrow> int \<Rightarrow> ('w, TaskId list) prog" where
  "rq_get_due_scheduled rc rt limit =
     andThen (now rt) (\<lambda>n.
     andThen (rc_zrangebyscore rc SCHEDULED_KEY 0 n 0 limit) (\<lambda>raw. from_sum (parse_ids raw)))"

text \<open>The Lua script: read the due members, remove each, return them.\<close>

fun lua_zrem_all :: "'w RedisClient \<Rightarrow> string \<Rightarrow> string list \<Rightarrow> redis_data \<Rightarrow> redis_data" where
  "lua_zrem_all rc key [] d = d"
| "lua_zrem_all rc key (m # ms) d = lua_zrem_all rc key ms (rs_zrem rc key m d)"

definition claim_due_script ::
  "'w RedisClient \<Rightarrow> string \<Rightarrow> int \<Rightarrow> int \<Rightarrow> redis_data \<Rightarrow> string list \<times> redis_data" where
  "claim_due_script rc key n limit d =
     (let members = rs_zrangebyscore rc d key 0 n 0 limit
      in (members, lua_zrem_all rc key members d))"

definition rq_claim_due_scheduled :: "'w RedisClient \<Rightarrow> 'w runtime \<Rightarrow> int \<Rightarrow> ('w, TaskId list) prog" where
  "rq_claim_due_scheduled rc rt limit =
     andThen (now rt) (\<lambda>n.
     andThen (rc_script rc (claim_due_script rc SCHEDULED_KEY n limit)) (\<lambda>raw.
       if raw = [] then ret [] else from_sum (parse_ids raw)))"

definition rq_mark_inflight ::
  "'w RedisClient \<Rightarrow> 'w runtime \<Rightarrow> TaskId \<Rightarrow> string \<Rightarrow> int \<Rightarrow> ('w, unit) prog" where
  "rq_mark_inflight rc rt i wid ttl =
     andThen (now rt) (\<lambda>n.
     andThen (rc_hset rc (inflight_key i) [(''worker_id'', wid), (''started_at'', isoformat n)]) (\<lambda>_.
     unit_prog (rc_expire rc (inflight_key i) ttl)))"

definition rq_clear_inflight :: "'w RedisClient \<Rightarrow> TaskId \<Rightarrow> ('w, unit) prog" where
  "rq_clear_inflight rc i = unit_prog (rc_delete rc (inflight_key i))"

definition rq_enqueue_dlq :: "'w RedisClient \<Rightarrow> TaskId \<Rightarrow> ('w, unit) prog" where
  "rq_enqueue_dlq rc i = unit_prog (rc_lpush rc DLQ_KEY (TaskId_str i))"

definition rq_dequeue_dlq :: "'w RedisClient \<Rightarrow> ('w, TaskId option) prog" where
  "rq_dequeue_dlq rc =
     andThen (rc_rpop rc DLQ_KEY) (\<lambda>result.
       case result of
         None \<Rightarrow> ret None
       | Some s \<Rightarrow> if s = [] then ret None
                   else andThen (from_sum (TaskId_from_string s)) (\<lambda>i. ret (Some i)))"

definition rq_mark_cancelled :: "'w RedisClient \<Rightarrow> TaskId \<Rightarrow> ('w, unit) prog" where
  "rq_mark_cancelled rc i = unit_prog (rc_sadd rc CANCEL_KEY (TaskId_str i))"

definition rq_is_cancelled :: "'w RedisClient \<Rightarrow> TaskId \<Rightarrow> ('w, bool) prog" where
  "rq_is_cancelled rc i = rc_sismember rc CANCEL_KEY (TaskId_str i)"

definition rq_clear_cancelled :: "'w RedisClient \<Rightarrow> TaskId \<Rightarrow> ('w, unit) prog" where
  "rq_clear_cancelled rc i = unit_prog (rc_srem rc CANCEL_KEY (TaskId_str i))"

definition rq_queue_depths :: "'w RedisClient \<Rightarrow> Settings \<Rightarrow> ('w, (string \<times> int) list) prog" where
  "rq_queue_depths rc st =
     andThen (for_each [0..priority_levels st - 1]
       (\<lambda>p depths. andThen (rc_llen rc (ready_key p)) (\<lambda>n. ret (depths @ [(''ready_'' @ show_int p, n)])))
       []) (\<lambda>depths.
     andThen (rc_zcard rc SCHEDULED_KEY) (\<lambda>s.
     andThen (rc_llen rc DLQ_KEY) (\<lambda>d.
     ret (depths @ [(''scheduled'', s), (''dlq'', d)]))))"

text \<open>\<^verbatim>\<open>{"last_seen": ..., **metadata}\<close>: a metadata entry wins over the first.\<close>

definition heartbeat_mapping :: "string \<Rightarrow> (string \<times> string) list \<Rightarrow> (string \<times> string) list" where
  "heartbeat_mapping seen md =
     (case map_of md ''last_seen'' of
        None \<Rightarrow> (''last_seen'', seen) # md
      | Some v \<Rightarrow> (''last_seen'', v) # filter (\<lambda>kv. fst kv \<noteq> ''last_seen'') md)"

definition rq_set_worker_heartbeat ::
  "'w RedisClient \<Rightarrow> 'w runtime \<Rightarrow> Settings \<Rightarrow> string \<Rightarrow> (string \<times> string) list \<Rightarrow> ('w, unit) prog" where
  "rq_set_worker_heartbeat rc rt st wid md =
     (let key = WORKER_PREFIX @ wid in
      andThen (now rt) (\<lambda>n.
      andThen (rc_hset rc key (heartbeat_mapping (isoformat n) md)) (\<lambda>_.
      unit_prog (rc_expire rc key (worker_heartbeat_interval st * 3)))))"

text \<open>
  The cursor loop of \<^verbatim>\<open>_scan_keys\<close>, which ends when the server returns cursor 0; \<open>fuel\<close>
  bounds the number of \<^verbatim>\<open>SCAN\<close> calls, and \<open>None\<close> says that it ran out.
\<close>

fun scan_loop :: "'w RedisClient \<Rightarrow> string \<Rightarrow> nat \<Rightarrow> int \<Rightarrow> string list \<Rightarrow> ('w, string list option) prog" where
  "scan_loop rc pattern 0 cursor keys = ret None"
| "scan_loop rc pattern (Suc fuel) cursor keys =
     andThen (rc_scan rc cursor pattern 100) (\<lambda>r. case r of (cursor', batch) \<Rightarrow>
       if cursor' = 0 then ret (Some (keys @ batch))
       else scan_loop rc pattern fuel cursor' (keys @ batch))"

text \<open>Scanning with at most \<open>fuel\<close> calls; a loop that goes on is cut off by an error.\<close>

definition scan_keys :: "'w RedisClient \<Rightarrow> nat \<Rightarrow> string \<Rightarrow> ('w, string list) prog" where
  "scan_keys rc fuel pattern =
     andThen (scan_loop rc pattern fuel 0 []) (\<lambda>r.
       case r of None \<Rightarrow> throw (LibraryError ''scan did not end'') | Some keys \<Rightarrow> ret keys)"

definition rq_get_active_workers :: "'w RedisClient \<Rightarrow> nat \<Rightarrow> ('w, string list) prog" where
  "rq_get_active_workers rc fuel =
     andThen (scan_keys rc fuel (WORKER_PREFIX @ ''*'')) (\<lambda>keys.
       ret (map (replace_all WORKER_PREFIX []) keys))"

definition rq_get_inflight_task_ids :: "'w RedisClient \<Rightarrow> nat \<Rightarrow> ('w, TaskId list) prog" where
  "rq_get_inflight_task_ids rc fuel =
     andThen (scan_keys rc fuel (INFLIGHT_PREFIX @ ''*'')) (\<lambda>keys.
       from_sum (parse_ids (map (replace_all INFLIGHT_PREFIX []) keys)))"

text \<open>\<^verbatim>\<open>RedisQueueBackend(client, settings)\<close>.\<close>

definition RedisQueueBackend ::
  "'w RedisClient \<Rightarrow> 'w runtime \<Rightarrow> Settings \<Rightarrow> nat \<Rightarrow> 'w QueueBackend" where
  "RedisQueueBackend rc rt st fuel =
     \<lparr>qb_enqueue_ready = rq_enqueue_ready rc st,
      qb_enqueue_scheduled = rq_enqueue_scheduled rc,
      qb_dequeue_ready = rq_dequeue_ready rc st,
      qb_remove_scheduled = rq_remove_scheduled rc,
      qb_get_due_scheduled = rq_get_due_scheduled rc rt,
      qb_mark_inflight = rq_mark_inflight rc rt,
      qb_clear_inflight = rq_clear_inflight rc,
      qb_enqueue_dlq = rq_enqueue_dlq rc,
      qb_dequeue_dlq = rq_dequeue_dlq rc,
      qb_mark_cancelled = rq_mark_cancelled rc,
      qb_is_cancelled = rq_is_cancelled rc,
      qb_clear_cancelled = rq_clear_cancelled rc,
      qb_queue_depths = rq_queue_depths rc st,
      qb_set_worker_heartbeat = rq_set_worker_heartbeat rc rt st,
      qb_get_active_workers = rq_get_active_workers rc fuel,
      qb_get_inflight_task_ids = rq_get_inflight_task_ids rc fuel,
      qb_claim_due_scheduled = rq_claim_due_scheduled rc rt\<rparr>"

section \<open>The leader lock\<close>

definition lock_acquire :: "'w RedisClient \<Rightarrow> string \<Rightarrow> int \<Rightarrow> ('w, bool) prog" where
  "lock_acquire rc owner_id ttl = rc_set_nx_ex rc LEADER_LOCK_KEY owner_id ttl"

definition lock_renew :: "'w RedisClient \<Rightarrow> string \<Rightarrow> int \<Rightarrow> ('w, bool) prog" where
  "lock_renew rc owner_id ttl =
     andThen (rc_get rc LEADER_LOCK_KEY) (\<lambda>current.
       case current of
         None \<Rightarrow> ret False
       | Some owner \<Rightarrow>
           if owner \<noteq> owner_id then ret False
           else andThen (rc_expire rc LEADER_LOCK_KEY ttl) (\<lambda>_. ret True))"

definition lock_release :: "'w RedisClient \<Rightarrow> string \<Rightarrow> ('w, unit) prog" where
  "lock_release rc owner_id =
     andThen (rc_get rc LEADER_LOCK_KEY) (\<lambda>current.
       case current of
         None \<Rightarrow> ret ()
       | Some owner \<Rightarrow>
           if owner \<noteq> [] \<and> owner = owner_id then unit_prog (rc_delete rc LEADER_LOCK_KEY)
           else ret ())"

definition RedisLeaderLock :: "'w RedisClient \<Rightarrow> string \<Rightarrow> 'w LeaderLock" where
  "RedisLeaderLock rc owner_id =
     \<lparr>ll_acquire = lock_acquire rc owner_id, ll_renew = lock_renew rc owner_id,
      ll_release = lock_release rc owner_id\<rparr>"

section \<open>What Redis documents\<close>

text \<open>
  A command takes effect and returns, or the call raises and the command may or may not have
  taken effect (a connection lost before or after the server executed it). No command touches
  the database.
\<close>

definition redis_effect ::
  "('w \<Rightarrow> 'd) \<Rightarrow> ('w \<Rightarrow> redis_data) \<Rightarrow> (exn \<Rightarrow> bool) \<Rightarrow> ('w, 'a) prog \<Rightarrow> (redis_data \<Rightarrow> redis_data) \<Rightarrow>
   (redis_data \<Rightarrow> 'a \<Rightarrow> bool) \<Rightarrow> bool" where
  "redis_effect dbv rv pe m f R \<longleftrightarrow>
     contract m (\<lambda>w r w'. dbv w' = dbv w \<and> rv w' = f (rv w) \<and> R (rv w) r)
       (\<lambda>w e w'. pe e \<and> dbv w' = dbv w \<and> (rv w' = rv w \<or> rv w' = f (rv w)))"

definition d_push :: "string \<Rightarrow> string \<Rightarrow> redis_data \<Rightarrow> redis_data" where
  "d_push k v d = d\<lparr>rlists := (rlists d)(k := v # rlists d k)\<rparr>"

definition d_pop :: "string \<Rightarrow> redis_data \<Rightarrow> redis_data" where
  "d_pop k d = d\<lparr>rlists := (rlists d)(k := butlast (rlists d k))\<rparr>"

text \<open>The first key of \<^verbatim>\<open>BRPOP\<close>'s list with a non-empty list under it.\<close>

fun first_nonempty :: "string list \<Rightarrow> redis_data \<Rightarrow> string option" where
  "first_nonempty [] d = None"
| "first_nonempty (k # ks) d = (if rlists d k = [] then first_nonempty ks d else Some k)"

definition d_brpop :: "string list \<Rightarrow> redis_data \<Rightarrow> redis_data" where
  "d_brpop ks d = (case first_nonempty ks d of None \<Rightarrow> d | Some k \<Rightarrow> d_pop k d)"

definition brpop_result :: "string list \<Rightarrow> redis_data \<Rightarrow> (string \<times> string) option" where
  "brpop_result ks d =
     (case first_nonempty ks d of None \<Rightarrow> None | Some k \<Rightarrow> Some (k, last (rlists d k)))"

definition d_zset :: "string \<Rightarrow> string \<Rightarrow> int option \<Rightarrow> redis_data \<Rightarrow> redis_data" where
  "d_zset k m s d = d\<lparr>zsets := (zsets d)(k := (zsets d k)(m := s))\<rparr>"

definition d_set :: "string \<Rightarrow> (string set \<Rightarrow> string set) \<Rightarrow> redis_data \<Rightarrow> redis_data" where
  "d_set k f d = d\<lparr>rsets := (rsets d)(k := f (rsets d k))\<rparr>"

definition d_delete :: "string \<Rightarrow> redis_data \<Rightarrow> redis_data" where
  "d_delete k d = d\<lparr>rlists := (rlists d)(k := []), zsets := (zsets d)(k := Map.empty),
     rsets := (rsets d)(k := {})\<rparr>"

text \<open>Members with a score in a range, in increasing order of score, offset and count applied.\<close>

definition in_range :: "redis_data \<Rightarrow> string \<Rightarrow> int \<Rightarrow> int \<Rightarrow> string \<Rightarrow> bool" where
  "in_range d k lo hi m = (case zsets d k m of None \<Rightarrow> False | Some s \<Rightarrow> lo \<le> s \<and> s \<le> hi)"

definition zrange_result :: "redis_data \<Rightarrow> string \<Rightarrow> int \<Rightarrow> int \<Rightarrow> int \<Rightarrow> int \<Rightarrow> string list \<Rightarrow> bool" where
  "zrange_result d k lo hi off cnt r \<longleftrightarrow>
     (\<exists>xs. distinct xs \<and> set xs = {m. in_range d k lo hi m} \<and>
        sorted_wrt (\<lambda>a b. the (zsets d k a) \<le> the (zsets d k b)) xs \<and>
        r = (if cnt < 0 then drop (nat off) xs else take (nat cnt) (drop (nat off) xs)))"

text \<open>A key that may be given a time to live without touching a queue.\<close>

definition volatile_key :: "string \<Rightarrow> bool" where
  "volatile_key k \<longleftrightarrow>
     (\<forall>l. k \<noteq> ready_key l) \<and> k \<noteq> SCHEDULED_KEY \<and> k \<noteq> DLQ_KEY \<and> k \<noteq> CANCEL_KEY"

locale redis_service =
  fixes rc :: "'w RedisClient" and dbv :: "'w \<Rightarrow> 'd" and rv :: "'w \<Rightarrow> redis_data" and pe :: "exn \<Rightarrow> bool"
  assumes lpush: "redis_effect dbv rv pe (rc_lpush rc k v) (d_push k v) (\<lambda>d r. True)"
    and rpop: "redis_effect dbv rv pe (rc_rpop rc k) (d_pop k)
      (\<lambda>d r. r = (if rlists d k = [] then None else Some (last (rlists d k))))"
    and brpop: "redis_effect dbv rv pe (rc_brpop rc ks tmo) (d_brpop ks) (\<lambda>d r. r = brpop_result ks d)"
    and llen: "redis_effect dbv rv pe (rc_llen rc k) (\<lambda>d. d) (\<lambda>d r. r = int (length (rlists d k)))"
    and zadd: "redis_effect dbv rv pe (rc_zadd rc SCHEDULED_KEY (TaskId_str i) s)
      (d_zset SCHEDULED_KEY (TaskId_str i) (Some s)) (\<lambda>d r. True)"
    and zrem: "redis_effect dbv rv pe (rc_zrem rc k m) (d_zset k m None) (\<lambda>d r. True)"
    and zrangebyscore: "redis_effect dbv rv pe (rc_zrangebyscore rc k lo hi off cnt) (\<lambda>d. d)
      (\<lambda>d r. zrange_result d k lo hi off cnt r)"
    and zcard: "redis_effect dbv rv pe (rc_zcard rc k) (\<lambda>d. d) (\<lambda>d r. r = int (card (dom (zsets d k))))"
    and sadd: "redis_effect dbv rv pe (rc_sadd rc k m) (d_set k (insert m)) (\<lambda>d r. True)"
    and srem: "redis_effect dbv rv pe (rc_srem rc k m) (d_set k (\<lambda>x. x - {m})) (\<lambda>d r. True)"
    and sismember: "redis_effect dbv rv pe (rc_sismember rc k m) (\<lambda>d. d) (\<lambda>d r. r = (m \<in> rsets d k))"
    and hset: "redis_effect dbv rv pe (rc_hset rc k fs) (\<lambda>d. d) (\<lambda>d r. True)"
    and expire: "volatile_key k \<Longrightarrow> redis_effect dbv rv pe (rc_expire rc k ttl) (\<lambda>d. d) (\<lambda>d r. True)"
    and delete: "redis_effect dbv rv pe (rc_delete rc k) (d_delete k) (\<lambda>d r. True)"
    and scan: "redis_effect dbv rv pe (rc_scan rc cursor pat cnt) (\<lambda>d. d) (\<lambda>d r. True)"
    and script: "redis_effect dbv rv pe (rc_script rc (claim_due_script rc k n cnt))
      (\<lambda>d. snd (claim_due_script rc k n cnt d)) (\<lambda>d r. r = fst (claim_due_script rc k n cnt d))"
    and server_zrem: "rs_zrem rc k m d = d_zset k m None d"
    and server_zrangebyscore: "finite (dom (zsets d k)) \<Longrightarrow>
      zrange_result d k lo hi off cnt (rs_zrangebyscore rc d k lo hi off cnt)"
    and zset_finite: "finite (dom (zsets (rv w) k))"
    and scheduled_owned: "m \<in> dom (zsets (rv w) SCHEDULED_KEY) \<Longrightarrow> \<exists>i. m = TaskId_str i"

text \<open>
  The commands that the leader lock uses, on the value \<open>lk\<close> under its key, while no other
  client acts and the time to live has not run out.
\<close>

locale lock_service =
  fixes rc :: "'w RedisClient" and lk :: "'w \<Rightarrow> string option" and pe :: "exn \<Rightarrow> bool"
  assumes lock_set: "contract (rc_set_nx_ex rc LEADER_LOCK_KEY v ttl)
      (\<lambda>w r w'. if lk w = None then r \<and> lk w' = Some v else \<not> r \<and> lk w' = lk w)
      (\<lambda>w e w'. pe e \<and> (lk w' = lk w \<or> lk w = None \<and> lk w' = Some v))"
    and lock_get: "contract (rc_get rc LEADER_LOCK_KEY) (\<lambda>w r w'. r = lk w \<and> lk w' = lk w)
      (\<lambda>w e w'. pe e \<and> lk w' = lk w)"
    and lock_expire: "contract (rc_expire rc LEADER_LOCK_KEY ttl) (\<lambda>w r w'. lk w' = lk w)
      (\<lambda>w e w'. pe e \<and> lk w' = lk w)"
    and lock_delete: "contract (rc_delete rc LEADER_LOCK_KEY) (\<lambda>w r w'. lk w' = None)
      (\<lambda>w e w'. pe e \<and> (lk w' = lk w \<or> lk w' = None))"

context lock_service
begin

lemma acquire_wp:
  "wp (lock_acquire rc owner ttl)
     (\<lambda>r w'. r = (lk w = None) \<and> lk w' = (if lk w = None then Some owner else lk w))
     (\<lambda>e w'. pe e \<and> (lk w' = lk w \<or> lk w = None \<and> lk w' = Some owner)) w"
  unfolding lock_acquire_def by (rule contract_wp [OF lock_set]) (auto split: if_splits)

lemma renew_wp:
  "wp (lock_renew rc owner ttl) (\<lambda>r w'. r = (lk w = Some owner) \<and> lk w' = lk w)
     (\<lambda>e w'. pe e \<and> lk w' = lk w) w"
  unfolding lock_renew_def wp_andThen
  by (rule contract_wp [OF lock_get])
    (auto simp: wp_simps split: option.split intro!: contract_wp [OF lock_expire])

lemma release_wp:
  assumes "owner \<noteq> []"
  shows "wp (lock_release rc owner)
     (\<lambda>_ w'. lk w' = (if lk w = Some owner then None else lk w))
     (\<lambda>e w'. pe e \<and> (lk w' = lk w \<or> lk w = Some owner \<and> lk w' = None)) w"
  unfolding lock_release_def wp_andThen
  by (rule contract_wp [OF lock_get])
    (auto simp: wp_simps assms unit_prog_def split: option.split intro!: contract_wp [OF lock_delete])

end

section \<open>The queue view of Redis data\<close>

text \<open>The identifiers among the members of a list, in order.\<close>

fun keep_ids :: "string list \<Rightarrow> TaskId list" where
  "keep_ids [] = []"
| "keep_ids (s # ss) =
     (case TaskId_from_string s of Inl e \<Rightarrow> keep_ids ss | Inr i \<Rightarrow> i # keep_ids ss)"

definition qview :: "redis_data \<Rightarrow> queue_view" where
  "qview d = \<lparr>ready = (\<lambda>l. keep_ids (rlists d (ready_key l))),
     scheduled = (\<lambda>i. zsets d SCHEDULED_KEY (TaskId_str i)),
     dlq = keep_ids (rlists d DLQ_KEY),
     cancelled = {i. TaskId_str i \<in> rsets d CANCEL_KEY}\<rparr>"

lemma keep_ids_append: "keep_ids (xs @ ys) = keep_ids xs @ keep_ids ys"
  by (induction xs) (auto split: sum.split)

lemma ready_key_inject [simp]: "ready_key l = ready_key l' \<longleftrightarrow> l = l'"
  by (simp add: ready_key_def)

text \<open>The key spaces do not meet.\<close>

lemma keys_distinct [simp]:
  "ready_key l \<noteq> DLQ_KEY" "DLQ_KEY \<noteq> ready_key l"
  "inflight_key i \<noteq> ready_key l" "inflight_key i \<noteq> DLQ_KEY"
  "inflight_key i \<noteq> SCHEDULED_KEY" "inflight_key i \<noteq> CANCEL_KEY"
  "ready_key l \<noteq> inflight_key i" "DLQ_KEY \<noteq> inflight_key i"
  "SCHEDULED_KEY \<noteq> inflight_key i" "CANCEL_KEY \<noteq> inflight_key i"
  "LEADER_LOCK_KEY \<noteq> ready_key l" "ready_key l \<noteq> LEADER_LOCK_KEY"
  "LEADER_LOCK_KEY \<noteq> DLQ_KEY" "LEADER_LOCK_KEY \<noteq> SCHEDULED_KEY" "LEADER_LOCK_KEY \<noteq> CANCEL_KEY"
  by (simp_all add: ready_key_def inflight_key_def key_defs)

lemma TaskId_str_inject [simp]: "TaskId_str i = TaskId_str j \<longleftrightarrow> i = j"
  by (simp add: TaskId_str_def)

lemma qview_push_ready: "qview (d_push (ready_key l) (TaskId_str i) d) =
    (qview d)\<lparr>ready := (ready (qview d))(l := i # ready (qview d) l)\<rparr>"
  by (auto simp: qview_def d_push_def)

lemma qview_push_dlq: "qview (d_push DLQ_KEY (TaskId_str i) d) = (qview d)\<lparr>dlq := i # dlq (qview d)\<rparr>"
  by (auto simp: qview_def d_push_def)

lemma qview_schedule: "qview (d_zset SCHEDULED_KEY (TaskId_str i) (Some s) d) =
    (qview d)\<lparr>scheduled := (scheduled (qview d))(i \<mapsto> s)\<rparr>"
  by (auto simp: qview_def d_zset_def)

lemma qview_unschedule: "qview (d_zset SCHEDULED_KEY (TaskId_str i) None d) = unschedule {i} (qview d)"
  by (auto simp: qview_def d_zset_def unschedule_def)

lemma qview_cancel: "qview (d_set CANCEL_KEY (insert (TaskId_str i)) d) =
    (qview d)\<lparr>cancelled := insert i (cancelled (qview d))\<rparr>"
  by (auto simp: qview_def d_set_def)

lemma qview_uncancel: "qview (d_set CANCEL_KEY (\<lambda>x. x - {TaskId_str i}) d) =
    (qview d)\<lparr>cancelled := cancelled (qview d) - {i}\<rparr>"
  by (auto simp: qview_def d_set_def)

lemma qview_delete_inflight: "qview (d_delete (inflight_key i) d) = qview d"
  by (auto simp: qview_def d_delete_def)

lemma volatile_inflight [simp]: "volatile_key (inflight_key i)"
  by (simp add: volatile_key_def)

lemma volatile_worker [simp]: "volatile_key (WORKER_PREFIX @ wid)"
  by (simp add: volatile_key_def ready_key_def key_defs)

text \<open>The first non-empty Redis list against the first non-empty level of the view.\<close>

lemma first_nonempty_pop:
  "(case first_nonempty (map ready_key ls) d of
      None \<Rightarrow> pop_from ls (qview d) = None
    | Some k \<Rightarrow> (\<forall>e. TaskId_from_string (last (rlists d k)) = Inl e \<longrightarrow> qview (d_pop k d) = qview d) \<and>
        (\<forall>i. TaskId_from_string (last (rlists d k)) = Inr i \<longrightarrow>
           pop_from ls (qview d) = Some (i, qview (d_pop k d))))"
proof (induction ls)
  case Nil
  then show ?case by simp
next
  case (Cons l ls)
  show ?case
  proof (cases "rlists d (ready_key l) = []")
    case True
    then have "ready (qview d) l = []" by (simp add: qview_def)
    then have "pop_from (l # ls) (qview d) = pop_from ls (qview d)" by simp
    with True Cons show ?thesis by (simp split: option.splits del: pop_from.simps)
  next
    case False
    then obtain xs x where raw: "rlists d (ready_key l) = xs @ [x]" by (metis rev_exhaust)
    have v: "qview (d_pop (ready_key l) d) = (qview d)\<lparr>ready := (ready (qview d))(l := keep_ids xs)\<rparr>"
      using raw by (auto simp: qview_def d_pop_def)
    have r: "ready (qview d) l = keep_ids xs @ keep_ids [x]"
      using raw by (simp add: qview_def keep_ids_append)
    show ?thesis
    proof (cases "TaskId_from_string x")
      case (Inl e)
      then have "ready (qview d) l = keep_ids xs" using r by simp
      then have "(ready (qview d))(l := keep_ids xs) = ready (qview d)" by (rule fun_upd_idem)
      then have "qview (d_pop (ready_key l) d) = qview d" unfolding v by simp
      with False raw Inl show ?thesis by simp
    next
      case (Inr i)
      then have "ready (qview d) l = keep_ids xs @ [i]" using r by simp
      with False raw Inr v show ?thesis by simp
    qed
  qed
qed

lemma lua_zrem_all_zsets:
  assumes "\<And>m d. rs_zrem rc k m d = d_zset k m None d"
  shows "lua_zrem_all rc k ms d =
    d\<lparr>zsets := (zsets d)(k := (\<lambda>m. if m \<in> set ms then None else zsets d k m))\<rparr>"
proof (induction ms arbitrary: d)
  case Nil
  have "(zsets d)(k := (\<lambda>m. zsets d k m)) = zsets d" by simp
  then show ?case by simp
next
  case (Cons m ms)
  let ?f = "\<lambda>x. if x \<in> set ms then None else ((zsets d k)(m := None)) x"
  have f: "?f = (\<lambda>x. if x \<in> set (m # ms) then None else zsets d k x)" by auto
  have "lua_zrem_all rc k (m # ms) d = d\<lparr>zsets := (zsets d)(k := ?f)\<rparr>"
    by (simp add: assms Cons.IH d_zset_def fun_upd_def cong: if_cong)
  then show ?case by (simp only: f)
qed

lemma parse_ids_map [simp]: "parse_ids (map TaskId_str is) = Inr is"
  by (induction "is") auto

lemma zrange_dom:
  assumes "zrange_result d k lo hi off cnt r" and "m \<in> set r"
  shows "m \<in> dom (zsets d k)"
proof -
  from assms obtain xs where "set xs = {m. in_range d k lo hi m}" "m \<in> set xs"
    by (auto simp: zrange_result_def dest: in_set_takeD in_set_dropD split: if_splits)
  then show ?thesis by (auto simp: in_range_def split: option.splits)
qed

lemma zrange_claimable:
  assumes "zrange_result d SCHEDULED_KEY 0 n 0 limit (map TaskId_str r)"
    and owned: "\<And>m. m \<in> dom (zsets d SCHEDULED_KEY) \<Longrightarrow> \<exists>i. m = TaskId_str i"
  shows "claimable limit n (qview d) r"
proof -
  let ?z = "zsets d SCHEDULED_KEY"
  from assms(1) obtain xs where xs: "distinct xs" "set xs = {m. in_range d SCHEDULED_KEY 0 n m}"
    "sorted_wrt (\<lambda>a b. the (?z a) \<le> the (?z b)) xs"
    and r: "map TaskId_str r = (if limit < 0 then xs else take (nat limit) xs)"
    by (auto simp: zrange_result_def)
  define ys where "ys = (if limit < 0 then [] else drop (nat limit) xs)"
  have app: "xs = map TaskId_str r @ ys" by (simp add: r ys_def)
  have range: "TaskId_str i \<in> set xs \<longleftrightarrow> due (qview d) n i" for i
    by (simp add: xs(2) in_range_def due_def qview_def)
  have "distinct r" using xs(1) app by (simp add: distinct_map)
  moreover have "due (qview d) n i" if "i \<in> set r" for i
    using that range [of i] by (simp add: app)
  moreover have "int (length r) \<le> limit" if "0 \<le> limit"
    using arg_cong [OF r, of length] that by simp
  moreover have "i \<in> set r" if "limit < 0 \<or> int (length r) < limit" and "due (qview d) n i" for i
  proof -
    have "ys = []"
    proof (cases "limit < 0")
      case True
      then show ?thesis by (simp add: ys_def)
    next
      case False
      with that(1) arg_cong [OF r, of length] have "length xs \<le> nat limit" by auto
      then show ?thesis by (simp add: ys_def)
    qed
    then show ?thesis using range [of i] that(2) by (auto simp: app)
  qed
  moreover have "the (scheduled (qview d) i) \<le> the (scheduled (qview d) j)"
    if "i \<in> set r" "due (qview d) n j" "j \<notin> set r" for i j
  proof -
    have "TaskId_str j \<in> set ys" using range [of j] that by (auto simp: app)
    then show ?thesis
      using xs(3) that(1) by (auto simp: app sorted_wrt_append qview_def)
  qed
  ultimately show ?thesis by (auto simp: claimable_def)
qed

section \<open>The backend meets the contract of the port\<close>

locale redis_backend =
  redis_service rc dbv rv pe + runtime_port rt dbv rv
  for rc :: "'w RedisClient" and rt :: "'w runtime" and dbv :: "'w \<Rightarrow> 'd"
    and rv :: "'w \<Rightarrow> redis_data" and pe :: "exn \<Rightarrow> bool" +
  fixes st :: Settings and fuel :: nat

context redis_backend
begin

lemma now_rule:
  assumes "\<And>n w'. dbv w' = dbv w \<Longrightarrow> rv w' = rv w \<Longrightarrow> Q n w'"
  shows "wp (now rt) Q E w"
  using now_keeps [of w] assms by (auto simp: wp_def now_def keeps_def split: prod.split)

lemma effect_rule:
  assumes "redis_effect dbv rv pe m f R"
    and "\<And>r w'. dbv w' = dbv w \<Longrightarrow> rv w' = f (rv w) \<Longrightarrow> R (rv w) r \<Longrightarrow> Q r w'"
    and "\<And>e w'. pe e \<Longrightarrow> dbv w' = dbv w \<Longrightarrow> rv w' = rv w \<or> rv w' = f (rv w) \<Longrightarrow> E e w'"
  shows "wp m Q E w"
  using assms(1) unfolding redis_effect_def
  by (rule contract_wp) (auto intro: assms(2,3))

lemma parse_error: "TaskId_from_string s = Inl e \<Longrightarrow> unreadable pe e" "parse_ids ss = Inl e \<Longrightarrow> unreadable pe e"
proof -
  show id: "TaskId_from_string s = Inl e \<Longrightarrow> unreadable pe e" for s
    by (auto simp: TaskId_from_string_def split: sum.splits)
  show "parse_ids ss = Inl e \<Longrightarrow> unreadable pe e"
    by (induction ss) (auto intro: id split: sum.splits)
qed

lemma unit_effect:
  assumes "redis_effect dbv rv pe m g R" and "\<And>d. qview (g d) = f (qview d)"
  shows "queue_effect dbv (\<lambda>w. qview (rv w)) pe (unit_prog m) f"
  unfolding queue_effect_def unit_prog_def
  by (rule contractI, simp add: wp_simps, rule effect_rule [OF assms(1)]) (auto simp: assms(2))

lemma enqueue_ready_effect:
  "queue_effect dbv (\<lambda>w. qview (rv w)) pe (rq_enqueue_ready rc st i p) (push_ready (priority_levels st) i p)"
  unfolding rq_enqueue_ready_def Let_def
  by (rule unit_effect [OF lpush]) (simp add: qview_push_ready push_ready_def Let_def)

lemma dequeue_ready_contract:
  "contract (rq_dequeue_ready rc st tmo)
     (\<lambda>w r w'. dbv w' = dbv w \<and>
        (case r of None \<Rightarrow> qview (rv w') = qview (rv w) \<and> pop_ready (priority_levels st) (qview (rv w)) = None
         | Some i \<Rightarrow> pop_ready (priority_levels st) (qview (rv w)) = Some (i, qview (rv w'))))
     (\<lambda>w e w'. unreadable pe e \<and> dbv w' = dbv w \<and> (qview (rv w') = qview (rv w) \<or>
        (\<exists>i. pop_ready (priority_levels st) (qview (rv w)) = Some (i, qview (rv w')))))"
proof (rule contractI)
  fix w
  let ?ks = "ready_keys st" and ?pop = "pop_ready (priority_levels st) (qview (rv w))"
  have pop: "case first_nonempty ?ks (rv w) of
      None \<Rightarrow> ?pop = None
    | Some k \<Rightarrow> (\<forall>e. TaskId_from_string (last (rlists (rv w) k)) = Inl e \<longrightarrow> qview (d_pop k (rv w)) = qview (rv w)) \<and>
        (\<forall>i. TaskId_from_string (last (rlists (rv w) k)) = Inr i \<longrightarrow> ?pop = Some (i, qview (d_pop k (rv w))))"
    unfolding ready_keys_def pop_ready_def by (rule first_nonempty_pop)
  have eff: "qview (d_brpop ?ks (rv w)) = qview (rv w) \<or> (\<exists>i. ?pop = Some (i, qview (d_brpop ?ks (rv w))))"
    using pop by (cases "first_nonempty ?ks (rv w)"; simp add: d_brpop_def)
      (metis sum.exhaust)
  show "wp (rq_dequeue_ready rc st tmo)
     (\<lambda>r w'. dbv w' = dbv w \<and> (case r of None \<Rightarrow> qview (rv w') = qview (rv w) \<and> ?pop = None
         | Some i \<Rightarrow> ?pop = Some (i, qview (rv w'))))
     (\<lambda>e w'. unreadable pe e \<and> dbv w' = dbv w \<and> (qview (rv w') = qview (rv w) \<or> (\<exists>i. ?pop = Some (i, qview (rv w'))))) w"
    unfolding rq_dequeue_ready_def wp_simps
  proof (rule effect_rule [OF brpop])
    fix r w' assume "dbv w' = dbv w" "rv w' = d_brpop ?ks (rv w)" "r = brpop_result ?ks (rv w)"
    then show "(case r of None \<Rightarrow> \<lambda>w'. dbv w' = dbv w \<and> (case None of None \<Rightarrow> qview (rv w') = qview (rv w) \<and> ?pop = None
         | Some i \<Rightarrow> ?pop = Some (i, qview (rv w')))
       | Some p \<Rightarrow> case p of (k, s) \<Rightarrow> (case TaskId_from_string s of
           Inl e \<Rightarrow> \<lambda>w'. unreadable pe e \<and> dbv w' = dbv w \<and> (qview (rv w') = qview (rv w) \<or> (\<exists>i. ?pop = Some (i, qview (rv w'))))
         | Inr i \<Rightarrow> \<lambda>w'. dbv w' = dbv w \<and> (case Some i of None \<Rightarrow> qview (rv w') = qview (rv w) \<and> ?pop = None
         | Some i \<Rightarrow> ?pop = Some (i, qview (rv w'))))) w'"
      using pop eff
      by (cases "first_nonempty ?ks (rv w)")
        (auto simp: brpop_result_def d_brpop_def dest: parse_error split: sum.split)
  next
    fix e w' assume "pe e" "dbv w' = dbv w" "rv w' = rv w \<or> rv w' = d_brpop ?ks (rv w)"
    with eff show "unreadable pe e \<and> dbv w' = dbv w \<and> (qview (rv w') = qview (rv w) \<or> (\<exists>i. ?pop = Some (i, qview (rv w'))))"
      by auto
  qed
qed

lemma claim_due_contract:
  "contract (rq_claim_due_scheduled rc rt limit)
     (\<lambda>w r w'. dbv w' = dbv w \<and> qview (rv w') = unschedule (set r) (qview (rv w)) \<and>
        (\<exists>n. claimable limit n (qview (rv w)) r))
     (\<lambda>w e w'. pe e \<and> dbv w' = dbv w \<and> (\<exists>r. qview (rv w') = unschedule r (qview (rv w))))"
  (is "contract _ ?S ?F")
proof (rule contractI)
  fix w
  have scripted: "(\<exists>r. fst (claim_due_script rc SCHEDULED_KEY n limit d) = map TaskId_str r \<and>
      qview (snd (claim_due_script rc SCHEDULED_KEY n limit d)) = unschedule (set r) (qview d) \<and>
      claimable limit n (qview d) r)" if d: "d = rv w" for n d
  proof -
    let ?ms = "rs_zrangebyscore rc d SCHEDULED_KEY 0 n 0 limit"
    have z: "zrange_result d SCHEDULED_KEY 0 n 0 limit ?ms"
      unfolding d by (rule server_zrangebyscore) (rule zset_finite)
    have "\<exists>i. m = TaskId_str i" if "m \<in> set ?ms" for m
      using zrange_dom [OF z that] scheduled_owned [of m w] by (simp add: d)
    then obtain r where r: "?ms = map TaskId_str r" by (metis ex_map_conv)
    have "qview (lua_zrem_all rc SCHEDULED_KEY ?ms d) = unschedule (set r) (qview d)"
      unfolding lua_zrem_all_zsets [OF server_zrem] r
      by (auto simp: qview_def unschedule_def fun_eq_iff)
    moreover have "claimable limit n (qview d) r"
      by (rule zrange_claimable [OF z [unfolded r]]) (use scheduled_owned [of _ w] d in auto)
    ultimately show ?thesis using r by (auto simp: claim_due_script_def Let_def)
  qed
  show "wp (rq_claim_due_scheduled rc rt limit) (?S w) (?F w) w"
    unfolding rq_claim_due_scheduled_def wp_simps
  proof (rule now_rule, rule effect_rule [OF script])
    fix n w1 raw w2 assume w1: "dbv w1 = dbv w" "rv w1 = rv w"
    obtain r where r: "fst (claim_due_script rc SCHEDULED_KEY n limit (rv w1)) = map TaskId_str r"
      "qview (snd (claim_due_script rc SCHEDULED_KEY n limit (rv w1))) = unschedule (set r) (qview (rv w))"
      "claimable limit n (qview (rv w)) r"
      using scripted [of "rv w1" n] w1 by auto
    { assume "dbv w2 = dbv w1" "rv w2 = snd (claim_due_script rc SCHEDULED_KEY n limit (rv w1))"
        "raw = fst (claim_due_script rc SCHEDULED_KEY n limit (rv w1))"
      with w1 r show "(if raw = [] then ?S w [] else (case parse_ids raw of Inl e \<Rightarrow> ?F w e | Inr x \<Rightarrow> ?S w x)) w2"
        by auto }
    { fix e :: exn assume "pe e" "dbv w2 = dbv w1"
        "rv w2 = rv w1 \<or> rv w2 = snd (claim_due_script rc SCHEDULED_KEY n limit (rv w1))"
      moreover have "unschedule {} (qview (rv w)) = qview (rv w)" by (simp add: unschedule_def)
      ultimately show "?F w e w2" using w1 r by (metis (no_types, lifting)) }
  qed
qed

text \<open>Operations that only touch hash keys leave the queues alone.\<close>

lemma hash_effect:
  assumes "redis_effect dbv rv pe m (\<lambda>d. d) R"
    and "\<And>r w. wp (f r) (\<lambda>_ w'. dbv w' = dbv w \<and> qview (rv w') = qview (rv w))
           (\<lambda>e w'. pe e \<and> dbv w' = dbv w \<and> qview (rv w') = qview (rv w)) w"
  shows "wp (andThen m f) (\<lambda>_ w'. dbv w' = dbv w \<and> qview (rv w') = qview (rv w))
           (\<lambda>e w'. pe e \<and> dbv w' = dbv w \<and> qview (rv w') = qview (rv w)) w"
  unfolding wp_simps
  by (rule effect_rule [OF assms(1)]) (auto intro!: wp_mono [OF assms(2)])

lemma id_effectI:
  assumes "\<And>w. wp m (\<lambda>_ w'. dbv w' = dbv w \<and> qview (rv w') = qview (rv w))
           (\<lambda>e w'. pf e \<and> dbv w' = dbv w \<and> qview (rv w') = qview (rv w)) w"
  shows "queue_effect dbv (\<lambda>w. qview (rv w)) pf m (\<lambda>v. v)"
  unfolding queue_effect_def by (rule contractI) (auto intro!: wp_mono [OF assms])

lemma mark_inflight_effect:
  "queue_effect dbv (\<lambda>w. qview (rv w)) pe (rq_mark_inflight rc rt i wid ttl) (\<lambda>v. v)"
proof (rule id_effectI)
  fix w
  have "wp (andThen (rc_hset rc (inflight_key i) fs) (\<lambda>_. unit_prog (rc_expire rc (inflight_key i) ttl)))
      (\<lambda>_ w'. dbv w' = dbv w1 \<and> qview (rv w') = qview (rv w1))
      (\<lambda>e w'. pe e \<and> dbv w' = dbv w1 \<and> qview (rv w') = qview (rv w1)) w1" for fs w1
    unfolding unit_prog_def
    by (intro hash_effect [OF hset] hash_effect [OF expire]) (simp_all add: wp_simps)
  then show "wp (rq_mark_inflight rc rt i wid ttl)
      (\<lambda>_ w'. dbv w' = dbv w \<and> qview (rv w') = qview (rv w))
      (\<lambda>e w'. pe e \<and> dbv w' = dbv w \<and> qview (rv w') = qview (rv w)) w"
    unfolding rq_mark_inflight_def
    by (subst wp_andThen) (rule now_rule, fastforce intro: wp_mono)
qed

lemma heartbeat_effect:
  "queue_effect dbv (\<lambda>w. qview (rv w)) pe (rq_set_worker_heartbeat rc rt st wid md) (\<lambda>v. v)"
proof (rule id_effectI)
  fix w
  have "wp (andThen (rc_hset rc (WORKER_PREFIX @ wid) fs) (\<lambda>_. unit_prog (rc_expire rc (WORKER_PREFIX @ wid) ttl)))
      (\<lambda>_ w'. dbv w' = dbv w1 \<and> qview (rv w') = qview (rv w1))
      (\<lambda>e w'. pe e \<and> dbv w' = dbv w1 \<and> qview (rv w') = qview (rv w1)) w1" for fs ttl w1
    unfolding unit_prog_def
    by (intro hash_effect [OF hset] hash_effect [OF expire]) (simp_all add: wp_simps)
  then show "wp (rq_set_worker_heartbeat rc rt st wid md)
      (\<lambda>_ w'. dbv w' = dbv w \<and> qview (rv w') = qview (rv w))
      (\<lambda>e w'. pe e \<and> dbv w' = dbv w \<and> qview (rv w') = qview (rv w)) w"
    unfolding rq_set_worker_heartbeat_def Let_def
    by (subst wp_andThen) (rule now_rule, fastforce intro: wp_mono)
qed

lemma scan_loop_keeps:
  "wp (scan_loop rc pat k cursor keys) (\<lambda>_ w'. dbv w' = dbv w \<and> qview (rv w') = qview (rv w))
     (\<lambda>e w'. pe e \<and> dbv w' = dbv w \<and> qview (rv w') = qview (rv w)) w"
proof (induction k arbitrary: cursor keys w)
  case 0
  then show ?case by (simp add: wp_simps)
next
  case (Suc k)
  show ?case
    unfolding scan_loop.simps
    by (rule hash_effect [OF scan]) (auto simp: wp_simps intro: Suc.IH split: prod.split)
qed

lemma get_inflight_effect:
  "queue_effect dbv (\<lambda>w. qview (rv w)) (unreadable pe) (rq_get_inflight_task_ids rc fuel) (\<lambda>v. v)"
  unfolding rq_get_inflight_task_ids_def scan_keys_def
  by (rule id_effectI, simp only: wp_simps, rule wp_mono [OF scan_loop_keeps])
    (auto dest: parse_error split: option.split sum.split)

lemma is_cancelled_contract:
  "contract (rq_is_cancelled rc i) (\<lambda>w r w'. r = (i \<in> cancelled (qview (rv w))) \<and>
       keeps dbv (\<lambda>w. qview (rv w)) w w') (\<lambda>w e w'. pe e \<and> keeps dbv (\<lambda>w. qview (rv w)) w w')"
  unfolding rq_is_cancelled_def
  by (rule contractI, rule effect_rule [OF sismember]) (auto simp: keeps_def qview_def)

end

sublocale redis_backend \<subseteq>
  queue_port "RedisQueueBackend rc rt st fuel" "priority_levels st" dbv "\<lambda>w. qview (rv w)" pe
proof (unfold_locales, goal_cases)
  case (1 i p)
  then show ?case by (simp add: RedisQueueBackend_def enqueue_ready_effect)
next
  case (2 i due_at)
  then show ?case
    by (simp add: RedisQueueBackend_def rq_enqueue_scheduled_def unit_effect [OF zadd] qview_schedule)
next
  case (3 i)
  then show ?case
    by (simp add: RedisQueueBackend_def rq_remove_scheduled_def unit_effect [OF zrem] qview_unschedule)
next
  case (4 i wid ttl)
  then show ?case by (simp add: RedisQueueBackend_def mark_inflight_effect)
next
  case (5 i)
  then show ?case
    by (simp add: RedisQueueBackend_def rq_clear_inflight_def unit_effect [OF delete] qview_delete_inflight)
next
  case 6
  then show ?case by (simp add: RedisQueueBackend_def get_inflight_effect)
next
  case (7 wid md)
  then show ?case by (simp add: RedisQueueBackend_def heartbeat_effect)
next
  case (8 i)
  then show ?case
    by (simp add: RedisQueueBackend_def rq_enqueue_dlq_def unit_effect [OF lpush] qview_push_dlq)
next
  case (9 i)
  then show ?case
    by (simp add: RedisQueueBackend_def rq_mark_cancelled_def unit_effect [OF sadd] qview_cancel)
next
  case (10 i)
  then show ?case
    by (simp add: RedisQueueBackend_def rq_clear_cancelled_def unit_effect [OF srem] qview_uncancel)
next
  case (11 i)
  then show ?case by (simp add: RedisQueueBackend_def is_cancelled_contract)
next
  case (12 tmo)
  then show ?case by (simp add: RedisQueueBackend_def dequeue_ready_contract)
next
  case (13 limit)
  then show ?case by (simp add: RedisQueueBackend_def claim_due_contract)
qed

end
