(* ===== verification/Container.thy ===== *)
theory Container
  imports Services Persistence Redis_Backend
begin

text \<open>
  \<^verbatim>\<open>infrastructure/di/container.py\<close>: the services wired to the SQLAlchemy repositories and
  the Redis backend, and the session scope that commits on success and rolls back on an
  exception. The locale \<open>container\<close> assumes only what SQLAlchemy, PostgreSQL, Redis and the
  clock document; every contract of the ports follows from it.
\<close>

section \<open>Wiring\<close>

record 'w Container =
  c_session :: "'w SqlSession"
  c_redis :: "'w RedisClient"
  c_runtime :: "'w runtime"
  c_settings :: Settings
  c_scan_fuel :: nat

definition queue_backend :: "'w Container \<Rightarrow> 'w QueueBackend" where
  "queue_backend c = RedisQueueBackend (c_redis c) (c_runtime c) (c_settings c) (c_scan_fuel c)"

definition leader_lock :: "'w Container \<Rightarrow> string \<Rightarrow> 'w LeaderLock" where
  "leader_lock c owner_id = RedisLeaderLock (c_redis c) owner_id"

definition container_close :: "'w Container \<Rightarrow> ('w, unit) prog" where
  "container_close c = rc_close (c_redis c)"

text \<open>
  \<^verbatim>\<open>queue_manager(session)\<close>, \<^verbatim>\<open>cancellation_service(session)\<close>, and so on: each passes
  repositories over the session, the queue backend and the settings.
\<close>

definition container_services :: "'w Container \<Rightarrow> 'w Services" where
  "container_services c =
     \<lparr>svc_rt = c_runtime c,
      svc_repo = SqlAlchemyTaskRepository (c_session c) (c_runtime c),
      svc_evs = SqlAlchemyTaskEventRepository (c_session c) (c_runtime c),
      svc_workers = SqlAlchemyWorkerRepository (c_session c) (c_runtime c),
      svc_queue = queue_backend c,
      svc_st = c_settings c\<rparr>"

section \<open>The session scope\<close>

text \<open>
  \<^verbatim>\<open>async with self.session_factory() as session: try: yield session; commit except
  Exception: rollback; raise\<close>, the outer block closing the session in every case.
\<close>

definition session :: "'w Container \<Rightarrow> ('w, 'a) prog \<Rightarrow> ('w, 'a) prog" where
  "session c body =
     andThen (stage (sq_begin (c_session c))) (\<lambda>_.
     try_finally
       (except_Exception
         (andThen body (\<lambda>r. andThen (sq_commit (c_session c)) (\<lambda>_. ret r)))
         (\<lambda>e. andThen (sq_rollback (c_session c)) (\<lambda>_. throw e)))
       (sq_close (c_session c)))"

section \<open>The contract of the wiring\<close>

locale container =
  sql: sql_store "c_session c" "c_runtime c" sv "\<lambda>w. qview (rv w)" pe +
  redis: redis_backend "c_redis c" "c_runtime c" "\<lambda>w. dview (sv w)" rv pe "c_settings c" "c_scan_fuel c"
  for c :: "'w Container" and sv :: "'w \<Rightarrow> sql_view" and rv :: "'w \<Rightarrow> redis_data" and pe :: "exn \<Rightarrow> bool"

sublocale container \<subseteq> services "container_services c" "\<lambda>w. dview (sv w)" "\<lambda>w. qview (rv w)" pe
proof -
  have "runtime_port (c_runtime c) (\<lambda>w. dview (sv w)) (\<lambda>w. qview (rv w))"
    by unfold_locales
      (use redis.now_keeps redis.uuid4_keeps redis.metric_keeps in \<open>auto simp: keeps_def\<close>)
  moreover have "task_store (SqlAlchemyTaskRepository (c_session c) (c_runtime c))
      (SqlAlchemyTaskEventRepository (c_session c) (c_runtime c)) (\<lambda>w. dview (sv w)) (\<lambda>w. qview (rv w)) pe"
    by (rule sql.task_store_axioms)
  moreover have "worker_store (SqlAlchemyWorkerRepository (c_session c) (c_runtime c))
      (\<lambda>w. dview (sv w)) (\<lambda>w. qview (rv w)) pe"
    by (rule sql.worker_store_axioms)
  moreover have "queue_port (queue_backend c) (priority_levels (c_settings c)) (\<lambda>w. dview (sv w))
      (\<lambda>w. qview (rv w)) pe"
    unfolding queue_backend_def by (rule redis.queue_port_axioms)
  ultimately show "services (container_services c) (\<lambda>w. dview (sv w)) (\<lambda>w. qview (rv w)) pe"
    by (simp add: services_def task_ports_def container_services_def)
qed

text \<open>A program that keeps the frame leaves the committed rows alone until the session commits.\<close>

definition durable :: "('w \<Rightarrow> db_view) \<Rightarrow> 'w \<Rightarrow> 'w \<Rightarrow> bool" where
  "durable dbv w w' \<longleftrightarrow>
     committed (dbv w') = committed (dbv w) \<and> committed_events (dbv w') = committed_events (dbv w)"

text \<open>The session's view when it begins: the committed state.\<close>

definition fresh :: "db_view \<Rightarrow> db_view" where
  "fresh d = d\<lparr>tasks := committed d, events := committed_events d\<rparr>"

text \<open>What a commit makes durable.\<close>

definition saved :: "('w \<Rightarrow> db_view) \<Rightarrow> 'w \<Rightarrow> 'w \<Rightarrow> bool" where
  "saved dbv w w' \<longleftrightarrow>
     committed (dbv w') = tasks (dbv w) \<and> committed_events (dbv w') = events (dbv w)"

text \<open>
  How a session over a body ends. The body's queue effects stay in every case; its database
  changes become durable together or not at all.
\<close>

definition session_returned ::
  "('w \<Rightarrow> db_view) \<Rightarrow> ('w \<Rightarrow> queue_view) \<Rightarrow> ('a \<Rightarrow> 'w \<Rightarrow> bool) \<Rightarrow> 'a \<Rightarrow> 'w \<Rightarrow> bool" where
  "session_returned dbv qv Q r w' \<longleftrightarrow> (\<exists>w1. Q r w1 \<and> saved dbv w1 w' \<and> qv w' = qv w1)"

text \<open>
  A state of the tables whose changes are durable although the session raised: the commit took
  effect and its answer was lost, or it returned and closing the session raised.
\<close>

definition commit_lost :: "'w Container \<Rightarrow> ('w \<Rightarrow> db_view) \<Rightarrow> db_view \<Rightarrow> bool" where
  "commit_lost c dbv d \<longleftrightarrow>
     (\<exists>w1 e w2. sq_commit (c_session c) w1 = (Inl e, w2) \<and> saved dbv w1 w2 \<and>
        committed d = committed (dbv w2) \<and> committed_events d = committed_events (dbv w2)) \<or>
     (\<exists>w1 w2 e w3. sq_commit (c_session c) w1 = (Inr (), w2) \<and> sq_close (c_session c) w2 = (Inl e, w3) \<and>
        committed d = committed (dbv w3) \<and> committed_events d = committed_events (dbv w3))"

definition session_raised ::
  "'w Container \<Rightarrow> ('w \<Rightarrow> db_view) \<Rightarrow> ('w \<Rightarrow> queue_view) \<Rightarrow> (exn \<Rightarrow> bool) \<Rightarrow> ('a \<Rightarrow> 'w \<Rightarrow> bool) \<Rightarrow> (exn \<Rightarrow> 'w \<Rightarrow> bool) \<Rightarrow>
   'w \<Rightarrow> exn \<Rightarrow> 'w \<Rightarrow> bool" where
  "session_raised c dbv qv pe Q E w e w' \<longleftrightarrow>
     (\<exists>w1. qv w' = qv w1 \<and>
        ((E e w1 \<or> pe e \<and> (\<exists>e'. E e' w1)) \<and> durable dbv w w' \<or>
         pe e \<and> (\<exists>r. Q r w1) \<and>
           (durable dbv w w' \<or> saved dbv w1 w' \<and> commit_lost c dbv (dbv w'))))"

context container
begin

abbreviation dbv :: "'w \<Rightarrow> db_view" where "dbv \<equiv> \<lambda>w. dview (sv w)"
abbreviation qv :: "'w \<Rightarrow> queue_view" where "qv \<equiv> \<lambda>w. qview (rv w)"

lemma sql_failed_durable: "sql_failed sv qv w w' \<Longrightarrow> durable dbv w w' \<and> qv w' = qv w"
  by (simp add: sql_failed_def durable_def dview_def)

lemma begin_fresh: "dview (sv (sq_begin (c_session c) w)) = fresh (dview (sv w))"
  "qview (rv (sq_begin (c_session c) w)) = qview (rv w)"
  using sql.sql_begin [of w] by (simp_all add: dview_def fresh_def)

lemma commit_rule:
  assumes "\<And>w'. sq_commit (c_session c) w = (Inr (), w') \<Longrightarrow> saved dbv w w' \<Longrightarrow> qv w' = qv w \<Longrightarrow> Q () w'"
    and "\<And>e w'. pe e \<Longrightarrow> durable dbv w w' \<or> saved dbv w w' \<and> commit_lost c dbv (dbv w') \<Longrightarrow> qv w' = qv w \<Longrightarrow>
      E e w'"
  shows "wp (sq_commit (c_session c)) Q E w"
proof (rule wpI)
  fix u w' assume run: "sq_commit (c_session c) w = (Inr u, w')"
  from contract_Inr [OF sql.sql_commit this] run show "Q u w'"
    by (auto simp: saved_def dview_def intro!: assms(1))
next
  fix e w' assume run: "sq_commit (c_session c) w = (Inl e, w')"
  from contract_Inl [OF sql.sql_commit this]
  have e: "pe e" "qv w' = qv w" "durable dbv w w' \<or> saved dbv w w'"
    by (auto simp: saved_def durable_def dview_def)
  with run have "durable dbv w w' \<or> saved dbv w w' \<and> commit_lost c dbv (dbv w')"
    by (auto simp: commit_lost_def)
  with e show "E e w'" by (intro assms(2)) auto
qed

lemma rollback_rule:
  assumes "\<And>w'. durable dbv w w' \<Longrightarrow> qv w' = qv w \<Longrightarrow> Q () w'"
    and "\<And>e w'. pe e \<Longrightarrow> durable dbv w w' \<Longrightarrow> qv w' = qv w \<Longrightarrow> E e w'"
  shows "wp (sq_rollback (c_session c)) Q E w"
  by (rule contract_wp [OF sql.sql_rollback]) (auto dest: sql_failed_durable intro!: assms)

lemma close_rule:
  assumes "\<And>w'. durable dbv w w' \<Longrightarrow> qv w' = qv w \<Longrightarrow> Q () w'"
    and "\<And>e w'. pe e \<Longrightarrow> durable dbv w w' \<Longrightarrow> qv w' = qv w \<Longrightarrow> E e w'"
  shows "wp (sq_close (c_session c)) Q E w"
  by (rule contract_wp [OF sql.sql_close]) (auto dest: sql_failed_durable intro!: assms)

text \<open>The close of a session that has committed.\<close>

lemma close_saved_rule:
  assumes "sq_commit (c_session c) w1 = (Inr (), w)" and "saved dbv w1 w"
    and "\<And>w'. saved dbv w1 w' \<Longrightarrow> qv w' = qv w \<Longrightarrow> Q () w'"
    and "\<And>e w'. pe e \<Longrightarrow> saved dbv w1 w' \<Longrightarrow> commit_lost c dbv (dbv w') \<Longrightarrow> qv w' = qv w \<Longrightarrow> E e w'"
  shows "wp (sq_close (c_session c)) Q E w"
proof (rule wpI)
  fix u w' assume "sq_close (c_session c) w = (Inr u, w')"
  from contract_Inr [OF sql.sql_close this] have "durable dbv w w'" "qv w' = qv w"
    by (auto dest: sql_failed_durable)
  with assms(2) show "Q u w'" using assms(3) [of w'] by (simp add: saved_def durable_def)
next
  fix e w' assume run: "sq_close (c_session c) w = (Inl e, w')"
  from contract_Inl [OF sql.sql_close this] have e: "pe e" "durable dbv w w'" "qv w' = qv w"
    by (auto dest: sql_failed_durable)
  moreover have "commit_lost c dbv (dbv w')"
    unfolding commit_lost_def using assms(1) run by blast
  ultimately show "E e w'" using assms(2) by (intro assms(4)) (auto simp: saved_def durable_def)
qed

lemma durable_saved: "durable dbv w1 w2 \<Longrightarrow> saved dbv w w1 \<Longrightarrow> saved dbv w w2"
  by (simp add: saved_def durable_def)

lemma durable_lost: "durable dbv w1 w2 \<Longrightarrow> commit_lost c dbv (dbv w1) \<Longrightarrow> commit_lost c dbv (dbv w2)"
  by (auto simp: commit_lost_def durable_def)

lemma durable_trans: "durable dbv w w1 \<Longrightarrow> durable dbv w1 w2 \<Longrightarrow> durable dbv w w2"
  by (simp add: durable_def)

text \<open>The way out of the session after an exception: rollback for an \<^verbatim>\<open>Exception\<close>, then close.\<close>

lemma unwind_rule:
  assumes "\<And>e' w'. pe e' \<or> e' = e \<Longrightarrow> durable dbv w w' \<Longrightarrow> qv w' = qv w \<Longrightarrow> S e' w'"
  shows "(if is_Exception e
     then wp (sq_rollback (c_session c)) (\<lambda>_. wp (sq_close (c_session c)) (\<lambda>_. S e) S)
       (\<lambda>e. wp (sq_close (c_session c)) (\<lambda>_. S e) S)
     else wp (sq_close (c_session c)) (\<lambda>_. S e) S) w"
  by (auto intro!: rollback_rule close_rule assms dest: durable_trans)

lemma session_wp:
  assumes "framed dbv qv UNIV body (\<lambda>_. True) (\<lambda>_. True)"
    and "\<And>w0. dbv w0 = fresh (dbv w) \<Longrightarrow> qv w0 = qv w \<Longrightarrow> wp body Q E w0"
  shows "wp (session c body) (session_returned dbv qv Q) (session_raised c dbv qv pe Q E w) w"
proof -
  let ?w0 = "sq_begin (c_session c) w"
  have body: "wp body (\<lambda>r w1. Q r w1 \<and> durable dbv w w1) (\<lambda>e w1. E e w1 \<and> durable dbv w w1) ?w0"
    by (rule wp_mono [OF framed_wp [OF assms(1) assms(2)]])
      (auto simp: begin_fresh frame_def durable_def fresh_def)
  show ?thesis
    unfolding session_def wp_simps
  proof (rule wp_mono [OF body], rule commit_rule, goal_cases)
    case (1 r w1 w2)
    show ?case
      by (rule close_saved_rule [OF 1(2,3)])
        (use 1 in \<open>auto simp: session_returned_def session_raised_def\<close>)
  next
    case (2 r w1 e w2)
    have "session_raised c dbv qv pe Q E w e' w3"
      if "pe e' \<or> e' = e" "durable dbv w2 w3" "qv w3 = qv w2" for e' w3
      unfolding session_raised_def
      by (rule exI [of _ w1]) (use 2 that in \<open>auto dest: durable_saved durable_trans durable_lost\<close>)
    then show ?case by (rule unwind_rule)
  next
    case (3 e w1)
    then have "session_raised c dbv qv pe Q E w e' w3"
      if "pe e' \<or> e' = e" "durable dbv w1 w3" "qv w3 = qv w1" for e' w3
      using that by (auto simp: session_raised_def dest: durable_trans)
    then show ?case by (rule unwind_rule)
  qed
qed

text \<open>
  The session of a body that only its return matters of: its changes are durable when the
  session returns; when it raises, they are not, unless the answer to the commit was lost.
\<close>

lemma session_commit_wp:
  assumes "framed dbv qv UNIV body (\<lambda>_. True) (\<lambda>_. True)"
    and "\<And>w0. dbv w0 = fresh (dbv w) \<Longrightarrow> qv w0 = qv w \<Longrightarrow> wp body Q (\<lambda>_ _. True) w0"
    and "\<And>r w1 w'. Q r w1 \<Longrightarrow> saved dbv w1 w' \<Longrightarrow> qv w' = qv w1 \<Longrightarrow> R r w'"
    and "\<And>e w'. durable dbv w w' \<Longrightarrow> F e w'"
    and "\<And>e r w1 w'. pe e \<Longrightarrow> Q r w1 \<Longrightarrow> saved dbv w1 w' \<Longrightarrow> commit_lost c dbv (dbv w') \<Longrightarrow> qv w' = qv w1 \<Longrightarrow>
      F e w'"
  shows "wp (session c body) R F w"
  by (rule wp_mono [OF session_wp [OF assms(1,2)]])
    (auto simp: session_returned_def session_raised_def intro: assms(3-5))

lemma container_selectors:
  "svc_queue (container_services c) = queue_backend c"
  "svc_st (container_services c) = c_settings c"
  "svc_repo (container_services c) = SqlAlchemyTaskRepository (c_session c) (c_runtime c)"
  by (simp_all add: container_services_def)

lemmas enqueue_ready_wired = enqueue_ready [unfolded container_selectors]
lemmas dequeue_contract = dequeue_ready [unfolded container_selectors]
lemmas claim_contract = claim_due [unfolded container_selectors]
lemmas save_contract = save [unfolded container_selectors]
lemmas get_contract = get_by_id [unfolded container_selectors]
lemmas list_contract = list_tasks [unfolded container_selectors]

text \<open>A new row with a key that is taken: the flush raises.\<close>

lemma duplicate_key_wp:
  assumes "0 \<le> priority t"
    and "tasks (dbv w) (task_id t) = None" and "idempotency_key t = Some k"
    and "tasks (dbv w) i = Some t'" and "idempotency_key t' = Some k"
  shows "wp (repo_save (c_session c) (c_runtime c) t) (\<lambda>_ _. False) (\<lambda>e _. pe e) w"
proof -
  from assms(4) obtain m' where m': "trows (sv w) i = Some m'" "to_domain_task m' = Inr t'"
    by (auto simp: dview_tasks_Some)
  have none: "trows (sv w) (task_id t) = None"
  proof (cases "trows (sv w) (task_id t)")
    case (Some m)
    with sql.sql_rows [OF Some] assms(2) show ?thesis
      by (auto simp: dview_def decode_task_def)
  qed simp
  have flush: "wp (sq_flush (c_session c)) (\<lambda>_ _. False) (\<lambda>e _. pe e) (sq_add_task (c_session c) (task_model a u t) w1)"
    if w1: "sv w1 = sv w" for a u w1
  proof -
    have "m_idempotency_key (task_model a u t) = Some k" using assms(3) by (simp add: task_model_def)
    moreover have "m_idempotency_key m' = Some k" using to_domain_task_fields(3) [OF m'(2)] assms(5) by simp
    moreover have "i \<noteq> m_id (task_model a u t)" using none m'(1) by auto
    ultimately obtain e w' where "sq_flush (c_session c) (sq_add_task (c_session c) (task_model a u t) w1) = (Inl e, w')"
      using sql.sql_unique_key [of w1 i m' k "task_model a u t"] m'(1) w1 by auto
    then show ?thesis using sql.sql_add_task [of w1 "task_model a u t"] by (simp add: wp_def)
  qed
  show ?thesis
    unfolding repo_save_def wp_andThen
    by (rule contract_wp [OF sql.sql_get_task])
      (auto simp: none keeps_def to_model_task_def wp_simps intro!: sql.or_now_rule flush)
qed

lemma services_wired: "services (container_services c) dbv qv pe"
  by (rule services_axioms)

end

end
