(* ===== verification/Failure_Handler.thy ===== *)
theory Failure_Handler
  imports Services
begin

text \<open>
  \<^verbatim>\<open>application/services/task_failure_handler.py\<close>: what happens to a task whose execution
  failed or timed out. Each method returns the task object as it has mutated it.
\<close>

section \<open>The methods\<close>

text \<open>\<^verbatim>\<open>message_template.format(delay=delay)\<close>\<close>

definition format_delay :: "string \<Rightarrow> int \<Rightarrow> string" where
  "format_delay template delay = replace_all ''{delay}'' (show_int delay) template"

definition retry_message :: "Task \<Rightarrow> int \<Rightarrow> string \<Rightarrow> string" where
  "retry_message t delay error =
     ''Retry in '' @ show_int delay @ ''s (attempt '' @ show_int (attempts t) @ ''/'' @
     show_int (max_retries t) @ ''): '' @ error"

definition schedule_retry ::
  "'w Services \<Rightarrow> Task \<Rightarrow> TaskStatus \<Rightarrow> string \<Rightarrow> string \<Rightarrow> string option \<Rightarrow> ('w, Task) prog" where
  "schedule_retry x t from error ty template =
     andThen (transition x t QUEUED) (\<lambda>t.
     andThen (from_sum (retry_delay_seconds t)) (\<lambda>delay.
     andThen (now (svc_rt x)) (\<lambda>n.
     andThen (from_sum (add_seconds n delay)) (\<lambda>run_at.
     andThen (qb_enqueue_scheduled (svc_queue x) (task_id t) run_at) (\<lambda>_.
     andThen (save x t) (\<lambda>_.
     andThen (append_event x t ty (Some from)
       (Some (case template of
          None \<Rightarrow> retry_message t delay error
        | Some s \<Rightarrow> format_delay s delay)) None) (\<lambda>_.
     ret t)))))))"

definition move_to_dead_letter ::
  "'w Services \<Rightarrow> Task \<Rightarrow> TaskStatus \<Rightarrow> string \<Rightarrow> string \<Rightarrow> ('w, Task) prog" where
  "move_to_dead_letter x t from error ty =
     andThen (transition x t DEAD_LETTER) (\<lambda>t.
     andThen (now (svc_rt x)) (\<lambda>n.
     let t = t\<lparr>finished_at := Some n\<rparr> in
     andThen (qb_enqueue_dlq (svc_queue x) (task_id t)) (\<lambda>_.
     andThen (save x t) (\<lambda>_.
     andThen (append_event x t ty (Some from) (Some error) None) (\<lambda>_.
     ret t)))))"

definition handle_execution_failure :: "'w Services \<Rightarrow> Task \<Rightarrow> string \<Rightarrow> ('w, Task) prog" where
  "handle_execution_failure x t error =
     (let from = task_status t; t = t\<lparr>attempts := attempts t + 1, task_error := Some error\<rparr> in
      if can_retry t then
        andThen (schedule_retry x t from error ''task.retry_scheduled'' None) (\<lambda>t.
        andThen (metric (svc_rt x) (TASKS_COMPLETED (task_name t) ''retry'')) (\<lambda>_. ret t))
      else
        andThen (move_to_dead_letter x t from error ''task.dead_letter'') (\<lambda>t.
        andThen (metric (svc_rt x) (TASKS_COMPLETED (task_name t) ''dead_letter'')) (\<lambda>_. ret t)))"

definition handle_timeout :: "'w Services \<Rightarrow> Task \<Rightarrow> ('w, bool) prog" where
  "handle_timeout x t =
     (let from = task_status t;
          t = t\<lparr>attempts := attempts t + 1, worker_id := None, started_at := None\<rparr> in
      andThen
        (if can_retry t
         then schedule_retry x t from ''Exceeded execution timeout'' ''task.requeued_timeout''
                (Some ''Requeued after timeout, delay={delay}s'')
         else move_to_dead_letter x t from ''Exceeded max retries after timeout'' ''task.dead_letter'')
      (\<lambda>t.
      andThen (save x t) (\<lambda>_.
      andThen (qb_clear_inflight (svc_queue x) (task_id t)) (\<lambda>_. ret True))))"

lemma format_delay_requeued:
  "format_delay ''Requeued after timeout, delay={delay}s'' d =
     ''Requeued after timeout, delay='' @ show_int d @ ''s''"
  by (simp add: format_delay_def starts_with_def)

section \<open>Contracts\<close>

text \<open>
  What a retry leaves: the stored task is \<open>t\<close> made QUEUED, its identifier has a due time in
  the scheduled set and is in no ready list it was not in before.
\<close>

definition retry_post ::
  "('w \<Rightarrow> db_view) \<Rightarrow> ('w \<Rightarrow> queue_view) \<Rightarrow> Task \<Rightarrow> TaskStatus \<Rightarrow> string \<Rightarrow> 'w \<Rightarrow> Task \<Rightarrow> 'w \<Rightarrow> bool" where
  "retry_post dbv qv t from ty w t' w' \<longleftrightarrow>
     (\<exists>n delay clock run_at k e.
        t' = t\<lparr>task_status := QUEUED, updated_at := Some n\<rparr> \<and>
        retry_delay_seconds t = Inr delay \<and> add_seconds clock delay = Inr run_at \<and>
        qv w' = (qv w)\<lparr>scheduled := (scheduled (qv w))(task_id t \<mapsto> run_at)\<rparr> \<and>
        dbv w' = put_event e (put_task k t' (dbv w)) \<and>
        ev_task_id e = task_id t \<and> event_type e = ty \<and> from_status e = Some from \<and>
        to_status e = Some QUEUED)"

definition dead_letter_post ::
  "('w \<Rightarrow> db_view) \<Rightarrow> ('w \<Rightarrow> queue_view) \<Rightarrow> Task \<Rightarrow> TaskStatus \<Rightarrow> string \<Rightarrow> string \<Rightarrow> 'w \<Rightarrow> Task \<Rightarrow> 'w \<Rightarrow> bool" where
  "dead_letter_post dbv qv t from error ty w t' w' \<longleftrightarrow>
     (\<exists>n f k e.
        t' = t\<lparr>task_status := DEAD_LETTER, updated_at := Some n, finished_at := Some f\<rparr> \<and>
        qv w' = (qv w)\<lparr>dlq := task_id t # dlq (qv w)\<rparr> \<and>
        dbv w' = put_event e (put_task k t' (dbv w)) \<and>
        ev_task_id e = task_id t \<and> event_type e = ty \<and> from_status e = Some from \<and>
        to_status e = Some DEAD_LETTER \<and> ev_message e = Some error)"

text \<open>
  The exceptions a retry adds to those of the ports: the delay or the due time does not fit a
  float or a date.
\<close>

definition retry_overflow :: "Task \<Rightarrow> exn \<Rightarrow> bool" where
  "retry_overflow t e \<longleftrightarrow> retry_delay_seconds t = Inl e \<or>
     (\<exists>delay clock. retry_delay_seconds t = Inr delay \<and> add_seconds clock delay = Inl e)"

lemma retry_delay_seconds_status [simp]:
  "retry_delay_seconds (t\<lparr>task_status := s, updated_at := u\<rparr>) = retry_delay_seconds t"
  by (simp add: retry_delay_seconds_def)

lemma post_priority:
  "retry_post dbv qv t from ty w t' w' \<Longrightarrow> 0 \<le> priority t \<Longrightarrow> 0 \<le> priority t'"
  "dead_letter_post dbv qv t from error ty w t' w' \<Longrightarrow> 0 \<le> priority t \<Longrightarrow> 0 \<le> priority t'"
  by (auto simp: retry_post_def dead_letter_post_def)

lemma retry_postI:
  assumes "retry_delay_seconds t = Inr delay" and "add_seconds clock delay = Inr run_at"
    and "qv w' = (qv w)\<lparr>scheduled := (scheduled (qv w))(task_id t \<mapsto> run_at)\<rparr>"
    and "dbv w' = put_event e (put_task k (t\<lparr>task_status := QUEUED, updated_at := Some n\<rparr>) (dbv w))"
    and "ev_task_id e = task_id t" and "event_type e = ty" and "from_status e = Some from"
    and "to_status e = Some QUEUED"
  shows "retry_post dbv qv t from ty w (t\<lparr>task_status := QUEUED, updated_at := Some n\<rparr>) w'"
  unfolding retry_post_def using assms by blast

lemma dead_letter_postI:
  assumes "qv w' = (qv w)\<lparr>dlq := task_id t # dlq (qv w)\<rparr>"
    and "dbv w' = put_event e (put_task k
      (t\<lparr>task_status := DEAD_LETTER, updated_at := Some n, finished_at := Some f\<rparr>) (dbv w))"
    and "ev_task_id e = task_id t" and "event_type e = ty" and "from_status e = Some from"
    and "to_status e = Some DEAD_LETTER" and "ev_message e = Some error"
  shows "dead_letter_post dbv qv t from error ty w
    (t\<lparr>task_status := DEAD_LETTER, updated_at := Some n, finished_at := Some f\<rparr>) w'"
  unfolding dead_letter_post_def using assms by blast

context services
begin

lemma framed_schedule_retry [frame_rules]:
  "0 \<le> priority t \<Longrightarrow> task_id t \<in> is \<Longrightarrow>
     framed dbv qv is (schedule_retry x t from error ty template) (\<lambda>t'. task_id t' = task_id t \<and> 0 \<le> priority t') (\<lambda>_. True)"
  unfolding schedule_retry_def by (rule frame_rules | clarsimp)+

lemma framed_move_to_dead_letter [frame_rules]:
  "0 \<le> priority t \<Longrightarrow> task_id t \<in> is \<Longrightarrow>
     framed dbv qv is (move_to_dead_letter x t from error ty) (\<lambda>t'. task_id t' = task_id t \<and> 0 \<le> priority t') (\<lambda>_. True)"
  unfolding move_to_dead_letter_def by (rule frame_rules | clarsimp)+

lemma framed_handle_execution_failure [frame_rules]:
  "0 \<le> priority t \<Longrightarrow> task_id t \<in> is \<Longrightarrow>
     framed dbv qv is (handle_execution_failure x t error) (\<lambda>t'. task_id t' = task_id t \<and> 0 \<le> priority t') (\<lambda>_. True)"
  unfolding handle_execution_failure_def by (rule frame_rules | simp)+

lemma framed_handle_timeout [frame_rules]:
  "0 \<le> priority t \<Longrightarrow> task_id t \<in> is \<Longrightarrow> framed dbv qv is (handle_timeout x t) (\<lambda>r. r) (\<lambda>_. True)"
  unfolding handle_timeout_def by (rule frame_rules | simp)+

lemma schedule_retry_wp:
  assumes "0 \<le> priority t" and "QUEUED \<in> set (allowed (task_status t))"
  shows "wp (schedule_retry x t from error ty template) (retry_post dbv qv t from ty w)
    (\<lambda>e _. pe e \<or> retry_overflow t e) w"
  unfolding schedule_retry_def wp_simps
  by (rule transition_rule [OF assms(2)])
    (auto intro!: wp_rules assms(1) simp: retry_overflow_def split: sum.split,
     rule retry_postI, assumption+, simp_all)

lemma move_to_dead_letter_wp:
  assumes "0 \<le> priority t" and "DEAD_LETTER \<in> set (allowed (task_status t))"
  shows "wp (move_to_dead_letter x t from error ty) (dead_letter_post dbv qv t from error ty w)
    (\<lambda>e _. pe e) w"
  unfolding move_to_dead_letter_def wp_simps Let_def
  by (rule transition_rule [OF assms(2)])
    (auto simp: wp_simps intro!: wp_rules assms(1) intro: dead_letter_postI)

text \<open>The task as the failure handler hands it on.\<close>

lemma handle_execution_failure_wp:
  assumes "0 \<le> priority t" and "task_status t = RUNNING"
    and "t1 = t\<lparr>attempts := attempts t + 1, task_error := Some error\<rparr>"
  shows "wp (handle_execution_failure x t error)
    (if can_retry t1 then retry_post dbv qv t1 RUNNING ''task.retry_scheduled'' w
     else dead_letter_post dbv qv t1 RUNNING error ''task.dead_letter'' w)
    (\<lambda>e _. pe e \<or> can_retry t1 \<and> retry_overflow t1 e) w"
proof -
  have t1: "0 \<le> priority t1" "QUEUED \<in> set (allowed (task_status t1))"
    "DEAD_LETTER \<in> set (allowed (task_status t1))" using assms by simp_all
  show ?thesis
    unfolding handle_execution_failure_def Let_def assms(3) [symmetric] wp_simps assms(2)
    by (auto intro!: wp_mono [OF schedule_retry_wp [OF t1(1,2)]]
        wp_mono [OF move_to_dead_letter_wp [OF t1(1,3)]] metric_rule
        simp: retry_post_def dead_letter_post_def)
qed

lemma handle_timeout_wp:
  assumes "0 \<le> priority t" and "task_status t = RUNNING"
    and "t1 = t\<lparr>attempts := attempts t + 1, worker_id := None, started_at := None\<rparr>"
  shows "wp (handle_timeout x t)
    (\<lambda>r w'. r \<and> (\<exists>t' w1 k. dbv w' = put_task k t' (dbv w1) \<and> qv w' = qv w1 \<and>
      (if can_retry t1 then retry_post dbv qv t1 RUNNING ''task.requeued_timeout'' w t' w1
       else dead_letter_post dbv qv t1 RUNNING ''Exceeded max retries after timeout'' ''task.dead_letter'' w t' w1)))
    (\<lambda>e _. pe e \<or> can_retry t1 \<and> retry_overflow t1 e) w"
proof -
  have t1: "0 \<le> priority t1" "QUEUED \<in> set (allowed (task_status t1))"
    "DEAD_LETTER \<in> set (allowed (task_status t1))" using assms by simp_all
  show ?thesis
    unfolding handle_timeout_def Let_def assms(3) [symmetric] wp_simps assms(2)
    by (auto intro!: wp_mono [OF schedule_retry_wp [OF t1(1,2)]]
        wp_mono [OF move_to_dead_letter_wp [OF t1(1,3)]] save_rule clear_inflight_rule
        intro: post_priority [OF _ t1(1)]) blast+
qed

end

end
