(* ===== verification/Executor.thy ===== *)
theory Executor
  imports Failure_Handler "HOL-Library.AList"
begin

text \<open>
  \<^verbatim>\<open>worker/executor/python_executor.py\<close>: the registry of task handlers, the executor that
  calls them, and the life of one execution (cancellation check, start, run, completion or
  failure, clean-up). The handlers are user code and \<^verbatim>\<open>asyncio.wait_for\<close> is the event
  loop's: both are parameters.
\<close>

section \<open>The registry\<close>

record 'w TaskHandler =
  h_name :: string
  h_call :: "pydict \<Rightarrow> ('w, pyval) prog"

type_synonym 'w TaskRegistry = "(string \<times> 'w TaskHandler) list"

definition registry_register :: "string \<Rightarrow> 'w TaskHandler \<Rightarrow> 'w TaskRegistry \<Rightarrow> 'w TaskRegistry" where
  "registry_register name h reg = AList.update name h reg"

definition registry_get :: "string \<Rightarrow> 'w TaskRegistry \<Rightarrow> 'w TaskHandler option" where
  "registry_get name reg = map_of reg name"

definition registry_names :: "'w TaskRegistry \<Rightarrow> string list" where
  "registry_names reg = map fst reg"

text \<open>The decorator \<^verbatim>\<open>@task(name)\<close>: \<^verbatim>\<open>name or fn.__name__\<close>.\<close>

definition register_task :: "string option \<Rightarrow> 'w TaskHandler \<Rightarrow> 'w TaskRegistry \<Rightarrow> 'w TaskRegistry" where
  "register_task name h reg =
     (let task_name = (case name of None \<Rightarrow> h_name h | Some n \<Rightarrow> if n = [] then h_name h else n)
      in registry_register task_name h reg)"

lemma registry_get_register [simp]:
  "registry_get n (registry_register m h reg) = (if n = m then Some h else registry_get n reg)"
  by (simp add: registry_get_def registry_register_def update_conv')

lemma registry_names_register:
  "set (registry_names (registry_register m h reg)) = insert m (set (registry_names reg))"
  by (simp add: registry_names_def registry_register_def dom_update)

section \<open>Running a handler\<close>

text \<open>\<^verbatim>\<open>PythonHandlerExecutor.execute\<close>: the payload's items are the keyword arguments.\<close>

definition python_execute :: "'w TaskRegistry \<Rightarrow> Task \<Rightarrow> ('w, pydict) prog" where
  "python_execute reg t =
     (case registry_get (task_name t) reg of
        None \<Rightarrow> throw (ValueError (''No handler registered for task '' @ [CHR 0x27] @ task_name t @ [CHR 0x27]))
      | Some handler \<Rightarrow>
          andThen (h_call handler (payload t)) (\<lambda>result.
          ret (case result of PDict d \<Rightarrow> d | _ \<Rightarrow> [(''result'', result)])))"

record 'w TaskExecutors =
  te_registry :: "'w TaskRegistry"
  te_webhook :: "Task \<Rightarrow> ('w, pydict) prog"
  te_wait_for :: "('w, pydict) prog \<Rightarrow> int \<Rightarrow> ('w, pydict) prog"

definition run_executor :: "'w TaskExecutors \<Rightarrow> Task \<Rightarrow> ('w, pydict) prog" where
  "run_executor te t =
     (if executor_type t = WEBHOOK then te_wait_for te (te_webhook te t) (timeout_seconds t)
      else te_wait_for te (python_execute (te_registry te) t) (timeout_seconds t))"

section \<open>One execution\<close>

definition execute_cancelled :: "'w Services \<Rightarrow> Task \<Rightarrow> ('w, unit) prog" where
  "execute_cancelled x t =
     andThen (transition x t CANCELLED) (\<lambda>t'.
     andThen (now (svc_rt x)) (\<lambda>n.
     let t' = t'\<lparr>finished_at := Some n\<rparr> in
     andThen (save x t') (\<lambda>_.
     andThen (append_event x t' ''task.cancelled'' (Some (task_status t)) None None) (\<lambda>_.
     qb_clear_cancelled (svc_queue x) (task_id t')))))"

text \<open>
  The body of the \<^verbatim>\<open>try\<close>: the exceptions carry the task as the body has mutated it.
\<close>

definition run_and_complete ::
  "'w Services \<Rightarrow> 'w TaskExecutors \<Rightarrow> Task \<Rightarrow> ('w, exn \<times> Task, Task) program" where
  "run_and_complete x te t =
     andThen (raising_with t
       (andThen (run_executor te t) (\<lambda>result.
        andThen (transition x t COMPLETED) (\<lambda>t'.
        andThen (now (svc_rt x)) (\<lambda>n.
        ret (t'\<lparr>task_result := Some result, finished_at := Some n, task_error := None\<rparr>)))))) (\<lambda>t'.
     raising_with t'
       (andThen (save x t') (\<lambda>_.
        andThen (append_event x t' ''task.completed'' (Some (task_status t)) None None) (\<lambda>_.
        andThen (metric (svc_rt x) (TASKS_COMPLETED (task_name t') ''completed'')) (\<lambda>_.
        ret t')))))"

definition execution_failed :: "'w Services \<Rightarrow> exn \<times> Task \<Rightarrow> ('w, Task) prog" where
  "execution_failed x et =
     (case et of (e, t) \<Rightarrow>
        if is_Exception e then handle_execution_failure x t (exn_str e) else throw e)"

definition execution_cleanup :: "'w Services \<Rightarrow> Task \<Rightarrow> int \<Rightarrow> ('w, unit) prog" where
  "execution_cleanup x t start =
     andThen (qb_clear_inflight (svc_queue x) (task_id t)) (\<lambda>_.
     andThen (now (svc_rt x)) (\<lambda>n.
     metric (svc_rt x) (TASK_DURATION (task_name t) (n - start))))"

definition execute_task ::
  "'w Services \<Rightarrow> 'w TaskExecutors \<Rightarrow> Task \<Rightarrow> string \<Rightarrow> ('w, unit) prog" where
  "execute_task x te t wid =
     andThen (qb_is_cancelled (svc_queue x) (task_id t)) (\<lambda>is_cancelled.
       if is_cancelled then execute_cancelled x t
       else
         andThen (transition x t RUNNING) (\<lambda>t'.
         andThen (now (svc_rt x)) (\<lambda>n.
         let t' = t'\<lparr>worker_id := Some wid, started_at := Some n\<rparr> in
         andThen (save x t') (\<lambda>_.
         andThen (append_event x t' ''task.started'' (Some (task_status t)) None None) (\<lambda>_.
         andThen (qb_mark_inflight (svc_queue x) (task_id t') wid (timeout_seconds t' + 60)) (\<lambda>_.
         andThen (now (svc_rt x)) (\<lambda>start.
         andThen (try_finally (try_except (run_and_complete x te t') (execution_failed x))
           (execution_cleanup x t' start)) (\<lambda>_. ret ()))))))))"

section \<open>Contracts\<close>

text \<open>
  The task code runs without touching the worker's database session or the queues. What it
  returns or raises is unrestricted.
\<close>

locale worker = services x dbv qv pe
  for x :: "'w Services" and dbv :: "'w \<Rightarrow> db_view" and qv :: "'w \<Rightarrow> queue_view" and pe :: "exn \<Rightarrow> bool" +
  fixes te :: "'w TaskExecutors"
  assumes run_isolated: "contract (run_executor te t)
      (\<lambda>w r w'. keeps dbv qv w w') (\<lambda>w e w'. keeps dbv qv w w')"

text \<open>The task while it runs, and the completed task.\<close>

definition running :: "Task \<Rightarrow> string \<Rightarrow> Task \<Rightarrow> bool" where
  "running t wid t' \<longleftrightarrow>
     (\<exists>u s. t' = t\<lparr>task_status := RUNNING, updated_at := Some u, worker_id := Some wid, started_at := Some s\<rparr>)"

definition completed :: "Task \<Rightarrow> Task \<Rightarrow> bool" where
  "completed t t' \<longleftrightarrow>
     (\<exists>u f r. t' = t\<lparr>task_status := COMPLETED, updated_at := Some u, task_result := Some r,
        finished_at := Some f, task_error := None\<rparr>)"

text \<open>The task as the failure handler takes it over.\<close>

definition failing :: "Task \<Rightarrow> string \<Rightarrow> Task" where
  "failing t error = t\<lparr>attempts := attempts t + 1, task_error := Some error\<rparr>"

text \<open>How an execution of the running task \<open>t\<close> ends when it returns.\<close>

definition finished :: "('w \<Rightarrow> db_view) \<Rightarrow> ('w \<Rightarrow> queue_view) \<Rightarrow> Task \<Rightarrow> 'w \<Rightarrow> 'w \<Rightarrow> bool" where
  "finished dbv qv t w w' \<longleftrightarrow>
     (\<exists>t' k e. completed t t' \<and> dbv w' = put_event e (put_task k t' (dbv w)) \<and>
        event_type e = ''task.completed'' \<and> qv w' = qv w) \<or>
     (\<exists>error t'. if attempts t + 1 < max_retries t
        then retry_post dbv qv (failing t error) RUNNING ''task.retry_scheduled'' w t' w'
        else dead_letter_post dbv qv (failing t error) RUNNING error ''task.dead_letter'' w t' w')"

lemma finished_cong:
  "finished dbv qv t w w1 \<Longrightarrow> dbv w2 = dbv w1 \<Longrightarrow> qv w2 = qv w1 \<Longrightarrow> finished dbv qv t w w2"
  by (simp add: finished_def retry_post_def dead_letter_post_def cong: if_cong)

lemma finished_start:
  "finished dbv qv t w1 w2 \<Longrightarrow> dbv w1 = dbv w \<Longrightarrow> qv w1 = qv w \<Longrightarrow> finished dbv qv t w w2"
  by (simp add: finished_def retry_post_def dead_letter_post_def cong: if_cong)

lemma finished_row:
  assumes "finished dbv qv t w w'"
  obtains row where "tasks (dbv w') = (tasks (dbv w))(task_id t \<mapsto> row)"
    and "task_status row \<in> {QUEUED, COMPLETED, DEAD_LETTER}"
  using assms unfolding finished_def
proof (elim disjE exE conjE)
  fix t' k e assume "completed t t'" "dbv w' = put_event e (put_task k t' (dbv w))"
  then show thesis by (intro that [of "stored k (tasks (dbv w) (task_id t)) t'"]) (auto simp: completed_def)
next
  fix error t'
  assume post: "if attempts t + 1 < max_retries t
    then retry_post dbv qv (failing t error) RUNNING ''task.retry_scheduled'' w t' w'
    else dead_letter_post dbv qv (failing t error) RUNNING error ''task.dead_letter'' w t' w'"
  then obtain k e where "dbv w' = put_event e (put_task k t' (dbv w))"
    and "task_id t' = task_id t" "task_status t' \<in> {QUEUED, DEAD_LETTER}"
    by (auto simp: retry_post_def dead_letter_post_def failing_def split: if_splits)
  then show thesis by (intro that [of "stored k (tasks (dbv w) (task_id t)) t'"]) auto
qed

text \<open>A whole execution: the start is saved and recorded, and then the task finishes.\<close>

definition executed ::
  "('w \<Rightarrow> db_view) \<Rightarrow> ('w \<Rightarrow> queue_view) \<Rightarrow> Task \<Rightarrow> string \<Rightarrow> 'w \<Rightarrow> 'w \<Rightarrow> bool" where
  "executed dbv qv t wid w w' \<longleftrightarrow>
     (\<exists>t1 k e w1. running t wid t1 \<and> event_type e = ''task.started'' \<and>
        dbv w1 = put_event e (put_task k t1 (dbv w)) \<and> qv w1 = qv w \<and> finished dbv qv t1 w1 w')"

text \<open>How a row looks after an execution, by the results and exceptions that the task code may have had.\<close>

definition ends_with :: "(pydict \<Rightarrow> bool) \<Rightarrow> (exn \<Rightarrow> bool) \<Rightarrow> Task option \<Rightarrow> bool" where
  "ends_with P F row \<longleftrightarrow>
     (\<exists>t. row = Some t \<and>
        (task_status t = COMPLETED \<and> (\<exists>r. task_result t = Some r \<and> P r) \<or>
         task_status t \<in> {QUEUED, DEAD_LETTER} \<and> (\<exists>e. F e \<and> task_error t = Some (exn_str e))))"

text \<open>
  The exceptions of an execution beside those of the ports: one that is no \<^verbatim>\<open>Exception\<close>, a
  retry delay that overflows, and the failure handler's \<^verbatim>\<open>ValueError\<close> when a port fails
  after the task was set to COMPLETED.
\<close>

definition execution_stopped :: "(exn \<Rightarrow> bool) \<Rightarrow> exn \<Rightarrow> bool" where
  "execution_stopped pe e \<longleftrightarrow>
     pe e \<or> \<not> is_Exception e \<or> (\<exists>t. retry_overflow t e) \<or> (\<exists>e' m. pe e' \<and> e = ValueError m)"

context services
begin

lemma handle_completed_wp:
  assumes "task_status t = COMPLETED"
  shows "wp (handle_execution_failure x t error) (\<lambda>_ _. False) (\<lambda>e _. \<exists>m. e = ValueError m) w"
  unfolding handle_execution_failure_def schedule_retry_def move_to_dead_letter_def Let_def wp_simps
  by (auto intro!: transition_error simp: assms)

lemma cleanup_wp:
  "wp (execution_cleanup x t start) (\<lambda>_ w'. dbv w' = dbv w \<and> qv w' = qv w) (\<lambda>e _. pe e) w"
  unfolding execution_cleanup_def wp_simps by (auto intro!: wp_rules)

lemma execute_cancelled_wp:
  assumes "0 \<le> priority t" and "CANCELLED \<in> set (allowed (task_status t))"
  shows "wp (execute_cancelled x t)
    (\<lambda>_ w'. \<exists>n f k e. dbv w' = put_event e (put_task k
         (t\<lparr>task_status := CANCELLED, updated_at := Some n, finished_at := Some f\<rparr>) (dbv w)) \<and>
       event_type e = ''task.cancelled'' \<and>
       qv w' = (qv w)\<lparr>cancelled := cancelled (qv w) - {task_id t}\<rparr>)
    (\<lambda>e _. pe e) w"
  unfolding execute_cancelled_def wp_simps Let_def
  by (rule transition_rule [OF assms(2)]) (auto simp: wp_simps assms(1) intro!: wp_rules, blast)

end

context worker
begin

lemma run_and_complete_wp:
  assumes "task_status t = RUNNING" and "0 \<le> priority t"
  shows "wp (run_and_complete x te t)
    (\<lambda>t' w'. \<exists>k e. completed t t' \<and> dbv w' = put_event e (put_task k t' (dbv w)) \<and>
       event_type e = ''task.completed'' \<and> qv w' = qv w)
    (\<lambda>(e, t') w'. t' = t \<and> keeps dbv qv w w' \<or> pe e \<and> task_status t' = COMPLETED) w"
proof -
  have c: "completed t (t\<lparr>task_status := COMPLETED, updated_at := Some n, task_result := Some r,
      finished_at := Some f, task_error := None\<rparr>)" for n r f
    by (auto simp: completed_def)
  show ?thesis
    unfolding run_and_complete_def wp_simps
    by (rule contract_wp [OF run_isolated])
      (auto simp: assms keeps_def intro!: transition_rule wp_rules c, blast)
qed

lemma execution_failed_wp:
  assumes "task_status t = RUNNING" and "0 \<le> priority t"
    and "t' = t \<and> keeps dbv qv w w1 \<or> pe e \<and> task_status t' = COMPLETED"
  shows "wp (execution_failed x (e, t')) (\<lambda>_. finished dbv qv t w) (\<lambda>e _. execution_stopped pe e) w1"
proof (cases "is_Exception e")
  case False
  then show ?thesis by (simp add: execution_failed_def wp_simps execution_stopped_def)
next
  case True
  from assms(3) show ?thesis
  proof
    assume a: "t' = t \<and> keeps dbv qv w w1"
    have "wp (handle_execution_failure x t (exn_str e)) (\<lambda>_. finished dbv qv t w1)
      (\<lambda>e _. execution_stopped pe e) w1"
      by (rule wp_mono [OF handle_execution_failure_wp [OF assms(2,1) refl]])
        (auto simp: finished_def failing_def can_retry_def execution_stopped_def split: if_splits)
    then show ?thesis using a True
      by (auto simp: execution_failed_def keeps_def intro: finished_start elim!: wp_mono)
  next
    assume a: "pe e \<and> task_status t' = COMPLETED"
    then show ?thesis using True
      by (auto simp: execution_failed_def execution_stopped_def intro!: wp_mono [OF handle_completed_wp])
  qed
qed

text \<open>
  A full execution of a QUEUED task that is not marked for cancellation: the start is saved
  and recorded first, then the execution ends completed, scheduled for a retry or dead.
\<close>

lemma stop: "pe e \<Longrightarrow> execution_stopped pe e"
  by (simp add: execution_stopped_def)

text \<open>The \<^verbatim>\<open>finally\<close> block keeps an end and an exception alike.\<close>

lemma cleanup_finished_wp:
  assumes "running t wid t1" and "dbv w1 = put_event e (put_task k t1 (dbv w))" and "event_type e = ''task.started''"
    and "qv w1 = qv w" and "finished dbv qv t1 w1 w2"
  shows "wp (execution_cleanup x t1 start) (\<lambda>_. executed dbv qv t wid w) (\<lambda>e _. execution_stopped pe e) w2"
proof (rule wp_mono [OF cleanup_wp])
  fix w3 assume "dbv w3 = dbv w2 \<and> qv w3 = qv w2"
  then have "finished dbv qv t1 w1 w3" using assms(5) by (blast intro: finished_cong)
  with assms(1-4) show "executed dbv qv t wid w w3" unfolding executed_def by blast
qed (rule stop)

lemma cleanup_stopped_wp:
  "execution_stopped pe e \<Longrightarrow>
     wp (execution_cleanup x t1 start) (\<lambda>_ _. execution_stopped pe e) (\<lambda>e _. execution_stopped pe e) w"
  by (rule wp_mono [OF cleanup_wp]) (auto intro: stop)

lemma execution_body_wp:
  assumes t1: "running t wid t1" and prio: "0 \<le> priority t" and w1: "dbv w1 = put_event e (put_task k t1 (dbv w))"
    and "event_type e = ''task.started''" and "qv w1 = qv w"
  shows "wp (try_except (run_and_complete x te t1) (execution_failed x))
    (\<lambda>_ w'. wp (execution_cleanup x t1 start) (\<lambda>_. executed dbv qv t wid w) (\<lambda>e _. execution_stopped pe e) w')
    (\<lambda>e. wp (execution_cleanup x t1 start) (\<lambda>_ _. execution_stopped pe e) (\<lambda>e _. execution_stopped pe e)) w1"
  unfolding wp_try_except
proof (rule wp_mono [OF run_and_complete_wp])
  show run: "task_status t1 = RUNNING" "0 \<le> priority t1" using t1 prio by (auto simp: running_def)
  note fin = cleanup_finished_wp [OF t1 w1 assms(4,5)]
  fix w2
  {
    fix t2
    assume "\<exists>k e. completed t1 t2 \<and> dbv w2 = put_event e (put_task k t2 (dbv w1)) \<and>
      event_type e = ''task.completed'' \<and> qv w2 = qv w1"
    then show "wp (execution_cleanup x t1 start) (\<lambda>_. executed dbv qv t wid w) (\<lambda>e _. execution_stopped pe e) w2"
      by (intro fin) (auto simp: finished_def)
  }
  fix et
  assume "(case et of (e, t') \<Rightarrow> \<lambda>w'. t' = t1 \<and> keeps dbv qv w1 w' \<or> pe e \<and> task_status t' = COMPLETED) w2"
  then obtain e t' where et: "et = (e, t')"
    and out: "t' = t1 \<and> keeps dbv qv w1 w2 \<or> pe e \<and> task_status t' = COMPLETED" by (cases et) auto
  show "wp (execution_failed x et)
      (\<lambda>_ w'. wp (execution_cleanup x t1 start) (\<lambda>_. executed dbv qv t wid w) (\<lambda>e _. execution_stopped pe e) w')
      (\<lambda>e. wp (execution_cleanup x t1 start) (\<lambda>_ _. execution_stopped pe e) (\<lambda>e _. execution_stopped pe e)) w2"
    unfolding et by (rule wp_mono [OF execution_failed_wp [OF run out]], erule fin, erule cleanup_stopped_wp)
qed

lemma execute_task_wp:
  assumes "task_status t = QUEUED" and "0 \<le> priority t" and "task_id t \<notin> cancelled (qv w)"
  shows "wp (execute_task x te t wid)
    (\<lambda>_. executed dbv qv t wid w) (\<lambda>e _. execution_stopped pe e) w"
proof -
  have start: "running t wid (t\<lparr>task_status := RUNNING, updated_at := Some n, worker_id := Some wid, started_at := Some m\<rparr>)"
    for n m by (auto simp: running_def)
  show ?thesis
    unfolding execute_task_def wp_andThen Let_def
    by (rule is_cancelled_rule)
      (auto simp: assms wp_simps intro!: transition_rule wp_rules execution_body_wp [unfolded wp_simps] start intro: stop)
qed

text \<open>
  What an execution leaves behind by what the task code does: \<open>P\<close> holds of what it returns,
  \<open>F\<close> of the \<^verbatim>\<open>Exception\<close>s it raises.
\<close>

lemma run_and_complete_outcome:
  assumes "task_status t = RUNNING" and "0 \<le> priority t"
    and "wp (run_executor te t) (\<lambda>r _. P r) (\<lambda>e _. is_Exception e \<longrightarrow> F e) w"
  shows "wp (run_and_complete x te t)
    (\<lambda>_ w'. ends_with P F (tasks (dbv w') (task_id t)))
    (\<lambda>(e, t') _. t' = t \<and> (is_Exception e \<longrightarrow> F e) \<or> task_status t' = COMPLETED) w"
  unfolding run_and_complete_def wp_simps
  by (rule wp_mono [OF assms(3)])
    (auto simp: assms ends_with_def intro!: transition_rule wp_rules)

lemma execution_failed_outcome:
  assumes "task_status t = RUNNING" and "0 \<le> priority t" and "t' = t \<and> (is_Exception e \<longrightarrow> F e) \<or> task_status t' = COMPLETED"
  shows "wp (execution_failed x (e, t')) (\<lambda>_ w'. ends_with P F (tasks (dbv w') (task_id t))) (\<lambda>_ _. True) w"
proof (cases "is_Exception e")
  case False
  then show ?thesis by (simp add: execution_failed_def wp_simps)
next
  case True
  from assms(3) show ?thesis
  proof
    assume a: "t' = t \<and> (is_Exception e \<longrightarrow> F e)"
    have "wp (handle_execution_failure x t (exn_str e))
      (\<lambda>_ w'. ends_with P F (tasks (dbv w') (task_id t))) (\<lambda>_ _. True) w"
      by (rule wp_mono [OF handle_execution_failure_wp [OF assms(2,1) refl]])
        (use a True in \<open>auto simp: retry_post_def dead_letter_post_def ends_with_def split: if_splits\<close>)
    then show ?thesis using a True by (simp add: execution_failed_def)
  next
    assume "task_status t' = COMPLETED"
    then show ?thesis using True
      by (auto simp: execution_failed_def intro!: wp_mono [OF handle_completed_wp])
  qed
qed

lemma execution_cleanup_outcome:
  "Q (tasks (dbv w) i) \<Longrightarrow>
     wp (execution_cleanup x t start) (\<lambda>_ w'. Q (tasks (dbv w') i)) (\<lambda>_ _. True) w"
  by (rule wp_mono [OF cleanup_wp]) auto

lemma execution_body_outcome:
  assumes "running t wid t1" and "0 \<le> priority t"
    and "\<And>w. wp (run_executor te t1) (\<lambda>r _. P r) (\<lambda>e _. is_Exception e \<longrightarrow> F e) w"
  shows "wp (try_finally (try_except (run_and_complete x te t1) (execution_failed x)) (execution_cleanup x t1 start))
    (\<lambda>_ w'. ends_with P F (tasks (dbv w') (task_id t))) (\<lambda>_ _. True) w"
proof -
  have t1: "task_status t1 = RUNNING" "0 \<le> priority t1" "task_id t1 = task_id t"
    using assms(1,2) by (auto simp: running_def)
  have clean: "wp (execution_cleanup x t1 start) (\<lambda>_ w'. ends_with P F (tasks (dbv w') (task_id t))) (\<lambda>_ _. True) w1"
    if "ends_with P F (tasks (dbv w1) (task_id t))" for w1
    using that by (rule execution_cleanup_outcome)
  have stop: "wp (execution_cleanup x t1 start) (\<lambda>_ _. True) (\<lambda>_ _. True) w1" for w1
    by (rule wp_any)
  have fail: "wp (execution_failed x et)
      (\<lambda>_ w'. wp (execution_cleanup x t1 start) (\<lambda>_ w'. ends_with P F (tasks (dbv w') (task_id t))) (\<lambda>_ _. True) w')
      (\<lambda>_. wp (execution_cleanup x t1 start) (\<lambda>_ _. True) (\<lambda>_ _. True)) w1"
    if "case et of (e, t') \<Rightarrow> t' = t1 \<and> (is_Exception e \<longrightarrow> F e) \<or> task_status t' = COMPLETED" for et w1
    using that
    by (cases et) (auto intro!: wp_mono [OF execution_failed_outcome [where F = F and P = P, OF t1(1,2)]] clean stop simp: t1(3))
  show ?thesis
    unfolding wp_try_finally wp_try_except
    by (rule wp_mono [OF run_and_complete_outcome [OF t1(1,2) assms(3)]])
      (auto simp: t1(3) intro!: clean fail split: prod.splits)
qed

lemma execute_task_outcome:
  assumes "task_status t = QUEUED" and "0 \<le> priority t" and "task_id t \<notin> cancelled (qv w)"
    and "\<And>t1 w. running t wid t1 \<Longrightarrow> wp (run_executor te t1) (\<lambda>r _. P r) (\<lambda>e _. is_Exception e \<longrightarrow> F e) w"
  shows "wp (execute_task x te t wid)
    (\<lambda>_ w'. ends_with P F (tasks (dbv w') (task_id t))) (\<lambda>_ _. True) w"
proof -
  have start: "running t wid (t\<lparr>task_status := RUNNING, updated_at := Some n, worker_id := Some wid, started_at := Some m\<rparr>)"
    for n m by (auto simp: running_def)
  show ?thesis
    unfolding execute_task_def wp_andThen Let_def
    by (rule is_cancelled_rule)
      (auto simp: assms(1-3) wp_simps
        intro!: transition_rule wp_rules execution_body_outcome [unfolded wp_simps, OF start assms(2) assms(4) [OF start]])
qed

text \<open>Frames.\<close>

lemma framed_run_executor [frame_rules]: "framed dbv qv is (run_executor te t) (\<lambda>_. True) (\<lambda>_. True)"
  by (rule framed_contract [OF run_isolated]) (auto intro: keeps_frame)

lemma framed_run_and_complete [frame_rules]:
  assumes "0 \<le> priority t"
  shows "framed dbv qv is (run_and_complete x te t) (\<lambda>_. True)
     (\<lambda>(e, t'). task_id t' = task_id t \<and> 0 \<le> priority t')"
proof -
  have "framed dbv qv is (andThen (run_executor te t) (\<lambda>result.
        andThen (transition x t COMPLETED) (\<lambda>t'.
        andThen (now (svc_rt x)) (\<lambda>n.
        ret (t'\<lparr>task_result := Some result, finished_at := Some n, task_error := None\<rparr>)))))
     (\<lambda>t'. task_id t' = task_id t \<and> 0 \<le> priority t') (\<lambda>_. True)"
    by (rule frame_rules | clarsimp simp: assms)+
  then have run: "framed dbv qv is (raising_with t (andThen (run_executor te t) (\<lambda>result.
        andThen (transition x t COMPLETED) (\<lambda>t'.
        andThen (now (svc_rt x)) (\<lambda>n.
        ret (t'\<lparr>task_result := Some result, finished_at := Some n, task_error := None\<rparr>))))))
     (\<lambda>t'. task_id t' = task_id t \<and> 0 \<le> priority t') (\<lambda>(e, t'). task_id t' = task_id t \<and> 0 \<le> priority t')"
    by (rule framed_raising_with) (simp add: assms)
  show ?thesis
    unfolding run_and_complete_def
    by (rule framed_andThen [OF run]) (rule frame_rules | clarsimp)+
qed

lemma framed_execution_failed:
  "task_id t' \<in> is \<Longrightarrow> 0 \<le> priority t' \<Longrightarrow>
     framed dbv qv is (execution_failed x (e, t')) (\<lambda>_. True) (\<lambda>_. True)"
  unfolding execution_failed_def
  by (auto intro!: framed_throw framed_weaken [OF framed_handle_execution_failure])

lemma framed_execute_task [frame_rules]:
  assumes "0 \<le> priority t" and "task_id t \<in> is"
  shows "framed dbv qv is (execute_task x te t wid) (\<lambda>_. True) (\<lambda>_. True)"
proof -
  have body: "framed dbv qv is (try_except (run_and_complete x te t') (execution_failed x)) (\<lambda>_. True) (\<lambda>_. True)"
    if "0 \<le> priority t'" "task_id t' \<in> is" for t'
    using that
    by (auto intro!: framed_try_except [OF framed_run_and_complete] framed_execution_failed)
  show ?thesis
    unfolding execute_task_def execute_cancelled_def execution_cleanup_def
    by (rule body frame_rules | use assms in clarsimp)+
qed

end

end
