(* ===== verification/Queue_Manager.thy ===== *)
theory Queue_Manager
  imports Services
begin

text \<open>
  \<^verbatim>\<open>QueueManager\<close> of \<^verbatim>\<open>application/services/queue_manager.py\<close>: submitting a task,
  reading tasks and their events, the administrator's retry of a dead task, and the retry of
  tasks that could not be enqueued.
\<close>

section \<open>The request\<close>

record SubmitTaskRequest =
  r_name :: string
  r_executor_type :: string
  r_payload :: pydict
  r_priority :: int
  r_scheduled_at :: "pydatetime option"
  r_max_retries :: int
  r_timeout_seconds :: int
  r_backoff_policy :: "BackoffPolicy option"
  r_idempotency_key :: "string option"

section \<open>Submitting\<close>

text \<open>
  \<^verbatim>\<open>datetime.timestamp()\<close>. A time without zone never gets here: comparing it with the
  clock has raised before.
\<close>

fun timestamp :: "pydatetime \<Rightarrow> int" where
  "timestamp (Aware t) = t"
| "timestamp (Naive t) = t"

text \<open>\<^verbatim>\<open>_enqueue\<close>: an exception carries the task as far as it was mutated.\<close>

definition enqueue :: "'w Services \<Rightarrow> Task \<Rightarrow> ('w, exn \<times> Task, Task) program" where
  "enqueue x t =
     andThen (raising_with t
       (andThen (now (svc_rt x)) (\<lambda>n.
        andThen (from_sum (in_future (scheduled_at t) n)) (\<lambda>future.
        if future then
          andThen (qb_enqueue_scheduled (svc_queue x) (task_id t) (timestamp (the (scheduled_at t)))) (\<lambda>_.
          transition x t SCHEDULED)
        else
          andThen (qb_enqueue_ready (svc_queue x) (task_id t) (priority t)) (\<lambda>_.
          transition x t QUEUED))))) (\<lambda>t'.
     raising_with t'
       (andThen (save x t') (\<lambda>_.
        andThen (append_event x t' ''task.enqueued'' (Some (task_status t)) None None) (\<lambda>_.
        ret t'))))"

definition create_task ::
  "'w Services \<Rightarrow> SubmitTaskRequest \<Rightarrow> ExecutorType \<Rightarrow> int \<Rightarrow> ('w, Task) prog" where
  "create_task x r ex prio =
     andThen (now (svc_rt x)) (\<lambda>n.
     andThen (from_sum (in_future (r_scheduled_at r) n)) (\<lambda>_.
     andThen (uuid4 (svc_rt x)) (\<lambda>new_id.
     from_sum (Task_create n new_id (r_name r) ex (r_payload r) prio (r_max_retries r)
       (r_scheduled_at r) (r_timeout_seconds r) (r_backoff_policy r) (r_idempotency_key r)))))"

text \<open>The \<^verbatim>\<open>except Exception\<close> branch of \<^verbatim>\<open>submit\<close>.\<close>

definition enqueue_failed :: "'w Services \<Rightarrow> exn \<times> Task \<Rightarrow> ('w, Task) prog" where
  "enqueue_failed x et =
     (case et of (e, t) \<Rightarrow>
        if is_Exception e then
          andThen (transition x t ENQUEUE_FAILED) (\<lambda>t'.
          andThen (save x t') (\<lambda>_.
          andThen (append_event x t' ''task.enqueue_failed'' (Some (task_status t)) (Some (exn_str e)) None) (\<lambda>_.
          throw (EnqueueFailedError (exn_str e)))))
        else throw e)"

definition payload_size :: "pydict \<Rightarrow> int" where
  "payload_size p = utf8_len (py_str (PDict p))"

definition submit :: "'w Services \<Rightarrow> SubmitTaskRequest \<Rightarrow> ('w, Task) prog" where
  "submit x r =
     andThen
       (case r_idempotency_key r of
          None \<Rightarrow> ret None
        | Some k \<Rightarrow> if k = [] then ret None else tr_get_by_idempotency_key (svc_repo x) k)
     (\<lambda>existing. case existing of
         Some t \<Rightarrow> ret t
       | None \<Rightarrow>
         if max_payload_bytes (svc_st x) < payload_size (r_payload r)
         then throw (PayloadTooLargeError (max_payload_bytes (svc_st x)))
         else
           andThen (from_sum (ExecutorType_of (r_executor_type r))) (\<lambda>ex.
           andThen (from_sum (Priority (r_priority r))) (\<lambda>prio.
           andThen (create_task x r ex prio) (\<lambda>t.
           andThen (save x t) (\<lambda>_.
           andThen (append_event x t ''task.submitted'' None None (Some [(''name'', PStr (task_name t))])) (\<lambda>_.
           andThen (try_except (enqueue x t) (enqueue_failed x)) (\<lambda>t.
           andThen (metric (svc_rt x)
             (TASKS_SUBMITTED (task_name t) (ExecutorType_value (executor_type t)))) (\<lambda>_.
           ret t))))))))"

section \<open>Reading\<close>

definition get_task :: "'w Services \<Rightarrow> TaskId \<Rightarrow> ('w, Task option) prog" where
  "get_task x i = tr_get_by_id (svc_repo x) i"

definition list_tasks :: "'w Services \<Rightarrow> task_query \<Rightarrow> ('w, Task list) prog" where
  "list_tasks x q = tr_list_tasks (svc_repo x) q"

definition count_tasks :: "'w Services \<Rightarrow> TaskStatus option \<Rightarrow> string option \<Rightarrow> ('w, int) prog" where
  "count_tasks x s n = tr_count_tasks (svc_repo x) s n"

definition get_task_events :: "'w Services \<Rightarrow> TaskId \<Rightarrow> ('w, TaskEvent list) prog" where
  "get_task_events x i =
     andThen (get_task_or_raise x i) (\<lambda>_. er_list_for_task (svc_evs x) i)"

record AdminStats =
  tasks_by_status :: "(string \<times> int) list"
  queue_depths :: "(string \<times> int) list"
  active_workers :: int

definition get_admin_stats :: "'w Services \<Rightarrow> ('w, AdminStats) prog" where
  "get_admin_stats x =
     andThen (tr_count_by_status (svc_repo x)) (\<lambda>by_status.
     andThen (qb_queue_depths (svc_queue x)) (\<lambda>depths.
     andThen (qb_get_active_workers (svc_queue x)) (\<lambda>active_redis.
     ret \<lparr>tasks_by_status = by_status, queue_depths = depths,
          active_workers = int (length active_redis)\<rparr>)))"

section \<open>Retrying\<close>

definition retriable :: "TaskStatus \<Rightarrow> bool" where
  "retriable s \<longleftrightarrow> s = DEAD_LETTER \<or> s = FAILED"

definition retry_task :: "'w Services \<Rightarrow> TaskId \<Rightarrow> ('w, Task) prog" where
  "retry_task x i =
     andThen (get_task_or_raise x i) (\<lambda>t.
       if \<not> retriable (task_status t)
       then throw (InvalidTaskStateError (''Task '' @ TaskId_str i @
              '' is not in a retriable state: '' @ TaskStatus_value (task_status t)))
       else
         andThen (transition x (t\<lparr>task_error := None, attempts := 0, worker_id := None,
             started_at := None, finished_at := None\<rparr>) QUEUED) (\<lambda>t'.
         andThen (qb_enqueue_ready (svc_queue x) (task_id t') (priority t')) (\<lambda>_.
         andThen (save x t') (\<lambda>_.
         andThen (append_event x t' ''task.retried'' (Some (task_status t)) None None) (\<lambda>_.
         andThen (metric (svc_rt x) TASKS_RETRIED) (\<lambda>_.
         ret t'))))))"

definition reconcile_enqueue_failed :: "'w Services \<Rightarrow> int \<Rightarrow> ('w, int) prog" where
  "reconcile_enqueue_failed x batch_size =
     andThen (list_tasks x (default_task_query\<lparr>q_status := Some ENQUEUE_FAILED, q_limit := batch_size\<rparr>)) (\<lambda>ts.
     for_each ts (\<lambda>t count.
       try_except (andThen (enqueue x t) (\<lambda>_. ret (count + 1)))
         (\<lambda>(e, _). if is_Exception e then ret count else throw e)) 0)"

section \<open>Contracts\<close>

definition enqueue_status :: "bool \<Rightarrow> TaskStatus" where
  "enqueue_status future = (if future then SCHEDULED else QUEUED)"

definition enqueue_effect :: "int \<Rightarrow> bool \<Rightarrow> Task \<Rightarrow> queue_view \<Rightarrow> queue_view" where
  "enqueue_effect levels future t v =
     (if future then v\<lparr>scheduled := (scheduled v)(task_id t \<mapsto> timestamp (the (scheduled_at t)))\<rparr>
      else push_ready levels (task_id t) (priority t) v)"

text \<open>
  What \<^verbatim>\<open>_enqueue\<close> leaves when it returns, \<open>c\<close> being its clock reading.
\<close>

definition enqueued ::
  "'w Services \<Rightarrow> ('w \<Rightarrow> db_view) \<Rightarrow> ('w \<Rightarrow> queue_view) \<Rightarrow> Task \<Rightarrow> 'w \<Rightarrow> Task \<Rightarrow> 'w \<Rightarrow> bool" where
  "enqueued x dbv qv t w t' w' \<longleftrightarrow>
     (\<exists>c n k e future.
        reads x c \<and> in_future (scheduled_at t) c = Inr future \<and>
        enqueue_status future \<in> set (allowed (task_status t)) \<and>
        t' = t\<lparr>task_status := enqueue_status future, updated_at := Some n\<rparr> \<and>
        qv w' = enqueue_effect (priority_levels (svc_st x)) future t (qv w) \<and>
        dbv w' = put_event e (put_task k t' (dbv w)) \<and>
        event_type e = ''task.enqueued'' \<and> ev_task_id e = task_id t \<and>
        from_status e = Some (task_status t) \<and> to_status e = Some (task_status t'))"

text \<open>
  Why it may stop: a port failed, the time of the task has no zone, or the status it is about
  to set is not allowed. The task it had then is \<open>t\<close> itself or \<open>t\<close> with the new status.
\<close>

definition enqueue_stopped :: "'w Services \<Rightarrow> (exn \<Rightarrow> bool) \<Rightarrow> Task \<Rightarrow> exn \<times> Task \<Rightarrow> bool" where
  "enqueue_stopped x pe t et \<longleftrightarrow>
     (case et of (e, t') \<Rightarrow>
        (t' = t \<and> (pe e \<or> (\<exists>c. reads x c \<and> in_future (scheduled_at t) c = Inl e) \<or>
           (\<exists>c future m. reads x c \<and> in_future (scheduled_at t) c = Inr future \<and>
              enqueue_status future \<notin> set (allowed (task_status t)) \<and> e = ValueError m))) \<or>
        (pe e \<and> (\<exists>c future n. reads x c \<and> in_future (scheduled_at t) c = Inr future \<and>
           enqueue_status future \<in> set (allowed (task_status t)) \<and>
           t' = t\<lparr>task_status := enqueue_status future, updated_at := Some n\<rparr>)))"

lemma enqueuedI:
  assumes "reads x c" and "in_future (scheduled_at t) c = Inr future"
    and "enqueue_status future \<in> set (allowed (task_status t))"
    and "qv w' = enqueue_effect (priority_levels (svc_st x)) future t (qv w)"
    and "dbv w' = put_event e (put_task k (t\<lparr>task_status := enqueue_status future, updated_at := Some n\<rparr>) (dbv w))"
    and "event_type e = ''task.enqueued''" and "ev_task_id e = task_id t"
    and "from_status e = Some (task_status t)" and "to_status e = Some (enqueue_status future)"
  shows "enqueued x dbv qv t w (t\<lparr>task_status := enqueue_status future, updated_at := Some n\<rparr>) w'"
  unfolding enqueued_def using assms by (intro exI conjI) (assumption | simp)+

lemma enqueued_now:
  assumes "enqueued x dbv qv t w t' w'" and "scheduled_at t = None"
  obtains n k e where "t' = t\<lparr>task_status := QUEUED, updated_at := Some n\<rparr>"
    "qv w' = push_ready (priority_levels (svc_st x)) (task_id t) (priority t) (qv w)"
    "dbv w' = put_event e (put_task k t' (dbv w))" "event_type e = ''task.enqueued''" "ev_task_id e = task_id t"
proof -
  from assms(1) obtain c n k e future where "in_future (scheduled_at t) c = Inr future"
    and *: "t' = t\<lparr>task_status := enqueue_status future, updated_at := Some n\<rparr>"
    "qv w' = enqueue_effect (priority_levels (svc_st x)) future t (qv w)"
    "dbv w' = put_event e (put_task k t' (dbv w))" "event_type e = ''task.enqueued''" "ev_task_id e = task_id t"
    unfolding enqueued_def by blast
  then have "\<not> future" using assms(2) by (simp add: in_future_def)
  with * show thesis by (intro that) (simp_all add: enqueue_status_def enqueue_effect_def)
qed

lemma Task_create_Inl:
  "Task_create c i nm ex pl prio retries sched tmo policy key = Inl e \<longleftrightarrow> in_future sched c = Inl e"
  by (simp add: Task_create_def split: sum.split)

lemma enqueue_stoppedI:
  "pe e \<Longrightarrow> enqueue_stopped x pe t (e, t)"
  "reads x c \<Longrightarrow> in_future (scheduled_at t) c = Inl e \<Longrightarrow> enqueue_stopped x pe t (e, t)"
  "pe e \<Longrightarrow> reads x c \<Longrightarrow> in_future (scheduled_at t) c = Inr future \<Longrightarrow>
     enqueue_status future \<in> set (allowed (task_status t)) \<Longrightarrow>
     enqueue_stopped x pe t (e, t\<lparr>task_status := enqueue_status future, updated_at := Some n\<rparr>)"
  "reads x c \<Longrightarrow> in_future (scheduled_at t) c = Inr future \<Longrightarrow> enqueue_status future \<notin> set (allowed (task_status t)) \<Longrightarrow>
     enqueue_stopped x pe t (ValueError m, t)"
  by (auto simp: enqueue_stopped_def)

lemma Task_create_Inr:
  assumes "Task_create c i nm ex pl prio retries sched tmo policy key = Inr t"
  shows "task_id t = i" "priority t = prio" "attempts t = 0" "payload t = pl" "task_name t = nm"
    "max_retries t = retries" "scheduled_at t = sched" "idempotency_key t = key" "executor_type t = ex"
    "timeout_seconds t = tmo" "in_future sched c = Inr (task_status t = SCHEDULED)"
    "task_status t = PENDING \<or> task_status t = SCHEDULED"
    "worker_id t = None" "task_result t = None" "task_error t = None"
    "backoff_policy t = (case policy of None \<Rightarrow> default_BackoffPolicy | Some p \<Rightarrow> p)"
    "started_at t = None" "finished_at t = None"
  using assms by (auto simp: Task_create_def split: sum.splits if_splits)

text \<open>
  A task that stands for request \<open>r\<close>, queued and not yet tried: every field of the request, the
  executor type as the enumeration reads it and the default policy where the request has none.
\<close>

definition queued_as :: "SubmitTaskRequest \<Rightarrow> Task \<Rightarrow> bool" where
  "queued_as r t \<longleftrightarrow>
     task_status t = QUEUED \<and> attempts t = 0 \<and> task_name t = r_name r \<and> payload t = r_payload r \<and>
     Inr (executor_type t) = ExecutorType_of (r_executor_type r) \<and>
     priority t = r_priority r \<and> max_retries t = r_max_retries r \<and>
     timeout_seconds t = r_timeout_seconds r \<and> scheduled_at t = r_scheduled_at r \<and>
     backoff_policy t = (case r_backoff_policy r of None \<Rightarrow> default_BackoffPolicy | Some p \<Rightarrow> p) \<and>
     idempotency_key t = r_idempotency_key r \<and>
     worker_id t = None \<and> task_result t = None \<and> task_error t = None \<and>
     started_at t = None \<and> finished_at t = None"

text \<open>
  What a submission under identifier \<open>i\<close> adds to a table \<open>ts\<close> and a journal \<open>es\<close>: one row, and
  the two events of that task. Should \<^verbatim>\<open>uuid4()\<close> have repeated the identifier of a row, that
  row is overwritten, all but its key.
\<close>

definition adds_submission ::
  "SubmitTaskRequest \<Rightarrow> TaskId \<Rightarrow> (TaskId \<Rightarrow> Task option) \<Rightarrow> TaskEvent list \<Rightarrow>
   (TaskId \<Rightarrow> Task option) \<Rightarrow> TaskEvent list \<Rightarrow> bool" where
  "adds_submission r i ts es ts' es' \<longleftrightarrow>
     (\<exists>row. ts' = ts(i \<mapsto> row) \<and> task_id row = i \<and>
        queued_as r (row\<lparr>idempotency_key := r_idempotency_key r\<rparr>) \<and> (ts i = None \<longrightarrow> queued_as r row)) \<and>
     (\<exists>e1 e2. es' = es @ [e1, e2] \<and> event_type e1 = ''task.submitted'' \<and> event_type e2 = ''task.enqueued'' \<and>
        ev_task_id e1 = i \<and> ev_task_id e2 = i)"

lemma enqueue_stopped_priority:
  "enqueue_stopped x pe t (e, t') \<Longrightarrow> 0 \<le> priority t \<Longrightarrow> 0 \<le> priority t'"
  by (auto simp: enqueue_stopped_def)

context services
begin

lemma framed_enqueue [frame_rules]:
  "0 \<le> priority t \<Longrightarrow> task_id t \<in> is \<Longrightarrow>
     framed dbv qv is (enqueue x t) (\<lambda>t'. task_id t' = task_id t \<and> 0 \<le> priority t')
       (\<lambda>(e, t'). task_id t' = task_id t \<and> 0 \<le> priority t')"
  unfolding enqueue_def by (rule frame_rules | clarsimp)+

lemma enqueue_wp:
  assumes "0 \<le> priority t"
  shows "wp (enqueue x t) (enqueued x dbv qv t w)
    (\<lambda>et _. enqueue_stopped x pe t et) w"
proof -
  have step: "wp (transition x t (enqueue_status future)) (\<lambda>t'. wp (save x t') (\<lambda>_.
      wp (append_event x t' ''task.enqueued'' (Some (task_status t)) None None)
        (\<lambda>_. enqueued x dbv qv t w t') (\<lambda>e _. enqueue_stopped x pe t (e, t')))
      (\<lambda>e _. enqueue_stopped x pe t (e, t'))) (\<lambda>e _. enqueue_stopped x pe t (e, t)) w1"
    if f: "reads x c" "in_future (scheduled_at t) c = Inr future" and w1: "dbv w1 = dbv w"
      "qv w1 = enqueue_effect (priority_levels (svc_st x)) future t (qv w)" for w1 c future
  proof (cases "enqueue_status future \<in> set (allowed (task_status t))")
    case True
    then show ?thesis
      by (rule transition_rule)
        (auto intro!: wp_rules enqueuedI [OF f True] enqueue_stoppedI(3) [OF _ f True] simp: w1 assms)
  next
    case False
    then show ?thesis
      by (rule transition_error) (rule enqueue_stoppedI(4) [OF f False])
  qed
  show ?thesis
    unfolding enqueue_def wp_simps
    by (rule now_rule)
      (auto split: sum.split intro!: enqueue_scheduled_rule enqueue_ready_rule
        step [of _ True, unfolded enqueue_status_def if_True]
        step [of _ False, unfolded enqueue_status_def if_False]
        simp: enqueue_effect_def intro: enqueue_stoppedI)
qed

lemma enqueue_failed_wp:
  assumes "0 \<le> priority t"
  shows "wp (enqueue_failed x (e, t)) (\<lambda>_ _. False)
    (\<lambda>e' _. pe e' \<or> (if \<not> is_Exception e then e' = e
       else if ENQUEUE_FAILED \<in> set (allowed (task_status t)) then e' = EnqueueFailedError (exn_str e)
       else (\<exists>m. e' = ValueError m))) w"
proof (cases "is_Exception e \<and> ENQUEUE_FAILED \<in> set (allowed (task_status t))")
  case True
  then show ?thesis
    by (auto simp: enqueue_failed_def wp_simps assms intro!: transition_rule wp_rules)
next
  case False
  then show ?thesis
    by (auto simp: enqueue_failed_def wp_simps intro!: transition_error)
qed

lemma create_task_wp:
  "wp (create_task x r ex prio)
     (\<lambda>t w'. dbv w' = dbv w \<and> qv w' = qv w \<and>
        (\<exists>c i. reads x c \<and> mints x i \<and> Task_create c i (r_name r) ex (r_payload r) prio (r_max_retries r) (r_scheduled_at r)
           (r_timeout_seconds r) (r_backoff_policy r) (r_idempotency_key r) = Inr t))
     (\<lambda>e _. \<exists>c. reads x c \<and> in_future (r_scheduled_at r) c = Inl e) w"
  unfolding create_task_def wp_simps
  by (rule now_rule)
    (auto intro!: uuid4_rule simp: Task_create_Inl split: sum.split, (intro exI conjI; assumption))

text \<open>Looking for an earlier task with the request's key.\<close>

lemma lookup_key_wp:
  assumes "\<And>w'. keeps dbv qv w w' \<Longrightarrow>
        \<forall>k. r_idempotency_key r = Some k \<longrightarrow> k \<noteq> [] \<longrightarrow> (\<forall>i t. tasks (dbv w) i = Some t \<longrightarrow> idempotency_key t \<noteq> Some k) \<Longrightarrow>
        Q None w'"
    and "\<And>k i t w'. keeps dbv qv w w' \<Longrightarrow> r_idempotency_key r = Some k \<Longrightarrow> k \<noteq> [] \<Longrightarrow>
        tasks (dbv w) i = Some t \<Longrightarrow> idempotency_key t = Some k \<Longrightarrow> Q (Some t) w'"
    and "\<And>e w'. pe e \<Longrightarrow> frame dbv qv {} w w' \<Longrightarrow> E e w'"
  shows "wp (case r_idempotency_key r of None \<Rightarrow> ret None
     | Some k \<Rightarrow> if k = [] then ret None else tr_get_by_idempotency_key (svc_repo x) k) Q E w"
proof (cases "\<exists>k. r_idempotency_key r = Some k \<and> k \<noteq> []")
  case True
  then obtain k where k: "r_idempotency_key r = Some k" "k \<noteq> []" by blast
  have "wp (tr_get_by_idempotency_key (svc_repo x) k) Q E w"
  proof (rule contract_wp [OF get_by_idempotency_key])
    fix t w'
    assume "keeps dbv qv w w' \<and> (case t of None \<Rightarrow> \<forall>i t. tasks (dbv w) i = Some t \<longrightarrow> idempotency_key t \<noteq> Some k
      | Some t \<Rightarrow> idempotency_key t = Some k \<and> (\<exists>i. tasks (dbv w) i = Some t))"
    then show "Q t w'" using k by (cases t) (auto intro: assms(1,2))
  qed (auto intro: assms(3) db_failed_frame)
  with k show ?thesis by simp
next
  case False
  then show ?thesis
    by (cases "r_idempotency_key r") (auto simp: wp_simps keeps_def intro!: assms(1))
qed

text \<open>A known key: the earlier task comes back, and nothing else happens.\<close>

lemma submit_known_key_wp:
  assumes "r_idempotency_key r = Some k" and "k \<noteq> []"
    and "tasks (dbv w) i = Some t" and "idempotency_key t = Some k"
  shows "wp (submit x r)
    (\<lambda>t' w'. keeps dbv qv w w' \<and> idempotency_key t' = Some k \<and> (\<exists>j. tasks (dbv w) j = Some t'))
    (\<lambda>e w'. pe e \<and> frame dbv qv {} w w') w"
  unfolding submit_def wp_andThen
  by (rule lookup_key_wp) (use assms in \<open>auto simp: wp_simps\<close>)

lemma submit_too_large_wp:
  assumes "max_payload_bytes (svc_st x) < payload_size (r_payload r)"
    and "\<And>k i t. r_idempotency_key r = Some k \<Longrightarrow> k \<noteq> [] \<Longrightarrow> tasks (dbv w) i = Some t \<Longrightarrow>
      idempotency_key t \<noteq> Some k"
  shows "wp (submit x r) (\<lambda>_ _. False)
    (\<lambda>e w'. pe e \<and> frame dbv qv {} w w' \<or>
       e = PayloadTooLargeError (max_payload_bytes (svc_st x)) \<and> keeps dbv qv w w') w"
  unfolding submit_def wp_andThen
  by (rule lookup_key_wp) (use assms in \<open>auto simp: wp_simps\<close>)

text \<open>An executor type or a priority that the domain does not know.\<close>

lemma submit_invalid_wp:
  assumes "\<And>k i t. r_idempotency_key r = Some k \<Longrightarrow> k \<noteq> [] \<Longrightarrow> tasks (dbv w) i = Some t \<Longrightarrow>
      idempotency_key t \<noteq> Some k"
    and "payload_size (r_payload r) \<le> max_payload_bytes (svc_st x)"
    and "ExecutorType_of (r_executor_type r) = Inl e0 \<or> r_priority r < 0"
  shows "wp (submit x r) (\<lambda>_ _. False)
    (\<lambda>e w'. pe e \<and> frame dbv qv {} w w' \<or> (\<exists>m. e = ValueError m) \<and> keeps dbv qv w w') w"
  unfolding submit_def wp_andThen
  by (rule lookup_key_wp)
    (use assms in \<open>auto simp: wp_simps Priority_def ExecutorType_of_def invalid_value_def split: option.split\<close>)

text \<open>
  A new task: what the steps before \<^verbatim>\<open>_enqueue\<close> have done, and what follows from the
  outcome of \<^verbatim>\<open>_enqueue\<close> on the created task \<open>t\<close>.
\<close>

lemma submit_new_wp:
  assumes new: "\<And>k i t. r_idempotency_key r = Some k \<Longrightarrow> k \<noteq> [] \<Longrightarrow> tasks (dbv w) i = Some t \<Longrightarrow>
      idempotency_key t \<noteq> Some k"
    and size: "payload_size (r_payload r) \<le> max_payload_bytes (svc_st x)"
    and ex: "ExecutorType_of (r_executor_type r) = Inr ex" and prio: "0 \<le> r_priority r"
    and returns: "\<And>c i t k1 e1 w1 t' w2 w3. reads x c \<Longrightarrow> mints x i \<Longrightarrow> Task_create c i (r_name r) ex (r_payload r) (r_priority r)
        (r_max_retries r) (r_scheduled_at r) (r_timeout_seconds r) (r_backoff_policy r)
        (r_idempotency_key r) = Inr t \<Longrightarrow>
      dbv w1 = put_event e1 (put_task k1 t (dbv w)) \<Longrightarrow> qv w1 = qv w \<Longrightarrow>
      event_type e1 = ''task.submitted'' \<Longrightarrow> ev_task_id e1 = task_id t \<Longrightarrow> enqueued x dbv qv t w1 t' w2 \<Longrightarrow>
      dbv w3 = dbv w2 \<Longrightarrow> qv w3 = qv w2 \<Longrightarrow> Q t' w3"
    and stops: "\<And>c i t e t' e' w'. reads x c \<Longrightarrow> Task_create c i (r_name r) ex (r_payload r) (r_priority r)
        (r_max_retries r) (r_scheduled_at r) (r_timeout_seconds r) (r_backoff_policy r)
        (r_idempotency_key r) = Inr t \<Longrightarrow> enqueue_stopped x pe t (e, t') \<Longrightarrow>
      pe e' \<or> (if \<not> is_Exception e then e' = e
         else if ENQUEUE_FAILED \<in> set (allowed (task_status t')) then e' = EnqueueFailedError (exn_str e)
         else (\<exists>m. e' = ValueError m)) \<Longrightarrow> E e' w'"
    and fails: "\<And>e w'. pe e \<or> (\<exists>c. reads x c \<and> in_future (r_scheduled_at r) c = Inl e) \<Longrightarrow> E e w'"
  shows "wp (submit x r) Q E w"
  unfolding submit_def wp_andThen
proof (rule lookup_key_wp, goal_cases)
  case (1 w0)
  then have w0: "dbv w0 = dbv w" "qv w0 = qv w" by (simp_all add: keeps_def)
  have p: "Priority (r_priority r) = Inr (r_priority r)" using prio by (simp add: Priority_def)
  have after: "wp (enqueue x t) (\<lambda>t'. wp (metric (svc_rt x) (M t')) (\<lambda>_. Q t') E)
      (\<lambda>et. wp (enqueue_failed x et) (\<lambda>t'. wp (metric (svc_rt x) (M t')) (\<lambda>_. Q t') E) E) w2"
    if rc: "reads x c" and new_id: "mints x i" and create: "Task_create c i (r_name r) ex (r_payload r) (r_priority r) (r_max_retries r) (r_scheduled_at r)
        (r_timeout_seconds r) (r_backoff_policy r) (r_idempotency_key r) = Inr t"
      and w2: "dbv w2 = put_event e1 (put_task k1 t (dbv w))" "qv w2 = qv w" "event_type e1 = ''task.submitted''"
        "ev_task_id e1 = task_id t"
    for c i t w2 e1 k1 M
  proof (rule wp_mono [OF enqueue_wp])
    show pt: "0 \<le> priority t" using Task_create_Inr(2) [OF create] prio by simp
    show "wp (metric (svc_rt x) (M t')) (\<lambda>_. Q t') E w3"
      if "enqueued x dbv qv t w2 t' w3" for t' w3
      using returns [OF rc new_id create w2 that] by (rule metric_rule)
    fix et w3 assume stop: "enqueue_stopped x pe t et"
    obtain e t' where et: "et = (e, t')" by (cases et)
    then have "0 \<le> priority t'" using stop pt by (auto intro: enqueue_stopped_priority)
    then show "wp (enqueue_failed x et) (\<lambda>t'. wp (metric (svc_rt x) (M t')) (\<lambda>_. Q t') E) E w3"
      unfolding et by (rule wp_mono [OF enqueue_failed_wp]) (use stops [OF rc create] stop et in auto)
  qed
  show ?case
    using size
    by (simp add: wp_simps ex p del: wp_if, intro wp_mono [OF create_task_wp])
      (auto intro!: save_rule append_rule after fails simp: w0 dest: Task_create_Inr(2) simp: prio)
next
  case (2 k i t w')
  with new show ?case by blast
next
  case (3 e w')
  then show ?case by (simp add: fails)
qed

text \<open>The created task's status and its second clock reading decide the rest.\<close>

lemma submit_immediate_wp:
  assumes "\<And>k i t. r_idempotency_key r = Some k \<Longrightarrow> k \<noteq> [] \<Longrightarrow> tasks (dbv w) i = Some t \<Longrightarrow>
      idempotency_key t \<noteq> Some k"
    and "payload_size (r_payload r) \<le> max_payload_bytes (svc_st x)"
    and "ExecutorType_of (r_executor_type r) = Inr ex" and "0 \<le> r_priority r"
    and "r_scheduled_at r = None"
  shows "wp (submit x r)
    (\<lambda>t w'. queued_as r t \<and>
       adds_submission r (task_id t) (tasks (dbv w)) (events (dbv w)) (tasks (dbv w')) (events (dbv w')) \<and>
       qv w' = push_ready (priority_levels (svc_st x)) (task_id t) (r_priority r) (qv w))
    (\<lambda>e _. pe e \<or> (\<exists>e' m. pe e' \<and> (e = EnqueueFailedError m \<or> e = ValueError m))) w"
proof (rule submit_new_wp [OF _ assms(2-4)], goal_cases)
  case (1 k i t)
  with assms(1) show ?case by blast
next
  case (2 c i t k1 e1 w1 t' w2 w3)
  from 2(8) obtain n k e where e: "t' = t\<lparr>task_status := QUEUED, updated_at := Some n\<rparr>"
    "qv w2 = push_ready (priority_levels (svc_st x)) (task_id t) (priority t) (qv w1)"
    "dbv w2 = put_event e (put_task k t' (dbv w1))" "event_type e = ''task.enqueued''" "ev_task_id e = task_id t"
    by (rule enqueued_now) (simp add: Task_create_Inr(7) [OF 2(3)] assms(5))
  note create = Task_create_Inr [OF 2(3)]
  have t: "queued_as r t'" using create assms(3) by (simp add: e(1) queued_as_def)
  let ?row = "stored k (tasks (dbv w1) (task_id t)) t'"
  have key: "idempotency_key ?row = (case tasks (dbv w) (task_id t) of None \<Rightarrow> r_idempotency_key r
      | Some old \<Rightarrow> idempotency_key old)"
    unfolding 2(4) using create(8) by (simp add: stored_def Let_def split: option.split)
  have row: "tasks (dbv w3) = (tasks (dbv w))(task_id t' \<mapsto> ?row)" "task_id ?row = task_id t'"
    "queued_as r (?row\<lparr>idempotency_key := r_idempotency_key r\<rparr>)"
    "tasks (dbv w) (task_id t') = None \<Longrightarrow> queued_as r ?row"
    using t key unfolding 2(9) e(3) 2(4) by (simp_all add: e(1) queued_as_def)
  have "events (dbv w3) = events (dbv w) @ [e1, e]"
    unfolding 2(9) e(3) 2(4) by simp
  with row have "adds_submission r (task_id t') (tasks (dbv w)) (events (dbv w)) (tasks (dbv w3)) (events (dbv w3))"
    unfolding adds_submission_def using 2(6,7) e(1,4,5) by auto
  moreover have "qv w3 = push_ready (priority_levels (svc_st x)) (task_id t') (r_priority r) (qv w)"
    unfolding 2(10) e(2) 2(5) using create(2) by (simp add: e(1))
  ultimately show ?case using t by blast
next
  case (3 c i t e t' e' w')
  have "pe e" using 3(3) Task_create_Inr [OF 3(2)] assms(5)
    by (auto simp: enqueue_stopped_def in_future_def enqueue_status_def)
  with 3(4) show ?case by (auto split: if_splits)
next
  case (4 e w')
  then show ?case using assms(5) by (auto simp: in_future_def)
qed

text \<open>A task for the future: \<^verbatim>\<open>Task.create\<close> makes it SCHEDULED, and no task becomes SCHEDULED twice.\<close>

lemma submit_future_wp:
  assumes "\<And>k i t. r_idempotency_key r = Some k \<Longrightarrow> k \<noteq> [] \<Longrightarrow> tasks (dbv w) i = Some t \<Longrightarrow>
      idempotency_key t \<noteq> Some k"
    and "payload_size (r_payload r) \<le> max_payload_bytes (svc_st x)"
    and "ExecutorType_of (r_executor_type r) = Inr ex" and "0 \<le> r_priority r"
    and "r_scheduled_at r = Some (Aware s)" and "\<And>c. reads x c \<Longrightarrow> c < s"
  shows "wp (submit x r) (\<lambda>_ _. False) (\<lambda>e _. pe e \<or> (\<exists>m. e = EnqueueFailedError m)) w"
proof (rule submit_new_wp [OF _ assms(2-4)], goal_cases)
  case (1 k i t)
  with assms(1) show ?case by blast
next
  case (2 c i t k1 e1 w1 t' w2 w3)
  have "task_status t = SCHEDULED" using Task_create_Inr(11) [OF 2(3)] assms(5,6) 2(1)
    by (simp add: in_future_def)
  with 2(8) show ?case using Task_create_Inr(7) [OF 2(3)] assms(5,6)
    by (auto simp: enqueued_def in_future_def enqueue_status_def)
next
  case (3 c i t e t' e' w')
  have st: "task_status t = SCHEDULED" using Task_create_Inr(11) [OF 3(2)] assms(5,6) 3(1)
    by (simp add: in_future_def)
  then have "task_status t' = SCHEDULED \<and> (pe e \<or> (\<exists>m. e = ValueError m))"
    using 3(3) assms(5,6) Task_create_Inr(7) [OF 3(2)]
    by (auto simp: enqueue_stopped_def in_future_def enqueue_status_def)
  with 3(4) show ?case by (auto simp: is_Exception_def split: if_splits)
next
  case (4 e w')
  then show ?case using assms(5) by (auto simp: in_future_def)
qed

lemma retry_task_wp:
  assumes "tasks (dbv w) i = Some t" and "retriable (task_status t)"
  shows "wp (retry_task x i)
    (\<lambda>t' w'. (\<exists>n k e. t' = t\<lparr>task_error := None, attempts := 0, worker_id := None, started_at := None,
         finished_at := None, task_status := QUEUED, updated_at := Some n\<rparr> \<and>
       dbv w' = put_event e (put_task k t' (dbv w)) \<and> event_type e = ''task.retried'' \<and>
       ev_task_id e = i \<and> from_status e = Some (task_status t) \<and> to_status e = Some QUEUED \<and>
       qv w' = push_ready (priority_levels (svc_st x)) i (priority t) (qv w)))
    (\<lambda>e _. pe e) w"
proof -
  have "QUEUED \<in> set (allowed (task_status t))" using assms(2) by (auto simp: retriable_def)
  then show ?thesis
    unfolding retry_task_def wp_simps
    by (intro get_task_or_raise_rule)
      (use assms in \<open>auto simp: wp_simps intro!: transition_rule wp_rules\<close>, blast)
qed

lemma retry_task_rejects_wp:
  assumes "\<And>t. tasks (dbv w) i = Some t \<Longrightarrow> \<not> retriable (task_status t)"
  shows "wp (retry_task x i) (\<lambda>_ _. False)
    (\<lambda>e w'. pe e \<and> frame dbv qv {} w w' \<or> keeps dbv qv w w' \<and>
       (case tasks (dbv w) i of
          None \<Rightarrow> e = TaskNotFoundError (TaskId_str i)
        | Some t \<Rightarrow> (\<exists>m. e = InvalidTaskStateError m))) w"
  unfolding retry_task_def wp_simps
  by (intro get_task_or_raise_rule) (use assms in \<open>auto simp: wp_simps keeps_def\<close>)

text \<open>Over rows none of which is ENQUEUE_FAILED there is nothing to enqueue again.\<close>

lemma list_rule [wp_rules]:
  assumes "\<And>ts w'. keeps dbv qv w w' \<Longrightarrow> int (length ts) \<le> max 0 (q_limit q) \<Longrightarrow>
      (\<And>t. t \<in> set ts \<Longrightarrow> (\<exists>i. tasks (dbv w) i = Some t) \<and>
         (case q_status q of None \<Rightarrow> True | Some s \<Rightarrow> task_status t = s)) \<Longrightarrow> Q ts w'"
    and "\<And>e w'. pe e \<Longrightarrow> frame dbv qv {} w w' \<Longrightarrow> E e w'"
  shows "wp (list_tasks x q) Q E w"
  unfolding list_tasks_def
  by (rule contract_wp [OF list_tasks]) (auto intro: assms db_failed_frame)

lemma reconcile_enqueue_failed_idle_wp:
  assumes "\<And>i t. tasks (dbv w) i = Some t \<Longrightarrow> task_status t \<noteq> ENQUEUE_FAILED"
  shows "wp (reconcile_enqueue_failed x n) (\<lambda>r w'. r = 0 \<and> keeps dbv qv w w')
    (\<lambda>e w'. pe e \<and> frame dbv qv {} w w') w"
  unfolding reconcile_enqueue_failed_def wp_andThen
proof (rule list_rule)
  fix ts w'
  assume k: "keeps dbv qv w w'" and ts: "\<And>t. t \<in> set ts \<Longrightarrow> (\<exists>i. tasks (dbv w) i = Some t) \<and>
    (case q_status (default_task_query\<lparr>q_status := Some ENQUEUE_FAILED, q_limit := n\<rparr>) of None \<Rightarrow> True
     | Some s \<Rightarrow> task_status t = s)"
  have "ts = []" using ts assms by (cases ts) fastforce+
  then show "wp (for_each ts (\<lambda>t count. try_except (andThen (enqueue x t) (\<lambda>_. ret (count + 1)))
      (\<lambda>(e, _). if is_Exception e then ret count else throw e)) 0)
    (\<lambda>r w'. r = 0 \<and> keeps dbv qv w w') (\<lambda>e w'. pe e \<and> frame dbv qv {} w w') w'"
    using k by (simp add: wp_simps)
qed simp

text \<open>Nothing is durable before the commit, whatever happens.\<close>

lemma framed_create_task [frame_rules]:
  "0 \<le> prio \<Longrightarrow> framed dbv qv is (create_task x r ex prio) (\<lambda>t. 0 \<le> priority t \<and> mints x (task_id t)) (\<lambda>_. True)"
  unfolding create_task_def
  by (rule frame_rules | (rule framed_weaken [OF framed_from_sum]; auto dest: Task_create_Inr(1,2)))+

lemma framed_enqueue_failed [frame_rules]:
  "(case et of (e, t) \<Rightarrow> 0 \<le> priority t) \<Longrightarrow>
     framed dbv qv is (enqueue_failed x et) (\<lambda>_. True) (\<lambda>_. True)"
  unfolding enqueue_failed_def by (rule frame_rules | clarsimp)+

lemma framed_submit [frame_rules]:
  assumes "\<And>i. mints x i \<Longrightarrow> i \<in> is"
  shows "framed dbv qv is (submit x r) (\<lambda>_. True) (\<lambda>_. True)"
proof -
  have e: "framed dbv qv is (try_except (enqueue x t) (enqueue_failed x)) (\<lambda>_. True) (\<lambda>_. True)"
    if "0 \<le> priority t \<and> mints x (task_id t)" for t
    using that assms
    by (intro framed_try_except [OF framed_weaken [OF framed_enqueue]] framed_enqueue_failed) auto
  have key: "framed dbv qv is (case r_idempotency_key r of None \<Rightarrow> ret None
      | Some k \<Rightarrow> if k = [] then ret None else tr_get_by_idempotency_key (svc_repo x) k) (\<lambda>_. True) (\<lambda>_. True)"
    by (auto intro: frame_rules split: option.split)
  show ?thesis
    unfolding submit_def
    by (rule framed_andThen [OF key])
      (rule e frame_rules | clarsimp simp: Priority_def split: if_splits)+
qed

end

end
