(* ===== verification/Lifecycle.thy ===== *)
theory Lifecycle
  imports Failure_Handler
begin

text \<open>
  The services of \<^verbatim>\<open>application/services/queue_manager.py\<close> beside the queue manager: the
  cancellation service, the scheduler service that releases due tasks, the worker registry
  and the in-flight reconciler.
\<close>

section \<open>Cancellation\<close>

definition cancel :: "'w Services \<Rightarrow> TaskId \<Rightarrow> ('w, Task) prog" where
  "cancel x i =
     andThen (get_task_or_raise x i) (\<lambda>t.
       if task_status t \<in> {COMPLETED, CANCELLED, DEAD_LETTER}
       then throw (InvalidTaskStateError (''Task '' @ TaskId_str i @
              '' cannot be cancelled in status '' @ TaskStatus_value (task_status t)))
       else
         andThen (qb_mark_cancelled (svc_queue x) i) (\<lambda>_.
         andThen (if task_status t = SCHEDULED then qb_remove_scheduled (svc_queue x) i else ret ()) (\<lambda>_.
         andThen (transition x t CANCELLED) (\<lambda>t'.
         andThen (now (svc_rt x)) (\<lambda>n.
         let t' = t'\<lparr>finished_at := Some n\<rparr> in
         andThen (save x t') (\<lambda>_.
         andThen (append_event x t' ''task.cancelled'' (Some (task_status t)) None None) (\<lambda>_.
         andThen (metric (svc_rt x) TASKS_CANCELLED) (\<lambda>_.
         ret t'))))))))"

section \<open>The scheduler\<close>

definition release :: "'w Services \<Rightarrow> TaskId \<Rightarrow> int \<Rightarrow> ('w, int) prog" where
  "release x i processed =
     andThen (tr_get_by_id (svc_repo x) i) (\<lambda>t. case t of
       None \<Rightarrow> ret processed
     | Some t \<Rightarrow>
         if task_status t \<noteq> SCHEDULED then ret processed
         else
           andThen (qb_enqueue_ready (svc_queue x) (task_id t) (priority t)) (\<lambda>_.
           andThen (transition x t QUEUED) (\<lambda>t'.
           andThen (save x t') (\<lambda>_.
           andThen (append_event x t' ''task.scheduled_release'' (Some (task_status t)) None None) (\<lambda>_.
           ret (processed + 1))))))"

definition process_due_tasks :: "'w Services \<Rightarrow> ('w, int) prog" where
  "process_due_tasks x =
     andThen (qb_claim_due_scheduled (svc_queue x) (scheduler_batch_size (svc_st x))) (\<lambda>due_ids.
     for_each due_ids (release x) 0)"

section \<open>Workers\<close>

definition register_worker ::
  "'w Services \<Rightarrow> string \<Rightarrow> (string \<times> string) list option \<Rightarrow> ('w, Worker) prog" where
  "register_worker x host metadata =
     andThen (now (svc_rt x)) (\<lambda>n.
     andThen (uuid4 (svc_rt x)) (\<lambda>new_id.
     let worker = Worker_create n new_id host metadata in
     andThen (wr_save (svc_workers x) worker) (\<lambda>_.
     andThen (qb_set_worker_heartbeat (svc_queue x) (uuid_str (w_id worker)) [(''hostname'', host)]) (\<lambda>_.
     ret worker))))"

definition heartbeat :: "'w Services \<Rightarrow> string \<Rightarrow> string \<Rightarrow> ('w, unit) prog" where
  "heartbeat x wid host =
     andThen (from_sum (TaskId_from_string wid)) (\<lambda>u.
     andThen (wr_get_by_id (svc_workers x) u) (\<lambda>worker.
     andThen (case worker of
         None \<Rightarrow> ret ()
       | Some w \<Rightarrow>
           andThen (now (svc_rt x)) (\<lambda>n.
           andThen (wr_save (svc_workers x) (Worker_heartbeat n w)) (\<lambda>_. ret ()))) (\<lambda>_.
     qb_set_worker_heartbeat (svc_queue x) wid [(''hostname'', host)])))"

definition list_workers :: "'w Services \<Rightarrow> int \<Rightarrow> ('w, Worker list) prog" where
  "list_workers x limit = wr_list_workers (svc_workers x) limit"

definition mark_stale :: "'w Services \<Rightarrow> int \<Rightarrow> ('w, int) prog" where
  "mark_stale x stale_seconds = wr_mark_stale_offline (svc_workers x) stale_seconds"

section \<open>The in-flight reconciler\<close>

text \<open>\<^verbatim>\<open>task.started_at and now - task.started_at > timedelta(seconds=task.timeout_seconds + 30)\<close>\<close>

definition timed_out :: "'w Services \<Rightarrow> Task \<Rightarrow> ('w, bool) prog" where
  "timed_out x t =
     (case started_at t of
        None \<Rightarrow> ret False
      | Some s \<Rightarrow>
          andThen (now (svc_rt x)) (\<lambda>n.
          andThen (from_sum (timedelta_seconds (timeout_seconds t + 30))) (\<lambda>d.
          ret (d < n - s))))"

definition reconcile_one :: "'w Services \<Rightarrow> TaskId \<Rightarrow> int \<Rightarrow> ('w, int) prog" where
  "reconcile_one x i requeued =
     andThen (tr_get_by_id (svc_repo x) i) (\<lambda>t. case t of
       None \<Rightarrow> andThen (qb_clear_inflight (svc_queue x) i) (\<lambda>_. ret requeued)
     | Some t \<Rightarrow>
         if task_status t \<noteq> RUNNING then andThen (qb_clear_inflight (svc_queue x) i) (\<lambda>_. ret requeued)
         else
           andThen (timed_out x t) (\<lambda>late.
           if late then andThen (handle_timeout x t) (\<lambda>_. ret (requeued + 1))
           else ret requeued))"

definition reconcile :: "'w Services \<Rightarrow> ('w, int) prog" where
  "reconcile x =
     andThen (qb_get_inflight_task_ids (svc_queue x)) (\<lambda>inflight_ids.
     for_each inflight_ids (reconcile_one x) 0)"

section \<open>Contracts\<close>

definition cancel_queues :: "TaskId \<Rightarrow> TaskStatus \<Rightarrow> queue_view \<Rightarrow> queue_view" where
  "cancel_queues i s v =
     (let v' = v\<lparr>cancelled := insert i (cancelled v)\<rparr>
      in if s = SCHEDULED then unschedule {i} v' else v')"

text \<open>
  What a scheduler tick does to one claimed identifier, given the tasks \<open>ts\<close> that the tick
  sees: only a SCHEDULED task is pushed onto its ready list and becomes QUEUED.
\<close>

definition releasable :: "(TaskId \<Rightarrow> Task option) \<Rightarrow> TaskId \<Rightarrow> bool" where
  "releasable ts i \<longleftrightarrow> (\<exists>t. ts i = Some t \<and> task_status t = SCHEDULED)"

fun push_released :: "int \<Rightarrow> (TaskId \<Rightarrow> Task option) \<Rightarrow> TaskId list \<Rightarrow> queue_view \<Rightarrow> queue_view" where
  "push_released levels ts [] v = v"
| "push_released levels ts (i # is) v =
     push_released levels ts is
       (if releasable ts i then push_ready levels i (priority (the (ts i))) v else v)"

lemma push_released_append:
  "push_released levels ts (is @ js) v = push_released levels ts js (push_released levels ts is v)"
  by (induction "is" arbitrary: v) auto

text \<open>A task row that differs from \<open>t\<close> in its status and its update time only.\<close>

definition requeued :: "Task \<Rightarrow> Task \<Rightarrow> bool" where
  "requeued t t' \<longleftrightarrow> (\<exists>u. t' = t\<lparr>task_status := QUEUED, updated_at := u\<rparr>)"

definition released :: "(TaskId \<Rightarrow> Task option) \<Rightarrow> TaskId list \<Rightarrow> (TaskId \<Rightarrow> Task option) \<Rightarrow> bool" where
  "released ts is ts' \<longleftrightarrow>
     (\<forall>i. if i \<in> set is \<and> releasable ts i
          then (\<exists>t'. ts' i = Some t' \<and> requeued (the (ts i)) t')
          else ts' i = ts i)"

lemma released_push:
  "released ts is us \<Longrightarrow> releasable ts i \<Longrightarrow> requeued (the (ts i)) t' \<Longrightarrow>
     released ts (is @ [i]) (us(i \<mapsto> t'))"
  by (simp add: released_def)

lemma released_skip: "released ts is us \<Longrightarrow> \<not> releasable ts i \<Longrightarrow> released ts (is @ [i]) us"
  unfolding released_def by (metis Un_iff empty_iff list.set set_append set_ConsD)

lemma requeued_stored:
  "requeued t (stored k (Some t) (t\<lparr>task_status := QUEUED, updated_at := Some n\<rparr>))"
  by (simp add: requeued_def stored_def Let_def) blast

context services
begin

lemma framed_cancel [frame_rules]:
  "framed dbv qv {i} (cancel x i) (\<lambda>t. task_id t = i) (\<lambda>_. True)"
  unfolding cancel_def by (rule frame_rules | clarsimp)+

lemma cancel_wp:
  assumes "tasks (dbv w) i = Some t" and "task_status t \<in> {PENDING, SCHEDULED, QUEUED, RUNNING}"
  shows "wp (cancel x i)
    (\<lambda>t' w'. (\<exists>n f k e. t' = t\<lparr>task_status := CANCELLED, updated_at := Some n, finished_at := Some f\<rparr> \<and>
       dbv w' = put_event e (put_task k t' (dbv w)) \<and> event_type e = ''task.cancelled'' \<and>
       ev_task_id e = i \<and> from_status e = Some (task_status t) \<and> to_status e = Some CANCELLED \<and>
       qv w' = cancel_queues i (task_status t) (qv w)))
    (\<lambda>e _. pe e) w"
proof -
  have ok: "task_status t \<notin> {COMPLETED, CANCELLED, DEAD_LETTER}" "CANCELLED \<in> set (allowed (task_status t))"
    using assms(2) by auto
  show ?thesis
    unfolding cancel_def wp_simps Let_def
    by (rule get_task_or_raise_rule)
      (use assms(1) ok(1) in \<open>auto simp: cancel_queues_def wp_simps
        intro!: mark_cancelled_rule remove_scheduled_rule transition_rule [OF ok(2)] now_rule save_rule
          append_rule metric_rule\<close>, blast+)
qed

lemma cancel_rejects_wp:
  assumes "tasks (dbv w) i = Some t" and "task_status t \<in> {COMPLETED, CANCELLED, DEAD_LETTER}"
  shows "wp (cancel x i) (\<lambda>_ _. False)
    (\<lambda>e w'. pe e \<or> (\<exists>m. e = InvalidTaskStateError m) \<and> keeps dbv qv w w') w"
  unfolding cancel_def wp_simps
  by (intro get_task_or_raise_rule) (use assms in \<open>auto simp: wp_simps keeps_def\<close>)

lemma cancel_missing_wp:
  assumes "tasks (dbv w) i = None"
  shows "wp (cancel x i) (\<lambda>_ _. False)
    (\<lambda>e w'. pe e \<or> e = TaskNotFoundError (TaskId_str i) \<and> keeps dbv qv w w') w"
  unfolding cancel_def wp_simps
  by (intro get_task_or_raise_rule) (use assms in \<open>auto simp: keeps_def\<close>)

lemma cancel_failed_wp:
  assumes "tasks (dbv w) i = Some t" and "task_status t \<in> {FAILED, ENQUEUE_FAILED}"
  shows "wp (cancel x i) (\<lambda>_ _. False)
    (\<lambda>e w'. pe e \<and> frame dbv qv {i} w w' \<or> (\<exists>m. e = ValueError m) \<and> dbv w' = dbv w \<and>
       qv w' = (qv w)\<lparr>cancelled := insert i (cancelled (qv w))\<rparr>) w"
proof -
  have "CANCELLED \<notin> set (allowed (task_status t))" using assms(2) by auto
  then show ?thesis
    unfolding cancel_def wp_simps Let_def
    by (intro get_task_or_raise_rule)
      (use assms in \<open>auto simp: wp_simps intro!: transition_error mark_cancelled_rule
        intro: frame_mono\<close>, auto simp: frame_def)
qed

lemma claim_due_rule:
  assumes "\<And>due n w'. dbv w' = dbv w \<Longrightarrow> qv w' = unschedule (set due) (qv w) \<Longrightarrow>
      claimable limit n (qv w) due \<Longrightarrow> Q due w'"
    and "\<And>e w'. pe e \<Longrightarrow> E e w'"
  shows "wp (qb_claim_due_scheduled (svc_queue x) limit) Q E w"
  by (rule contract_wp [OF claim_due]) (auto intro: assms)

lemma release_wp:
  assumes "released ts is (tasks (dbv w))" and "i \<notin> set is"
    and "qv w = push_released (priority_levels (svc_st x)) ts is v"
    and "s = int (length (filter (releasable ts) is))"
  shows "wp (release x i s)
    (\<lambda>s' w'. released ts (is @ [i]) (tasks (dbv w')) \<and>
       qv w' = push_released (priority_levels (svc_st x)) ts (is @ [i]) v \<and>
       s' = int (length (filter (releasable ts) (is @ [i]))))
    (\<lambda>e _. pe e) w"
  (is "wp _ ?Q _ w")
  unfolding release_def wp_andThen
proof (rule get_rule)
  have row: "tasks (dbv w) i = ts i" using assms(1,2) by (auto simp: released_def)
  fix w1 assume w1: "dbv w1 = dbv w" "qv w1 = qv w"
  show "wp (case tasks (dbv w) i of
      None \<Rightarrow> ret s
    | Some t \<Rightarrow> if task_status t \<noteq> SCHEDULED then ret s
         else andThen (qb_enqueue_ready (svc_queue x) (task_id t) (priority t)) (\<lambda>_.
           andThen (transition x t QUEUED) (\<lambda>t'. andThen (save x t') (\<lambda>_.
           andThen (append_event x t' ''task.scheduled_release'' (Some (task_status t)) None None) (\<lambda>_.
           ret (s + 1)))))) ?Q (\<lambda>e _. pe e) w1"
  proof (cases "releasable ts i")
    case False
    with assms(1) have "released ts (is @ [i]) (tasks (dbv w))" by (rule released_skip)
    then show ?thesis using False assms(3,4) w1 row
      by (auto simp: push_released_append wp_simps releasable_def split: option.split)
  next
    case True
    then obtain t where t: "tasks (dbv w) i = Some t" "ts i = Some t" "task_status t = SCHEDULED"
      using row by (auto simp: releasable_def)
    then have id: "task_id t = i" "0 \<le> priority t" using stored_task by auto
    have "released ts (is @ [i]) ((tasks (dbv w))(i \<mapsto> stored k (Some t) (t\<lparr>task_status := QUEUED, updated_at := Some n\<rparr>)))"
      for k n
      by (rule released_push [OF assms(1) True]) (simp add: t requeued_stored)
    then show ?thesis using t id assms(3,4) w1 True
      by (auto simp: wp_simps push_released_append intro!: enqueue_ready_rule transition_rule save_rule append_rule)
  qed
qed simp

lemma process_due_tasks_wp:
  "wp (process_due_tasks x)
    (\<lambda>r w'. \<exists>due n. claimable (scheduler_batch_size (svc_st x)) n (qv w) due \<and>
       released (tasks (dbv w)) due (tasks (dbv w')) \<and>
       qv w' = push_released (priority_levels (svc_st x)) (tasks (dbv w)) due (unschedule (set due) (qv w)) \<and>
       r = int (length (filter (releasable (tasks (dbv w))) due)))
    (\<lambda>e _. pe e) w"
  (is "wp _ ?Q _ w")
  unfolding process_due_tasks_def wp_andThen
proof (rule claim_due_rule)
  fix due n w1
  assume w1: "dbv w1 = dbv w" "qv w1 = unschedule (set due) (qv w)"
    and due: "claimable (scheduler_batch_size (svc_st x)) n (qv w) due"
  let ?I = "\<lambda>is s w'. released (tasks (dbv w)) is (tasks (dbv w')) \<and>
    qv w' = push_released (priority_levels (svc_st x)) (tasks (dbv w)) is (unschedule (set due) (qv w)) \<and>
    s = int (length (filter (releasable (tasks (dbv w))) is))"
  have "wp (for_each due (release x) 0) (?I due) (\<lambda>e _. pe e) w1"
  proof (rule wp_for_each_prefix [where I = ?I])
    show "?I [] 0 w1" by (simp add: w1 released_def)
    fix ys y zs s w2 assume "due = ys @ y # zs" and I: "?I ys s w2"
    then have "y \<notin> set ys" using due by (auto simp: claimable_def)
    with I show "wp (release x y s) (?I (ys @ [y])) (\<lambda>e _. pe e) w2" by (intro release_wp) auto
  qed
  then show "wp (for_each due (release x) 0) ?Q (\<lambda>e _. pe e) w1"
    by (rule wp_mono) (use due in auto)
qed

text \<open>Over rows none of which is RUNNING, the reconciler only clears in-flight markers.\<close>

lemma reconcile_idle_wp:
  assumes "\<And>i t. tasks (dbv w) i = Some t \<Longrightarrow> task_status t \<noteq> RUNNING"
  shows "wp (reconcile x) (\<lambda>r w'. r = 0 \<and> keeps dbv qv w w')
    (\<lambda>e w'. unreadable pe e \<and> frame dbv qv {} w w') w"
  unfolding reconcile_def wp_andThen
proof (rule get_inflight_rule)
  fix ids w1 assume w1: "dbv w1 = dbv w" "qv w1 = qv w"
  show "wp (for_each ids (reconcile_one x) 0) (\<lambda>r w'. r = 0 \<and> keeps dbv qv w w')
      (\<lambda>e w'. unreadable pe e \<and> frame dbv qv {} w w') w1"
  proof (rule wp_for_each)
    fix i and s :: int and w2 assume k: "s = 0 \<and> keeps dbv qv w w2"
    show "wp (reconcile_one x i s) (\<lambda>r w'. r = 0 \<and> keeps dbv qv w w')
        (\<lambda>e w'. unreadable pe e \<and> frame dbv qv {} w w') w2"
      unfolding reconcile_one_def wp_simps
      by (intro get_rule)
        (use assms k in \<open>auto simp: keeps_def frame_def wp_simps intro!: clear_inflight_rule split: option.split\<close>)
  qed (simp add: w1 keeps_def)
qed simp

end

end
