(* ===== verification/Worker_Pool.thy ===== *)
theory Worker_Pool
  imports Container Executor Queue_Manager Lifecycle
begin

text \<open>
  \<^verbatim>\<open>worker/pool.py\<close> and \<^verbatim>\<open>worker/main.py\<close>: one task from the ready queue to the end of
  its session, the heartbeat, and the pool's semaphore. A pool program runs over the world
  paired with the semaphore's value.
\<close>

section \<open>Programs of the pool\<close>

definition lifted :: "('w, 'e, 'a) program \<Rightarrow> ('w \<times> 's, 'e, 'a) program" where
  "lifted m ws = (case ws of (w, s) \<Rightarrow> (case m w of (r, w') \<Rightarrow> (r, (w', s))))"

lemma wp_lifted [wp_simps]:
  "wp (lifted m) Q E = (\<lambda>(w, s). wp m (\<lambda>r w'. Q r (w', s)) (\<lambda>e w'. E e (w', s)) w)"
  by (rule ext) (auto simp: wp_def lifted_def split: prod.splits sum.splits)

definition semaphore_release :: "('w \<times> int, unit) prog" where
  "semaphore_release ws = (Inr (), (fst ws, snd ws + 1))"

lemma wp_semaphore_release [wp_simps]:
  "wp semaphore_release Q E = (\<lambda>(w, s). Q () (w, s + 1))"
  by (rule ext) (auto simp: wp_def semaphore_release_def)

text \<open>The body of the session in \<^verbatim>\<open>_process_task\<close>.\<close>

definition process_body ::
  "'w Container \<Rightarrow> 'w TaskExecutors \<Rightarrow> string \<Rightarrow> TaskId \<Rightarrow> ('w, unit) prog" where
  "process_body c te wid i =
     (let x = container_services c in
      andThen (get_task x i) (\<lambda>t. case t of
        None \<Rightarrow> ret ()
      | Some t \<Rightarrow>
          if task_status t \<noteq> QUEUED then ret ()
          else execute_task x te t wid))"

definition process_task ::
  "'w Container \<Rightarrow> 'w TaskExecutors \<Rightarrow> string \<Rightarrow> TaskId \<Rightarrow> ('w \<times> int, unit) prog" where
  "process_task c te wid i =
     try_finally
       (except_Exception (lifted (session c (process_body c te wid i))) (\<lambda>_. ret ()))
       semaphore_release"

text \<open>One turn of \<^verbatim>\<open>_consume_loop\<close> up to the semaphore; \<^verbatim>\<open>None\<close> is a turn without a task.\<close>

definition consume_dequeue :: "'w Container \<Rightarrow> ('w, TaskId option) prog" where
  "consume_dequeue c =
     try_except (qb_dequeue_ready (queue_backend c) 5)
       (\<lambda>e. case e of
          RedisTimeoutError _ \<Rightarrow> ret None
        | RedisConnectionError _ \<Rightarrow> ret None
        | _ \<Rightarrow> throw e)"

text \<open>One turn of \<^verbatim>\<open>_heartbeat_loop\<close>.\<close>

definition heartbeat_turn :: "'w Container \<Rightarrow> string \<Rightarrow> string \<Rightarrow> ('w, unit) prog" where
  "heartbeat_turn c wid host =
     except_Exception (session c (heartbeat (container_services c) wid host)) (\<lambda>_. ret ())"

text \<open>The registration in \<^verbatim>\<open>run_worker\<close>: the pool's worker id is the registered one.\<close>

definition register_at_start :: "'w Container \<Rightarrow> string \<Rightarrow> string \<Rightarrow> ('w, string) prog" where
  "register_at_start c wid host =
     session c
       (andThen (register_worker (container_services c) host (Some [(''worker_id'', wid)])) (\<lambda>worker.
        ret (uuid_str (w_id worker))))"

section \<open>The pool as a transition system\<close>

text \<open>
  \<open>idle\<close> consumers wait for the queue, the \<open>waiting\<close> identifiers have been taken off it and
  wait for the semaphore, the \<open>active\<close> ones run as tasks of the event loop. A consumer that
  has got the semaphore starts the task and goes back to the queue.
\<close>

record Pool =
  semaphore :: int
  idle :: nat
  waiting :: "TaskId list"
  active :: "TaskId list"

definition WorkerPool :: "nat \<Rightarrow> Pool" where
  "WorkerPool concurrency = \<lparr>semaphore = int concurrency, idle = concurrency, waiting = [], active = []\<rparr>"

inductive pool_step :: "Pool \<Rightarrow> Pool \<Rightarrow> bool" where
  dequeued: "0 < idle p \<Longrightarrow> pool_step p (p\<lparr>idle := idle p - 1, waiting := waiting p @ [i]\<rparr>)"
| acquired: "waiting p = i # rest \<Longrightarrow> 0 < semaphore p \<Longrightarrow>
    pool_step p (p\<lparr>semaphore := semaphore p - 1, waiting := rest, active := i # active p, idle := idle p + 1\<rparr>)"
| processed: "i \<in> set (active p) \<Longrightarrow>
    pool_step p (p\<lparr>semaphore := semaphore p + 1, active := remove1 i (active p)\<rparr>)"

inductive pool_reachable :: "nat \<Rightarrow> Pool \<Rightarrow> bool" for n where
  start: "pool_reachable n (WorkerPool n)"
| step: "pool_reachable n p \<Longrightarrow> pool_step p p' \<Longrightarrow> pool_reachable n p'"

lemma pool_invariant:
  assumes "pool_reachable n p"
  shows "semaphore p = int n - int (length (active p)) \<and> 0 \<le> semaphore p \<and>
    idle p + length (waiting p) = n"
  using assms
proof (induction rule: pool_reachable.induct)
  case start
  then show ?case by (simp add: WorkerPool_def)
next
  case (step p p')
  from step(2) show ?case
  proof cases
    case (processed i)
    then have "1 \<le> length (active p)" by (cases "active p") auto
    with processed step(3) show ?thesis by (auto simp: length_remove1)
  qed (use step(3) in auto)
qed

text \<open>
  \<^verbatim>\<open>run_worker\<close> up to \<^verbatim>\<open>pool.run()\<close>: the configured name of the worker, or a fresh one, goes into the
  metadata of its row, and the pool gets the row's identifier and its semaphore, which refuses a
  negative value. Importing the module of the task handlers is a parameter.
\<close>

definition start_worker :: "'w Container \<Rightarrow> string \<Rightarrow> ('w, unit) prog \<Rightarrow> ('w, string \<times> Pool) prog" where
  "start_worker c host load_tasks =
     andThen (if cfg_worker_id (c_settings c) \<noteq> [] then ret (cfg_worker_id (c_settings c))
              else andThen (uuid4 (c_runtime c)) (\<lambda>u. ret (uuid_str u))) (\<lambda>wid.
     andThen load_tasks (\<lambda>_.
     andThen (register_at_start c wid host) (\<lambda>worker_id.
     if worker_concurrency (c_settings c) < 0 then throw (ValueError ''Semaphore initial value must be >= 0'')
     else ret (worker_id, WorkerPool (nat (worker_concurrency (c_settings c)))))))"

section \<open>Processing one task\<close>

text \<open>
  The pool's worker never lets an \<^verbatim>\<open>Exception\<close> out, and gives its semaphore slot back
  exactly once, whatever the session and the task code do.
\<close>

lemma process_task_slot:
  "wp (process_task c te wid i) (\<lambda>_ (w', s'). s' = s + 1)
     (\<lambda>e (w', s'). s' = s + 1 \<and> \<not> is_Exception e) (w, s)"
  unfolding process_task_def
  by (simp add: wp_simps, rule wp_mono [OF wp_any]) (auto simp: wp_simps)

end
