(* ===== verification/Interruption.thy ===== *)
theory Interruption
  imports Worker_Pool
begin

text \<open>
  A process that is killed. Its world carries the number of operations it still gets to do:
  each command to the database or to Redis, and each run of task code, takes one, and once
  none is left every operation raises without any effect, so that what the exception handlers
  and the clean-up of the dying code attempt changes nothing either. All contracts of the
  container hold of the doomed container, with one more exception, so every theorem about the
  services applies to a process that dies at any of its operations.

  The same section holds the container in one step of which \<^verbatim>\<open>uuid4()\<close> draws given
  identifiers: the draws are the environment's, not a function of the deployment.
\<close>

section \<open>Operations of a process that may be killed\<close>

definition at_risk :: "('w, 'a) prog \<Rightarrow> ('w \<times> nat, 'a) prog" where
  "at_risk m wn =
     (case wn of (w, n) \<Rightarrow>
        (case n of
           0 \<Rightarrow> (Inl CancelledError, (w, 0))
         | Suc k \<Rightarrow> (case m w of (r, w') \<Rightarrow> (r, (w', k)))))"

text \<open>A change staged in the session's memory is sent with the next command.\<close>

definition staging :: "('w \<Rightarrow> 'w) \<Rightarrow> 'w \<times> nat \<Rightarrow> 'w \<times> nat" where
  "staging f wn = (case wn of (w, n) \<Rightarrow> if n = 0 then (w, 0) else (f w, n))"

definition killed :: "(exn \<Rightarrow> bool) \<Rightarrow> exn \<Rightarrow> bool" where
  "killed pe e \<longleftrightarrow> pe e \<or> e = CancelledError"

lemma killedI [simp, intro]: "pe e \<Longrightarrow> killed pe e" "killed pe CancelledError"
  by (simp_all add: killed_def)

definition doomed_runtime :: "'w runtime \<Rightarrow> ('w \<times> nat) runtime" where
  "doomed_runtime rt =
     \<lparr>rt_now = (\<lambda>(w, n). case rt_now rt w of (t, w') \<Rightarrow> (t, (w', n))),
      rt_uuid4 = (\<lambda>(w, n). case rt_uuid4 rt w of (u, w') \<Rightarrow> (u, (w', n))),
      rt_metric = (\<lambda>m (w, n). (rt_metric rt m w, n))\<rparr>"

definition doomed_session :: "'w SqlSession \<Rightarrow> ('w \<times> nat) SqlSession" where
  "doomed_session sq =
     \<lparr>sq_get_task = (\<lambda>i. at_risk (sq_get_task sq i)),
      sq_add_task = (\<lambda>m. staging (sq_add_task sq m)),
      sq_set_task = (\<lambda>m. staging (sq_set_task sq m)),
      sq_flush = at_risk (sq_flush sq),
      sq_task_by_key = (\<lambda>k. at_risk (sq_task_by_key sq k)),
      sq_select_tasks = (\<lambda>q. at_risk (sq_select_tasks sq q)),
      sq_count_tasks = (\<lambda>s n. at_risk (sq_count_tasks sq s n)),
      sq_count_by_status = at_risk (sq_count_by_status sq),
      sq_add_event = (\<lambda>e. staging (sq_add_event sq e)),
      sq_event_created_at = (\<lambda>i. at_risk (sq_event_created_at sq i)),
      sq_select_events = (\<lambda>i. at_risk (sq_select_events sq i)),
      sq_get_worker = (\<lambda>u. at_risk (sq_get_worker sq u)),
      sq_add_worker = (\<lambda>m. staging (sq_add_worker sq m)),
      sq_set_worker = (\<lambda>m. staging (sq_set_worker sq m)),
      sq_select_workers = (\<lambda>l. at_risk (sq_select_workers sq l)),
      sq_update_stale_workers = (\<lambda>c s. at_risk (sq_update_stale_workers sq c s)),
      sq_user_by_name = (\<lambda>n. at_risk (sq_user_by_name sq n)),
      sq_add_user = (\<lambda>n h r. staging (sq_add_user sq n h r)),
      sq_begin = (\<lambda>(w, n). (sq_begin sq w, n)),
      sq_commit = at_risk (sq_commit sq),
      sq_rollback = at_risk (sq_rollback sq),
      sq_close = at_risk (sq_close sq)\<rparr>"

definition doomed_redis :: "'w RedisClient \<Rightarrow> ('w \<times> nat) RedisClient" where
  "doomed_redis rc =
     \<lparr>rc_lpush = (\<lambda>k v. at_risk (rc_lpush rc k v)),
      rc_rpop = (\<lambda>k. at_risk (rc_rpop rc k)),
      rc_brpop = (\<lambda>ks t. at_risk (rc_brpop rc ks t)),
      rc_llen = (\<lambda>k. at_risk (rc_llen rc k)),
      rc_zadd = (\<lambda>k m s. at_risk (rc_zadd rc k m s)),
      rc_zrem = (\<lambda>k m. at_risk (rc_zrem rc k m)),
      rc_zrangebyscore = (\<lambda>k lo hi off cnt. at_risk (rc_zrangebyscore rc k lo hi off cnt)),
      rc_zcard = (\<lambda>k. at_risk (rc_zcard rc k)),
      rc_sadd = (\<lambda>k m. at_risk (rc_sadd rc k m)),
      rc_srem = (\<lambda>k m. at_risk (rc_srem rc k m)),
      rc_sismember = (\<lambda>k m. at_risk (rc_sismember rc k m)),
      rc_hset = (\<lambda>k fs. at_risk (rc_hset rc k fs)),
      rc_expire = (\<lambda>k t. at_risk (rc_expire rc k t)),
      rc_delete = (\<lambda>k. at_risk (rc_delete rc k)),
      rc_scan = (\<lambda>c p n. at_risk (rc_scan rc c p n)),
      rc_set_nx_ex = (\<lambda>k v t. at_risk (rc_set_nx_ex rc k v t)),
      rc_get = (\<lambda>k. at_risk (rc_get rc k)),
      rc_close = at_risk (rc_close rc),
      rc_script = (\<lambda>f. at_risk (rc_script rc f)),
      rs_zrangebyscore = rs_zrangebyscore rc,
      rs_zrem = rs_zrem rc\<rparr>"

definition doomed :: "'w Container \<Rightarrow> ('w \<times> nat) Container" where
  "doomed c = \<lparr>c_session = doomed_session (c_session c), c_redis = doomed_redis (c_redis c),
     c_runtime = doomed_runtime (c_runtime c), c_settings = c_settings c, c_scan_fuel = c_scan_fuel c\<rparr>"

text \<open>The task code of a dying worker: a handler, or a webhook, counts as one operation.\<close>

definition doomed_handler :: "'w TaskHandler \<Rightarrow> ('w \<times> nat) TaskHandler" where
  "doomed_handler h = \<lparr>h_name = h_name h, h_call = (\<lambda>p. at_risk (h_call h p))\<rparr>"

definition doomed_wait ::
  "(('w, pydict) prog \<Rightarrow> int \<Rightarrow> ('w, pydict) prog) \<Rightarrow> ('w \<times> nat, pydict) prog \<Rightarrow> int \<Rightarrow> ('w \<times> nat, pydict) prog" where
  "doomed_wait wait m s wn =
     (case wn of (w, n) \<Rightarrow>
        if n = 0 then (Inl CancelledError, (w, 0))
        else (case wait (\<lambda>v. case m (v, n) of (r, (v', _)) \<Rightarrow> (r, v')) s w of (r, w') \<Rightarrow> (r, (w', n - 1))))"

definition doomed_executors :: "'w TaskExecutors \<Rightarrow> ('w \<times> nat) TaskExecutors" where
  "doomed_executors te =
     \<lparr>te_registry = map (\<lambda>(k, h). (k, doomed_handler h)) (te_registry te),
      te_webhook = (\<lambda>t. at_risk (te_webhook te t)),
      te_wait_for = doomed_wait (te_wait_for te)\<rparr>"

section \<open>The contracts of a doomed process\<close>

lemma wp_at_risk:
  "wp (at_risk m) Q E (w, n) =
     (case n of 0 \<Rightarrow> E CancelledError (w, 0) | Suc k \<Rightarrow> wp m (\<lambda>r w'. Q r (w', k)) (\<lambda>e w'. E e (w', k)) w)"
  by (auto simp: wp_def at_risk_def split: nat.splits prod.splits sum.splits)

lemma contract_at_risk:
  assumes "contract m S F"
    and "\<And>w r w' n k. S w r w' \<Longrightarrow> S' (w, n) r (w', k)" and "\<And>w e w' n k. F w e w' \<Longrightarrow> F' (w, n) e (w', k)"
    and "\<And>w n. F' (w, n) CancelledError (w, 0)"
  shows "contract (at_risk m) S' F'"
proof (rule contractI)
  fix wn :: "'a \<times> nat"
  obtain w n where wn: "wn = (w, n)" by (cases wn)
  show "wp (at_risk m) (S' wn) (F' wn) wn"
    unfolding wn wp_at_risk
    by (cases n) (auto intro: assms(2-4) contract_wp [OF assms(1)])
qed

lemma staged_at_risk:
  assumes "wp m Q E (f w)"
    and "\<And>r w' k. Q r w' \<Longrightarrow> Q' r (w', k)" and "\<And>e w' k. E e w' \<Longrightarrow> E' e (w', k)"
    and "E' CancelledError (w, 0)"
  shows "wp (at_risk m) Q' E' (staging f (w, n))"
  by (cases n) (auto simp: staging_def wp_at_risk assms(4) intro: wp_mono [OF assms(1)] assms(2,3))

lemma effect_at_risk:
  "redis_effect dbv rv pe m f R \<Longrightarrow>
     redis_effect (\<lambda>wn. dbv (fst wn)) (\<lambda>wn. rv (fst wn)) (killed pe) (at_risk m) f R"
  unfolding redis_effect_def by (rule contract_at_risk, assumption) auto

lemma doomed_runtime_port:
  "runtime_port rt dbv qv \<Longrightarrow> runtime_port (doomed_runtime rt) (\<lambda>wn. dbv (fst wn)) (\<lambda>wn. qv (fst wn))"
  by (auto simp: runtime_port_def doomed_runtime_def keeps_def split_beta)

lemma doomed_server [simp]:
  "claim_due_script (doomed_redis rc) = claim_due_script rc"
proof -
  have "lua_zrem_all (doomed_redis rc) k ms d = lua_zrem_all rc k ms d" for k ms d
    by (induction ms arbitrary: d) (simp_all add: doomed_redis_def)
  then show ?thesis by (intro ext) (simp add: claim_due_script_def doomed_redis_def)
qed

lemma doomed_redis_service:
  assumes "redis_service rc dbv rv pe"
  shows "redis_service (doomed_redis rc) (\<lambda>wn. dbv (fst wn)) (\<lambda>wn. rv (fst wn)) (killed pe)"
proof -
  note laws = redis_service.lpush redis_service.rpop redis_service.brpop redis_service.llen redis_service.zadd
    redis_service.zrem redis_service.zrangebyscore redis_service.zcard redis_service.sadd redis_service.srem
    redis_service.sismember redis_service.hset redis_service.expire redis_service.delete redis_service.scan
    redis_service.script
  show ?thesis
    by (rule redis_service.intro; (simp only: doomed_server)?)
      (simp_all add: doomed_redis_def effect_at_risk laws [OF assms] redis_service.server_zrem [OF assms]
        redis_service.server_zrangebyscore [OF assms] redis_service.zset_finite [OF assms]
        redis_service.scheduled_owned [OF assms])
qed

lemma doomed_sql_service:
  assumes "sql_service sq sv qv pe"
  shows "sql_service (doomed_session sq) (\<lambda>wn. sv (fst wn)) (\<lambda>wn. qv (fst wn)) (killed pe)"
proof (rule sql_service.intro, goal_cases)
  case (1 i)
  show ?case
    by (auto simp: doomed_session_def keeps_def sql_failed_def intro!: contract_at_risk [OF sql_service.sql_get_task [OF assms]])
next
  case (2 wn m)
  show ?case
    by (cases wn) (auto simp: doomed_session_def sql_failed_def intro!: staged_at_risk [where f = "sq_add_task sq m", OF sql_service.sql_add_task [OF assms]])
next
  case (3 wn m)
  show ?case
    by (cases wn) (auto simp: doomed_session_def sql_failed_def intro!: staged_at_risk [where f = "sq_set_task sq m", OF sql_service.sql_set_task [OF assms]])
next
  case (4 wn i m' k m)
  obtain w n where wn: "wn = (w, n)" by (cases wn)
  from sql_service.sql_unique_key [OF assms, of w i m' k m] 4
  obtain e w' where "sq_flush sq (sq_add_task sq m w) = (Inl e, w')" by (auto simp: wn)
  then show ?case by (cases n) (simp_all add: wn doomed_session_def staging_def at_risk_def)
next
  case (5 k)
  show ?case
    by (auto simp: doomed_session_def keeps_def sql_failed_def split: option.splits
      intro!: contract_at_risk [OF sql_service.sql_task_by_key [OF assms]])
next
  case (6 q)
  show ?case
    by (auto simp: doomed_session_def keeps_def sql_failed_def intro!: contract_at_risk [OF sql_service.sql_select_tasks [OF assms]])
next
  case (7 wn e)
  show ?case
    by (cases wn) (auto simp: doomed_session_def sql_failed_def intro!: staged_at_risk [where f = "sq_add_event sq e", OF sql_service.sql_add_event [OF assms]])
next
  case (8 i)
  show ?case
    by (auto simp: doomed_session_def keeps_def sql_failed_def intro!: contract_at_risk [OF sql_service.sql_event_created_at [OF assms]])
next
  case (9 u)
  show ?case
    by (auto simp: doomed_session_def keeps_def sql_failed_def intro!: contract_at_risk [OF sql_service.sql_get_worker [OF assms]])
next
  case (10 wn m)
  show ?case
    by (cases wn) (auto simp: doomed_session_def sql_failed_def intro!: staged_at_risk [where f = "sq_add_worker sq m", OF sql_service.sql_add_worker [OF assms]])
next
  case (11 wn m)
  show ?case
    by (cases wn) (auto simp: doomed_session_def sql_failed_def intro!: staged_at_risk [where f = "sq_set_worker sq m", OF sql_service.sql_set_worker [OF assms]])
next
  case (12 wn)
  show ?case using sql_service.sql_begin [OF assms] by (simp add: doomed_session_def split: prod.split)
next
  case 13
  show ?case
    by (auto simp: doomed_session_def intro!: contract_at_risk [OF sql_service.sql_commit [OF assms]])
next
  case 14
  show ?case
    by (auto simp: doomed_session_def sql_failed_def intro!: contract_at_risk [OF sql_service.sql_rollback [OF assms]])
next
  case 15
  show ?case
    by (auto simp: doomed_session_def sql_failed_def intro!: contract_at_risk [OF sql_service.sql_close [OF assms]])
next
  case (16 wn i m)
  then show ?case using sql_service.sql_rows [OF assms] by blast
qed

lemma doomed_container:
  assumes "container c sv rv pe"
  shows "container (doomed c) (\<lambda>wn. sv (fst wn)) (\<lambda>wn. rv (fst wn)) (killed pe)"
proof -
  have sql: "sql_service (c_session c) sv (\<lambda>w. qview (rv w)) pe" "runtime_port (c_runtime c) sv (\<lambda>w. qview (rv w))"
    and red: "redis_service (c_redis c) (\<lambda>w. dview (sv w)) rv pe" "runtime_port (c_runtime c) (\<lambda>w. dview (sv w)) rv"
    using assms by (auto simp: container_def sql_store_def redis_backend_def)
  from doomed_sql_service [OF sql(1)] doomed_runtime_port [OF sql(2)]
    doomed_redis_service [OF red(1)] doomed_runtime_port [OF red(2)]
  show ?thesis by (simp add: container_def sql_store_def redis_backend_def doomed_def)
qed

lemma at_risk_alive: "(\<lambda>v. case at_risk m (v, Suc k) of (r, (v', _)) \<Rightarrow> (r, v')) = m"
  by (rule ext) (simp add: at_risk_def split: prod.split)

lemma doomed_run:
  "run_executor (doomed_executors te) t (w, n) =
     (if n = 0 then (Inl CancelledError, (w, 0)) else (case run_executor te t w of (r, w') \<Rightarrow> (r, (w', n - 1))))"
proof (cases n)
  case (Suc k)
  have "(\<lambda>v. case python_execute (te_registry (doomed_executors te)) t (v, Suc k) of (r, (v', _)) \<Rightarrow> (r, v')) =
      python_execute (te_registry te) t"
    by (rule ext)
      (auto simp: python_execute_def doomed_executors_def registry_get_def map_of_map doomed_handler_def
        throw_def ret_def andThen_def at_risk_def split: option.split prod.split sum.split)
  with Suc show ?thesis
    by (simp add: run_executor_def doomed_wait_def doomed_executors_def at_risk_alive)
qed (simp add: run_executor_def doomed_executors_def doomed_wait_def)

lemma doomed_worker:
  assumes "container c sv rv pe"
    and "worker (container_services c) (\<lambda>w. dview (sv w)) (\<lambda>w. qview (rv w)) pe te"
  shows "worker (container_services (doomed c)) (\<lambda>wn. dview (sv (fst wn))) (\<lambda>wn. qview (rv (fst wn))) (killed pe)
    (doomed_executors te)"
proof -
  have "contract (run_executor (doomed_executors te) t)
      (\<lambda>w r w'. keeps (\<lambda>wn. dview (sv (fst wn))) (\<lambda>wn. qview (rv (fst wn))) w w')
      (\<lambda>w e w'. keeps (\<lambda>wn. dview (sv (fst wn))) (\<lambda>wn. qview (rv (fst wn))) w w')" for t
  proof (rule contractI)
    fix wn :: "'a \<times> nat"
    obtain w n where wn: "wn = (w, n)" by (cases wn)
    have "wp (run_executor te t) (\<lambda>r w'. keeps (\<lambda>w. dview (sv w)) (\<lambda>w. qview (rv w)) w w')
        (\<lambda>e w'. keeps (\<lambda>w. dview (sv w)) (\<lambda>w. qview (rv w)) w w') w"
      by (rule contractD [OF worker.run_isolated [OF assms(2)]])
    then show "wp (run_executor (doomed_executors te) t)
        (\<lambda>r. keeps (\<lambda>wn. dview (sv (fst wn))) (\<lambda>wn. qview (rv (fst wn))) wn)
        (\<lambda>e. keeps (\<lambda>wn. dview (sv (fst wn))) (\<lambda>wn. qview (rv (fst wn))) wn) wn"
      by (auto simp: wn wp_def doomed_run keeps_def split: prod.splits sum.splits)
  qed
  with container.services_wired [OF doomed_container [OF assms(1)]] show ?thesis
    by (simp add: worker_def worker_axioms_def)
qed

section \<open>The draws of one step\<close>

definition drawing :: "('w \<Rightarrow> uuid) \<Rightarrow> 'w Container \<Rightarrow> 'w Container" where
  "drawing f c = c\<lparr>c_runtime := (c_runtime c)\<lparr>rt_uuid4 := (\<lambda>w. (f w, snd (rt_uuid4 (c_runtime c) w)))\<rparr>\<rparr>"

lemma drawing_runtime:
  "runtime_port rt dbv qv \<Longrightarrow> runtime_port (rt\<lparr>rt_uuid4 := (\<lambda>w. (f w, snd (rt_uuid4 rt w)))\<rparr>) dbv qv"
  by (simp add: runtime_port_def)

lemma drawing_container: "container c sv rv pe \<Longrightarrow> container (drawing f c) sv rv pe"
  by (simp add: container_def sql_store_def redis_backend_def drawing_def drawing_runtime)

lemma drawing_worker:
  assumes "container c sv rv pe"
    and "worker (container_services c) (\<lambda>w. dview (sv w)) (\<lambda>w. qview (rv w)) pe te"
  shows "worker (container_services (drawing f c)) (\<lambda>w. dview (sv w)) (\<lambda>w. qview (rv w)) pe te"
  using container.services_wired [OF drawing_container [OF assms(1)]] assms(2)
  by (simp add: worker_def worker_axioms_def)

lemma drawing_settings [simp]: "c_settings (drawing f c) = c_settings c"
  by (simp add: drawing_def)

lemma drawing_mints: "mints (container_services (drawing f c)) u \<longleftrightarrow> u \<in> range f"
  by (auto simp: mints_def container_services_def drawing_def)

end
