(* ===== verification/Scheduler.thy ===== *)
theory Scheduler
  imports Container Queue_Manager Lifecycle
begin

text \<open>
  \<^verbatim>\<open>scheduler/main.py\<close>: one tick inside one session, and the rounds of the leader loop.
  The loops of the source have no bound of their own. The model follows them for a number of
  turns; a run that is still inside a loop then returns false, as a prefix of the run of the
  code, and no clause that follows the loop is taken. Sleeping is left out.
\<close>

text \<open>The body of the session of a tick.\<close>

definition scheduler_pass :: "'w Container \<Rightarrow> ('w, unit) prog" where
  "scheduler_pass c =
     (let x = container_services c in
      andThen (process_due_tasks x) (\<lambda>processed.
      andThen (if processed \<noteq> 0 then metric (c_runtime c) (SCHEDULER_RELEASED processed) else ret ()) (\<lambda>_.
      andThen (reconcile x) (\<lambda>_.
      andThen (reconcile_enqueue_failed x 50) (\<lambda>_. ret ())))))"

definition scheduler_tick :: "'w Container \<Rightarrow> ('w, unit) prog" where
  "scheduler_tick c =
     andThen (metric (c_runtime c) SCHEDULER_TICKS) (\<lambda>_. session c (scheduler_pass c))"

text \<open>
  \<^verbatim>\<open>try: m finally: f\<close> of a run that may be followed only for a while: the clause runs when
  the block was left or raised, and not while the run is still inside the block.
\<close>

definition finally_left :: "('w, bool) prog \<Rightarrow> ('w, unit) prog \<Rightarrow> ('w, bool) prog" where
  "finally_left m f =
     andThen (try_except m (\<lambda>e. andThen f (\<lambda>_. throw e))) (\<lambda>left.
       if left then andThen f (\<lambda>_. ret True) else ret False)"

lemma wp_finally_left:
  "wp (finally_left m f) Q E =
     wp m (\<lambda>left. if left then wp f (\<lambda>_. Q True) E else Q False) (\<lambda>e. wp f (\<lambda>_. E e) E)"
  by (simp add: finally_left_def wp_simps cong: if_cong)

text \<open>\<^verbatim>\<open>while await lock.renew(ttl): \<dots>\<close>; the loop is left when the lock is lost.\<close>

fun lead :: "'w Container \<Rightarrow> 'w LeaderLock \<Rightarrow> nat \<Rightarrow> ('w, bool) prog" where
  "lead c lock 0 = ret False"
| "lead c lock (Suc turns) =
     andThen (ll_renew lock (scheduler_lock_ttl (c_settings c))) (\<lambda>renewed.
       if renewed then andThen (scheduler_tick c) (\<lambda>_. lead c lock turns) else ret True)"

text \<open>One turn of \<^verbatim>\<open>while True\<close>: the lock is released however the leading ends.\<close>

definition scheduler_turn :: "'w Container \<Rightarrow> 'w LeaderLock \<Rightarrow> nat \<Rightarrow> ('w, bool) prog" where
  "scheduler_turn c lock turns =
     andThen (ll_acquire lock (scheduler_lock_ttl (c_settings c))) (\<lambda>acquired.
       if acquired then finally_left (lead c lock turns) (ll_release lock) else ret True)"

text \<open>\<^verbatim>\<open>while True\<close> itself is left by an exception only.\<close>

fun run_scheduler :: "'w Container \<Rightarrow> 'w LeaderLock \<Rightarrow> nat \<Rightarrow> nat \<Rightarrow> ('w, bool) prog" where
  "run_scheduler c lock turns 0 = ret False"
| "run_scheduler c lock turns (Suc rounds) =
     andThen (scheduler_turn c lock turns) (\<lambda>left. if left then run_scheduler c lock turns rounds else ret False)"

section \<open>The process\<close>

text \<open>\<^verbatim>\<open>f"{socket.gethostname()}-{uuid.uuid4()}"\<close>\<close>

definition scheduler_owner :: "string \<Rightarrow> uuid \<Rightarrow> string" where
  "scheduler_owner host u = host @ ''-'' @ uuid_str u"

definition scheduler_process :: "'w Container \<Rightarrow> string \<Rightarrow> nat \<Rightarrow> nat \<Rightarrow> ('w, bool) prog" where
  "scheduler_process c host turns rounds =
     andThen (uuid4 (c_runtime c)) (\<lambda>u.
     finally_left (run_scheduler c (leader_lock c (scheduler_owner host u)) turns rounds) (container_close c))"

text \<open>Whatever the hosts are called, two schedulers have the same name only with the same identifier.\<close>

lemma scheduler_owner_inject: "scheduler_owner h u = scheduler_owner h' u' \<longleftrightarrow> h = h' \<and> u = u'"
proof
  assume "scheduler_owner h u = scheduler_owner h' u'"
  then have "h @ (CHR ''-'' # uuid_str u) = h' @ (CHR ''-'' # uuid_str u')" by (simp add: scheduler_owner_def)
  then show "h = h' \<and> u = u'" by (subst (asm) append_eq_append_conv) (simp_all add: length_uuid_str)
qed simp

lemma scheduler_owner_nonempty [simp]: "scheduler_owner h u \<noteq> []"
  by (simp add: scheduler_owner_def)

end
