(* ===== verification/System.thy ===== *)
theory System
  imports Interruption Scheduler
begin

text \<open>
  The processes of the system over one database and one Redis: the sessions of the API and of
  the scheduler, and the workers, who take an identifier off the ready lists, hold it, and
  process it in a session of their own or die with it. Each session is one step; between the
  pop and the session any other process may act. The states they reach, and what holds in all
  of them.
\<close>

section \<open>Steps\<close>

datatype request =
    Submit SubmitTaskRequest
  | Retry TaskId
  | Cancel TaskId
  | Tick
  | Heartbeat string string
  | Register string string

definition unit_result :: "('w, 'a) prog \<Rightarrow> ('w, unit) prog" where
  "unit_result m = andThen m (\<lambda>_. ret ())"

fun act :: "'w Container \<Rightarrow> request \<Rightarrow> ('w, unit) prog" where
  "act c (Submit r) = unit_result (session c (submit (container_services c) r))"
| "act c (Retry i) = unit_result (session c (retry_task (container_services c) i))"
| "act c (Cancel i) = unit_result (session c (cancel (container_services c) i))"
| "act c Tick = scheduler_tick c"
| "act c (Heartbeat wid host) = heartbeat_turn c wid host"
| "act c (Register wid host) = unit_result (register_at_start c wid host)"

text \<open>A worker's session over an identifier that it has taken.\<close>

definition process_turn :: "'w Container \<Rightarrow> 'w TaskExecutors \<Rightarrow> string \<Rightarrow> TaskId \<Rightarrow> ('w, unit) prog" where
  "process_turn c te wid i = except_Exception (session c (process_body c te wid i)) (\<lambda>_. ret ())"

text \<open>
  What happens: a request is served; the consumer of a worker takes an identifier, which may
  find none or fail; the worker's session over an identifier in its hands runs to its end; the
  worker is killed when its session has done \<open>n\<close> operations, at the latest before it sends the
  commit. The state is the world with what the workers have in hand, and each step draws its
  own identifiers from \<^verbatim>\<open>uuid4()\<close>. After an exception the process goes on with its next
  request, or another process with its own.
\<close>

datatype action = Request request | Take string | Work string TaskId | Die string TaskId nat

type_synonym 'w system = "'w \<times> (string \<times> TaskId) list"
type_synonym 'w labelled = "('w \<Rightarrow> uuid) \<times> action"

inductive sys_step ::
  "'w Container \<Rightarrow> 'w TaskExecutors \<Rightarrow> 'w system \<Rightarrow> 'w labelled \<Rightarrow> 'w system \<Rightarrow> bool" for c te where
  serves: "act (drawing f c) q w = (r, w') \<Longrightarrow> sys_step c te (w, h) (f, Request q) (w', h)"
| takes: "consume_dequeue (drawing f c) w = (Inr (Some i), w') \<Longrightarrow>
    sys_step c te (w, h) (f, Take wid) (w', (wid, i) # h)"
| idles: "consume_dequeue (drawing f c) w = (r, w') \<Longrightarrow> (\<And>i. r \<noteq> Inr (Some i)) \<Longrightarrow>
    sys_step c te (w, h) (f, Take wid) (w', h)"
| works: "(wid, i) \<in> set h \<Longrightarrow> process_turn (drawing f c) te wid i w = (r, w') \<Longrightarrow>
    sys_step c te (w, h) (f, Work wid i) (w', remove1 (wid, i) h)"
| dies: "(wid, i) \<in> set h \<Longrightarrow>
    process_body (doomed (drawing f c)) (doomed_executors te) wid i (sq_begin (c_session c) w, n) = (r, (w', k)) \<Longrightarrow>
    sys_step c te (w, h) (f, Die wid i n) (w', remove1 (wid, i) h)"

inductive sys_run ::
  "'w Container \<Rightarrow> 'w TaskExecutors \<Rightarrow> 'w system \<Rightarrow> 'w labelled list \<Rightarrow> 'w system \<Rightarrow> bool" for c te where
  none: "sys_run c te s [] s"
| more: "sys_run c te s as s' \<Longrightarrow> sys_step c te s' a s'' \<Longrightarrow> sys_run c te s (as @ [a]) s''"

inductive_cases sys_stepE: "sys_step c te s a s'"
lemma sys_run_append:
  "sys_run c te s (as @ bs) s'' \<Longrightarrow> \<exists>s'. sys_run c te s as s' \<and> sys_run c te s' bs s''"
proof (induction bs arbitrary: s'' rule: rev_induct)
  case Nil
  then show ?case using sys_run.none by fastforce
next
  case (snoc b bs)
  then have "sys_run c te s ((as @ bs) @ [b]) s''" by simp
  then obtain s1 where "sys_run c te s (as @ bs) s1" "sys_step c te s1 b s''"
    by (rule sys_run.cases) auto
  with snoc.IH sys_run.more show ?case by blast
qed

lemma sys_run_one: "sys_run c te s [a] s' \<longleftrightarrow> sys_step c te s a s'"
proof
  assume "sys_run c te s [a] s'"
  then obtain s1 where "sys_run c te s [] s1" "sys_step c te s1 a s'" by (rule sys_run.cases) auto
  moreover from this(1) have "s1 = s" by (rule sys_run.cases) auto
  ultimately show "sys_step c te s a s'" by simp
qed (use sys_run.more [OF sys_run.none] in fastforce)

section \<open>The statuses that become durable\<close>

definition settled :: "(TaskId \<Rightarrow> Task option) \<Rightarrow> bool" where
  "settled ts \<longleftrightarrow> (\<forall>i t. ts i = Some t \<longrightarrow> task_status t \<in> {QUEUED, COMPLETED, CANCELLED, DEAD_LETTER})"

lemma settled_upd: "settled ts \<Longrightarrow> task_status t \<in> {QUEUED, COMPLETED, CANCELLED, DEAD_LETTER} \<Longrightarrow>
    settled (ts(i \<mapsto> t))"
  by (auto simp: settled_def)

lemma settledD: "settled ts \<Longrightarrow> ts i = Some t \<Longrightarrow>
    task_status t = QUEUED \<or> task_status t = COMPLETED \<or> task_status t = CANCELLED \<or> task_status t = DEAD_LETTER"
  by (auto simp: settled_def)

text \<open>A session body that, when it returns, leaves only such statuses where it found only such.\<close>

definition settles :: "('w \<Rightarrow> db_view) \<Rightarrow> ('w, 'a) prog \<Rightarrow> bool" where
  "settles dbv m \<longleftrightarrow>
     (\<forall>w. settled (tasks (dbv w)) \<longrightarrow> wp m (\<lambda>_ w'. settled (tasks (dbv w'))) (\<lambda>_ _. True) w)"

lemma settlesI:
  "(\<And>w. settled (tasks (dbv w)) \<Longrightarrow> wp m (\<lambda>_ w'. settled (tasks (dbv w'))) (\<lambda>_ _. True) w) \<Longrightarrow> settles dbv m"
  by (simp add: settles_def)

lemma settlesD:
  "settles dbv m \<Longrightarrow> settled (tasks (dbv w)) \<Longrightarrow> wp m (\<lambda>_ w'. settled (tasks (dbv w'))) (\<lambda>_ _. True) w"
  by (simp add: settles_def)

lemma settles_ret: "settles dbv (ret r)"
  by (rule settlesI) (simp add: wp_simps)

lemma settles_andThen:
  assumes "settles dbv m" and "\<And>r. settles dbv (f r)"
  shows "settles dbv (andThen m f)"
proof (rule settlesI)
  fix w assume "settled (tasks (dbv w))"
  with assms(1) have "wp m (\<lambda>_ w'. settled (tasks (dbv w'))) (\<lambda>_ _. True) w" by (rule settlesD)
  then show "wp (andThen m f) (\<lambda>_ w'. settled (tasks (dbv w'))) (\<lambda>_ _. True) w"
    unfolding wp_andThen by (rule wp_mono) (auto intro: settlesD [OF assms(2)])
qed

context services
begin

text \<open>A submission that returns leaves its task QUEUED, even when it was for later.\<close>

lemma enqueued_created:
  assumes "Task_create c i nm ex pl prio retries sched tmo policy key = Inr t"
    and "enqueued x dbv qv t w t' w'"
  shows "task_status t' = QUEUED"
proof -
  obtain future where "enqueue_status future \<in> set (allowed (task_status t))"
    "task_status t' = enqueue_status future"
    using assms(2) by (auto simp: enqueued_def)
  with Task_create_Inr(12) [OF assms(1)] show ?thesis
    by (cases future) (auto simp: enqueue_status_def)
qed

text \<open>The cases of a submission.\<close>

lemma submit_cases:
  assumes "\<And>k i t. r_idempotency_key r = Some k \<Longrightarrow> k \<noteq> [] \<Longrightarrow> tasks (dbv w) i = Some t \<Longrightarrow>
      idempotency_key t = Some k \<Longrightarrow> P"
    and "(\<And>k i t. r_idempotency_key r = Some k \<Longrightarrow> k \<noteq> [] \<Longrightarrow> tasks (dbv w) i = Some t \<Longrightarrow>
      idempotency_key t \<noteq> Some k) \<Longrightarrow> max_payload_bytes (svc_st x) < payload_size (r_payload r) \<Longrightarrow> P"
    and "\<And>e. (\<And>k i t. r_idempotency_key r = Some k \<Longrightarrow> k \<noteq> [] \<Longrightarrow> tasks (dbv w) i = Some t \<Longrightarrow>
      idempotency_key t \<noteq> Some k) \<Longrightarrow> payload_size (r_payload r) \<le> max_payload_bytes (svc_st x) \<Longrightarrow>
      ExecutorType_of (r_executor_type r) = Inl e \<or> r_priority r < 0 \<Longrightarrow> P"
    and "\<And>ex. (\<And>k i t. r_idempotency_key r = Some k \<Longrightarrow> k \<noteq> [] \<Longrightarrow> tasks (dbv w) i = Some t \<Longrightarrow>
      idempotency_key t \<noteq> Some k) \<Longrightarrow> payload_size (r_payload r) \<le> max_payload_bytes (svc_st x) \<Longrightarrow>
      ExecutorType_of (r_executor_type r) = Inr ex \<Longrightarrow> 0 \<le> r_priority r \<Longrightarrow> P"
  shows P
proof (cases "\<exists>k i t. r_idempotency_key r = Some k \<and> k \<noteq> [] \<and> tasks (dbv w) i = Some t \<and> idempotency_key t = Some k")
  case True
  then show P using assms(1) by blast
next
  case False
  then have new: "r_idempotency_key r = Some k \<Longrightarrow> k \<noteq> [] \<Longrightarrow> tasks (dbv w) i = Some t \<Longrightarrow>
      idempotency_key t \<noteq> Some k" for k i t by blast
  show P
  proof (cases "max_payload_bytes (svc_st x) < payload_size (r_payload r)")
    case True
    with new show P by (rule assms(2))
  next
    case False
    then have size: "payload_size (r_payload r) \<le> max_payload_bytes (svc_st x)" by simp
    show P
    proof (cases "ExecutorType_of (r_executor_type r)")
      case (Inl e)
      with new size show P by (intro assms(3)) auto
    next
      case (Inr ex)
      with new size show P by (cases "r_priority r < 0") (auto intro: assms(3) assms(4))
    qed
  qed
qed

lemma submit_settles: "settles dbv (submit x r)"
proof (rule settlesI)
  fix w assume s: "settled (tasks (dbv w))"
  show "wp (submit x r) (\<lambda>_ w'. settled (tasks (dbv w'))) (\<lambda>_ _. True) w"
  proof (rule submit_cases [of r w], goal_cases)
    case (1 k i t)
    then show ?case by (intro wp_mono [OF submit_known_key_wp]) (auto simp: keeps_def s)
  next
    case 2
    then show ?case by (intro wp_mono [OF submit_too_large_wp]) auto
  next
    case (3 e)
    then show ?case by (intro wp_mono [OF submit_invalid_wp]) auto
  next
    case (4 ex)
    show ?case
    proof (rule submit_new_wp [OF _ 4(2,3,4)], goal_cases)
      case (2 c i t k1 e1 w1 t' w2 w3)
      then have "task_status t' = QUEUED" by (blast intro: enqueued_created)
      with 2 s show ?case by (auto simp: enqueued_def intro!: settled_upd)
    qed (use 4 in auto)
  qed
qed

lemma retry_settles: "settles dbv (retry_task x i)"
proof (rule settlesI)
  fix w assume s: "settled (tasks (dbv w))"
  show "wp (retry_task x i) (\<lambda>_ w'. settled (tasks (dbv w'))) (\<lambda>_ _. True) w"
  proof (cases "\<exists>t. tasks (dbv w) i = Some t \<and> retriable (task_status t)")
    case True
    then obtain t where "tasks (dbv w) i = Some t" "retriable (task_status t)" by blast
    from retry_task_wp [OF this] show ?thesis
      by (rule wp_mono) (use s in \<open>auto intro!: settled_upd\<close>)
  next
    case False
    then show ?thesis by (intro wp_mono [OF retry_task_rejects_wp]) auto
  qed
qed

lemma cancel_settles: "settles dbv (cancel x i)"
proof (rule settlesI)
  fix w assume s: "settled (tasks (dbv w))"
  show "wp (cancel x i) (\<lambda>_ w'. settled (tasks (dbv w'))) (\<lambda>_ _. True) w"
  proof (cases "tasks (dbv w) i")
    case None
    then show ?thesis by (intro wp_mono [OF cancel_missing_wp]) auto
  next
    case (Some t)
    show ?thesis
    proof (cases "task_status t = QUEUED")
      case True
      with Some show ?thesis
        by (intro wp_mono [OF cancel_wp [OF Some]]) (use s in \<open>auto intro!: settled_upd\<close>)
    next
      case False
      with settledD [OF s Some] show ?thesis
        by (intro wp_mono [OF cancel_rejects_wp [OF Some]]) auto
    qed
  qed
qed

lemma settled_not_releasable: "settled ts \<Longrightarrow> \<not> releasable ts i"
  by (auto simp: releasable_def dest: settledD)

lemma released_settled: "settled ts \<Longrightarrow> released ts is us \<Longrightarrow> us = ts"
  by (rule ext) (simp add: released_def settled_not_releasable)

lemma process_due_settles: "settles dbv (process_due_tasks x)"
  by (rule settlesI, rule wp_mono [OF process_due_tasks_wp]) (auto, metis released_settled)

lemma reconcile_settles: "settles dbv (reconcile x)"
  by (rule settlesI, rule wp_mono [OF reconcile_idle_wp]) (auto simp: keeps_def dest: settledD)

lemma reconcile_enqueue_failed_settles: "settles dbv (reconcile_enqueue_failed x n)"
  by (rule settlesI, rule wp_mono [OF reconcile_enqueue_failed_idle_wp]) (auto simp: keeps_def dest: settledD)

lemma metric_settles: "settles dbv (metric (svc_rt x) m)"
  by (rule settlesI) (auto intro!: metric_rule)

lemma heartbeat_settles: "settles dbv (heartbeat x wid host)"
  unfolding heartbeat_def
  by (rule settlesI) (auto simp: wp_simps intro!: wp_rules split: sum.split option.split)

lemma register_settles: "settles dbv (register_worker x host md)"
  unfolding register_worker_def Let_def
  by (rule settlesI) (auto simp: wp_simps intro!: wp_rules)

end

context worker
begin

lemma execute_settles:
  assumes "task_status t = QUEUED" and "0 \<le> priority t"
  shows "settles dbv (execute_task x te t wid)"
proof (rule settlesI)
  fix w assume s: "settled (tasks (dbv w))"
  show "wp (execute_task x te t wid) (\<lambda>_ w'. settled (tasks (dbv w'))) (\<lambda>_ _. True) w"
  proof (cases "task_id t \<in> cancelled (qv w)")
    case True
    have "wp (execute_cancelled x t) (\<lambda>_ w'. settled (tasks (dbv w'))) (\<lambda>_ _. True) w'"
      if "dbv w' = dbv w" for w'
      by (rule wp_mono [OF execute_cancelled_wp]) (use assms s that in \<open>auto intro!: settled_upd\<close>)
    with True show ?thesis
      unfolding execute_task_def wp_andThen by (intro is_cancelled_rule) auto
  next
    case False
    have "settled (tasks (dbv w'))" if ex: "executed dbv qv t wid w w'" for w'
    proof -
      from ex obtain t1 k e w1 where r: "running t wid t1" "dbv w1 = put_event e (put_task k t1 (dbv w))"
        and fin: "finished dbv qv t1 w1 w'" by (auto simp: executed_def)
      have id: "task_id t1 = task_id t" using r(1) by (auto simp: running_def)
      from fin obtain row where "tasks (dbv w') = (tasks (dbv w1))(task_id t1 \<mapsto> row)"
        "task_status row \<in> {QUEUED, COMPLETED, DEAD_LETTER}" by (rule finished_row)
      then show ?thesis using s r(2) id by (auto simp: settled_def)
    qed
    then show ?thesis
      by (intro wp_mono [OF execute_task_wp [OF assms False]]) auto
  qed
qed

end

section \<open>Frames of the session bodies\<close>

context services
begin

lemma framed_then:
  assumes "framed dbv qv is m (\<lambda>_. True) X" and "\<And>r. framed dbv qv is (k r) P X"
  shows "framed dbv qv is (andThen m k) P X"
  using assms by (rule framed_andThen)

lemma framed_parse: "framed dbv qv is (from_sum r) (\<lambda>_. True) (\<lambda>_. True)"
  by (rule framed_weaken [OF framed_from_sum]) auto

lemma framed_retry_task [frame_rules]: "framed dbv qv {i} (retry_task x i) (\<lambda>_. True) (\<lambda>_. True)"
  unfolding retry_task_def by (rule frame_rules | clarsimp)+

lemma framed_heartbeat [frame_rules]: "framed dbv qv is (heartbeat x wid host) (\<lambda>_. True) (\<lambda>_. True)"
proof -
  have "framed dbv qv is (case worker of None \<Rightarrow> ret () | Some w \<Rightarrow>
      andThen (now (svc_rt x)) (\<lambda>n. andThen (wr_save (svc_workers x) (Worker_heartbeat n w)) (\<lambda>_. ret ())))
      (\<lambda>_. True) (\<lambda>_. True)" for worker
    by (cases worker) (auto intro!: framed_then framed_now framed_worker_save framed_ret)
  then show ?thesis unfolding heartbeat_def
    by (auto intro!: framed_then framed_parse framed_worker_get framed_queue)
qed

lemma framed_register [frame_rules]: "framed dbv qv is (register_worker x host md) (\<lambda>_. True) (\<lambda>_. True)"
  unfolding register_worker_def by (rule frame_rules | clarsimp)+

lemma framed_release [frame_rules]: "i \<in> is \<Longrightarrow> framed dbv qv is (release x i s) (\<lambda>_. True) (\<lambda>_. True)"
  unfolding release_def by (rule frame_rules | clarsimp)+

lemma framed_timed_out [frame_rules]: "framed dbv qv is (timed_out x t) (\<lambda>_. True) (\<lambda>_. True)"
  unfolding timed_out_def by (rule frame_rules | clarsimp)+

lemma framed_claim_due:
  "framed dbv qv UNIV (qb_claim_due_scheduled (svc_queue x) limit) (\<lambda>_. True) (\<lambda>_. True)"
  by (rule framed_contract [OF claim_due]) (auto simp: frame_def)

lemma framed_process_due: "framed dbv qv UNIV (process_due_tasks x) (\<lambda>_. True) (\<lambda>_. True)"
  unfolding process_due_tasks_def
  by (intro framed_then framed_claim_due framed_for_each framed_release) auto

lemma framed_reconcile_one:
  "framed dbv qv UNIV (reconcile_one x i s) (\<lambda>_. True) (\<lambda>_. True)"
proof -
  have handled: "framed dbv qv UNIV (handle_timeout x t) (\<lambda>_. True) (\<lambda>_. True)" if "0 \<le> priority t" for t
    by (rule framed_weaken [OF framed_handle_timeout]) (auto simp: that)
  show ?thesis
    unfolding reconcile_one_def
    by (rule framed_andThen [OF framed_get])
      (auto split: option.split intro!: framed_then handled framed_timed_out framed_ret framed_queue)
qed

lemma framed_get_inflight: "framed dbv qv is (qb_get_inflight_task_ids (svc_queue x)) (\<lambda>_. True) (\<lambda>_. True)"
  by (rule framed_effect [OF get_inflight queue_only_own(7)]) simp

lemma framed_reconcile: "framed dbv qv UNIV (reconcile x) (\<lambda>_. True) (\<lambda>_. True)"
  unfolding reconcile_def
  by (intro framed_then framed_get_inflight framed_for_each framed_reconcile_one) auto

lemma framed_reconcile_enqueue_failed:
  "framed dbv qv UNIV (reconcile_enqueue_failed x n) (\<lambda>_. True) (\<lambda>_. True)"
proof -
  have "framed dbv qv UNIV (try_except (andThen (enqueue x t) (\<lambda>_. ret (s + 1)))
      (\<lambda>(e, _). if is_Exception e then ret s else throw e)) (\<lambda>_. True) (\<lambda>_. True)"
    if "0 \<le> priority t" for t and s :: int
  proof (rule framed_try_except)
    show "framed dbv qv UNIV (andThen (enqueue x t) (\<lambda>_. ret (s + 1))) (\<lambda>_. True)
        (\<lambda>(e, t'). task_id t' = task_id t \<and> 0 \<le> priority t')"
      by (rule framed_andThen [OF framed_enqueue]) (auto simp: that intro: framed_ret)
  qed (auto intro: framed_ret framed_throw)
  then show ?thesis
    unfolding reconcile_enqueue_failed_def list_tasks_def
    by (intro framed_andThen [OF framed_list_tasks] framed_for_each) auto
qed

end

section \<open>Every process keeps the committed tasks settled\<close>

text \<open>The processes of one deployment: the container's services and the task code.\<close>

locale deployment =
  container c sv rv pe +
  worker "container_services c" "\<lambda>w. dview (sv w)" "\<lambda>w. qview (rv w)" pe te
  for c :: "'w Container" and te :: "'w TaskExecutors" and sv :: "'w \<Rightarrow> sql_view"
    and rv :: "'w \<Rightarrow> redis_data" and pe :: "exn \<Rightarrow> bool"

context deployment
begin

abbreviation settled_at :: "'w \<Rightarrow> bool" where "settled_at w \<equiv> settled (committed (dbv w))"

lemma session_settles:
  assumes "framed dbv qv UNIV body (\<lambda>_. True) (\<lambda>_. True)" and "settles dbv body" and "settled_at w"
  shows "wp (session c body) (\<lambda>_ w'. settled_at w') (\<lambda>_ w'. settled_at w') w"
proof (rule wp_mono [OF session_wp [OF assms(1)]])
  show "wp body (\<lambda>_ w'. settled (tasks (dbv w'))) (\<lambda>_ _. True) w0" if "dbv w0 = fresh (dbv w)" for w0
    by (rule settlesD [OF assms(2)]) (simp add: that fresh_def assms(3))
next
  fix r w' assume "session_returned dbv qv (\<lambda>_ w'. settled (tasks (dbv w'))) r w'"
  then show "settled_at w'" by (auto simp: session_returned_def saved_def)
next
  fix e w' assume "session_raised c dbv qv pe (\<lambda>_ w'. settled (tasks (dbv w'))) (\<lambda>_ _. True) w e w'"
  then show "settled_at w'"
    using assms(3) by (auto simp: session_raised_def saved_def durable_def)
qed

lemma scheduler_pass_settles: "settles dbv (scheduler_pass c)"
  unfolding scheduler_pass_def Let_def
  using process_due_settles reconcile_settles reconcile_enqueue_failed_settles [of 50] metric_settles
  by (intro settles_andThen settles_ret) (auto simp: container_services_def intro: settles_ret)

lemma framed_scheduler_pass: "framed dbv qv UNIV (scheduler_pass c) (\<lambda>_. True) (\<lambda>_. True)"
proof -
  have "framed dbv qv UNIV (metric (c_runtime c) m) (\<lambda>_. True) (\<lambda>_. True)" for m
    using framed_metric [of UNIV m] by (simp add: container_services_def)
  then show ?thesis
    unfolding scheduler_pass_def Let_def
    by (intro framed_then framed_process_due framed_reconcile framed_reconcile_enqueue_failed framed_if
        framed_ret) auto
qed

lemma process_body_settles: "settles dbv (process_body c te wid i)"
proof (rule settlesI)
  fix w assume s: "settled (tasks (dbv w))"
  show "wp (process_body c te wid i) (\<lambda>_ w'. settled (tasks (dbv w'))) (\<lambda>_ _. True) w"
    unfolding process_body_def Let_def get_task_def wp_andThen
  proof (rule get_rule)
    fix w1 assume w1: "dbv w1 = dbv w" "qv w1 = qv w"
    show "wp (case tasks (dbv w) i of None \<Rightarrow> ret ()
        | Some t \<Rightarrow> if task_status t \<noteq> QUEUED then ret () else execute_task (container_services c) te t wid)
        (\<lambda>_ w'. settled (tasks (dbv w'))) (\<lambda>_ _. True) w1"
      using s w1 stored_task [of w i]
      by (auto simp: wp_simps split: option.split intro!: settlesD [OF execute_settles])
  qed simp
qed

lemma framed_process_body: "framed dbv qv UNIV (process_body c te wid i) (\<lambda>_. True) (\<lambda>_. True)"
  unfolding process_body_def Let_def get_task_def
  by (rule framed_andThen [OF framed_get])
    (auto split: option.split intro!: framed_ret framed_execute_task)

lemma unit_result_rule: "wp m (\<lambda>_. Q) (\<lambda>_. E) w \<Longrightarrow> wp (unit_result m) (\<lambda>_. Q) (\<lambda>_. E) w"
  by (simp add: unit_result_def wp_simps)

text \<open>One turn of a consumer: the identifier it takes was last in a ready list.\<close>

lemma consume_dequeue_rule:
  assumes "\<And>w'. dbv w' = dbv w \<Longrightarrow> qv w' = qv w \<or>
      (\<exists>i. pop_ready (priority_levels (c_settings c)) (qv w) = Some (i, qv w')) \<Longrightarrow> Q None w'"
    and "\<And>i w'. dbv w' = dbv w \<Longrightarrow> pop_ready (priority_levels (c_settings c)) (qv w) = Some (i, qv w') \<Longrightarrow>
      Q (Some i) w'"
    and "\<And>e w'. unreadable pe e \<Longrightarrow> dbv w' = dbv w \<Longrightarrow> qv w' = qv w \<or>
      (\<exists>i. pop_ready (priority_levels (c_settings c)) (qv w) = Some (i, qv w')) \<Longrightarrow> E e w'"
  shows "wp (consume_dequeue c) Q E w"
  unfolding consume_dequeue_def wp_simps
  by (rule contract_wp [OF dequeue_contract [of 5]])
    (auto simp: wp_simps split: option.splits exn.split intro: assms)

lemma consume_settles: "settled_at w \<Longrightarrow> wp (consume_dequeue c) (\<lambda>_ w'. settled_at w') (\<lambda>_ w'. settled_at w') w"
  by (rule consume_dequeue_rule) auto

lemma process_turn_settles:
  "settled_at w \<Longrightarrow> wp (process_turn c te wid i) (\<lambda>_ w'. settled_at w') (\<lambda>_ w'. settled_at w') w"
  using session_settles [OF framed_process_body process_body_settles]
  by (simp add: process_turn_def wp_simps cong: if_cong)

lemma act_settles: "settled_at w \<Longrightarrow> wp (act c q) (\<lambda>_ w'. settled_at w') (\<lambda>_ w'. settled_at w') w"
proof (induction q)
  case (Submit r)
  then show ?case by (simp add: unit_result_rule session_settles framed_submit submit_settles)
next
  case (Retry i)
  have "framed dbv qv UNIV (retry_task (container_services c) i) (\<lambda>_. True) (\<lambda>_. True)"
    by (rule framed_weaken [OF framed_retry_task]) auto
  with Retry show ?case by (simp add: unit_result_rule session_settles retry_settles)
next
  case (Cancel i)
  have "framed dbv qv UNIV (cancel (container_services c) i) (\<lambda>_. True) (\<lambda>_. True)"
    by (rule framed_weaken [OF framed_cancel]) auto
  with Cancel show ?case by (simp add: unit_result_rule session_settles cancel_settles)
next
  case Tick
  have "wp (metric (c_runtime c) SCHEDULER_TICKS) (\<lambda>_ w'. settled_at w') E w" for E
    using metric_rule [of w "\<lambda>_ w'. settled_at w'" SCHEDULER_TICKS E] Tick
    by (simp add: container_services_def)
  then show ?case
    unfolding act.simps scheduler_tick_def wp_andThen
    by (rule wp_mono) (auto intro: session_settles framed_scheduler_pass scheduler_pass_settles)
next
  case (Heartbeat wid host)
  from session_settles [OF framed_heartbeat heartbeat_settles Heartbeat] show ?case
    by (simp add: heartbeat_turn_def wp_simps cong: if_cong)
next
  case (Register wid host)
  have "framed dbv qv UNIV (andThen (register_worker (container_services c) host md) (\<lambda>x. ret (uuid_str (w_id x))))
      (\<lambda>_. True) (\<lambda>_. True)" for md
    by (intro framed_then framed_register framed_ret) simp
  moreover have "settles dbv (andThen (register_worker (container_services c) host md) (\<lambda>x. ret (uuid_str (w_id x))))"
    for md by (intro settles_andThen register_settles settles_ret)
  ultimately show ?case using Register
    by (simp add: unit_result_rule register_at_start_def session_settles)
qed

text \<open>Each step runs in the deployment with its own draws; a dying worker in a doomed one.\<close>

lemma drawn: "deployment (drawing f c) te sv rv pe"
  unfolding deployment_def
  by (intro conjI drawing_container container_axioms drawing_worker worker_axioms)

lemma dying: "deployment (doomed (drawing f c)) (doomed_executors te) (\<lambda>wn. sv (fst wn)) (\<lambda>wn. rv (fst wn)) (killed pe)"
  unfolding deployment_def
  by (intro conjI doomed_container doomed_worker drawing_container container_axioms drawing_worker worker_axioms)

lemma worker_wired: "worker (container_services c) dbv qv pe te"
  by (rule worker_axioms)

end

context deployment
begin

text \<open>Whatever a worker has done when it is killed, nothing of it is durable.\<close>

lemma died_durable:
  assumes "process_body (doomed (drawing f c)) (doomed_executors te) wid i (sq_begin (c_session c) w, n) = (r, (w', k))"
  shows "durable dbv w w'"
  using contractD [OF deployment.framed_process_body [OF dying [of f], unfolded framed_def],
      of wid i "(sq_begin (c_session c) w, n)"] assms
  by (auto simp: wp_def frame_def durable_def begin_fresh fresh_def split: sum.splits)

lemma step_settles:
  assumes "sys_step c te s a s'" and "settled_at (fst s)"
  shows "settled_at (fst s')"
  using assms(1)
proof cases
  case (serves f q w r w' h)
  then show ?thesis using deployment.act_settles [OF drawn [of f], of w q] assms(2)
    by (auto simp: wp_def split: sum.splits)
next
  case (takes f w i w' h wid)
  then show ?thesis using deployment.consume_settles [OF drawn [of f], of w] assms(2)
    by (auto simp: wp_def)
next
  case (idles f w r w' h wid)
  then show ?thesis using deployment.consume_settles [OF drawn [of f], of w] assms(2)
    by (auto simp: wp_def split: sum.splits)
next
  case (works wid i h f w r w')
  then show ?thesis using deployment.process_turn_settles [OF drawn [of f], of w wid i] assms(2)
    by (auto simp: wp_def split: sum.splits)
next
  case (dies wid i h f w n r w' k)
  then show ?thesis using died_durable [OF dies(5)] assms(2) by (simp add: durable_def)
qed

lemma run_settles: "sys_run c te s as s' \<Longrightarrow> settled_at (fst s) \<Longrightarrow> settled_at (fst s')"
  by (induction rule: sys_run.induct) (auto dest: step_settles)

end

end
