(* ===== verification/Quiet.thy ===== *)
theory Quiet
  imports System
begin

text \<open>
  The programs that leave the ready lists alone, whichever way they end: processing a task is
  one of them, so nothing but the pop takes an identifier off a ready list while a worker has
  its turn, and nothing puts one there.
\<close>

section \<open>Programs that leave the ready lists alone\<close>

definition quiet ::
  "('w \<Rightarrow> queue_view) \<Rightarrow> ('w, 'e, 'a) program \<Rightarrow> ('a \<Rightarrow> bool) \<Rightarrow> ('e \<Rightarrow> bool) \<Rightarrow> bool" where
  "quiet qv m P X \<longleftrightarrow>
     contract m (\<lambda>w r w'. ready (qv w') = ready (qv w) \<and> P r) (\<lambda>w e w'. ready (qv w') = ready (qv w) \<and> X e)"

named_theorems quiet_rules \<open>programs that leave the ready lists alone\<close>

lemma quietI:
  assumes "\<And>w. wp m (\<lambda>r w'. ready (qv w') = ready (qv w) \<and> P r) (\<lambda>e w'. ready (qv w') = ready (qv w) \<and> X e) w"
  shows "quiet qv m P X"
  unfolding quiet_def using assms by (rule contractI)

lemma quiet_on:
  assumes "quiet qv m P X" and "ready (qv w1) = R"
  shows "wp m (\<lambda>r w'. ready (qv w') = R \<and> P r) (\<lambda>e w'. ready (qv w') = R \<and> X e) w1"
  using contractD [OF assms(1) [unfolded quiet_def], of w1] assms(2) by simp

lemma quiet_ret [quiet_rules]: "P r \<Longrightarrow> quiet qv (ret r) P X"
  by (simp add: quiet_def contract_def wp_simps)

lemma quiet_throw [quiet_rules]: "X e \<Longrightarrow> quiet qv (throw e) P X"
  by (simp add: quiet_def contract_def wp_simps)

lemma quiet_from_sum [quiet_rules]: "quiet qv (from_sum r) (\<lambda>v. r = Inr v) (\<lambda>_. True)"
  by (simp add: quiet_def contract_def wp_simps split: sum.split)

lemma quiet_andThen [quiet_rules]:
  assumes "quiet qv m P X" and "\<And>r. P r \<Longrightarrow> quiet qv (f r) Q X"
  shows "quiet qv (andThen m f) Q X"
  by (rule quietI)
    (auto simp: wp_simps intro!: wp_mono [OF quiet_on [OF assms(1) refl]] quiet_on [OF assms(2)])

lemma quiet_try_except [quiet_rules]:
  assumes "quiet qv m P Y" and "\<And>e. Y e \<Longrightarrow> quiet qv (h e) P X"
  shows "quiet qv (try_except m h) P X"
  by (rule quietI)
    (auto simp: wp_simps intro!: wp_mono [OF quiet_on [OF assms(1) refl]] quiet_on [OF assms(2)])

lemma quiet_try_finally [quiet_rules]:
  assumes "quiet qv m P X" and "quiet qv f (\<lambda>_. True) X"
  shows "quiet qv (try_finally m f) P X"
proof (rule quietI)
  fix w
  have "wp f (\<lambda>_. S) (\<lambda>e w'. ready (qv w') = ready (qv w) \<and> X e) w1"
    if "ready (qv w1) = ready (qv w)" and "\<And>w'. ready (qv w') = ready (qv w) \<Longrightarrow> S w'" for w1 S
    using quiet_on [OF assms(2) that(1)] by (rule wp_mono) (auto intro: that(2))
  then show "wp (try_finally m f) (\<lambda>r w'. ready (qv w') = ready (qv w) \<and> P r)
      (\<lambda>e w'. ready (qv w') = ready (qv w) \<and> X e) w"
    by (auto simp: wp_simps intro!: wp_mono [OF quiet_on [OF assms(1) refl]])
qed

lemma quiet_raising_with [quiet_rules]:
  assumes "quiet qv m P Y" and "\<And>e. Y e \<Longrightarrow> X (e, y)"
  shows "quiet qv (raising_with y m) P X"
  by (rule quietI)
    (auto simp: wp_simps intro!: assms(2) wp_mono [OF quiet_on [OF assms(1) refl]])

lemma quiet_if [quiet_rules]:
  "(b \<Longrightarrow> quiet qv m P X) \<Longrightarrow> (\<not> b \<Longrightarrow> quiet qv n P X) \<Longrightarrow> quiet qv (if b then m else n) P X"
  by simp

lemma quiet_option [quiet_rules]:
  "(y = None \<Longrightarrow> quiet qv m P X) \<Longrightarrow> (\<And>z. y = Some z \<Longrightarrow> quiet qv (n z) P X) \<Longrightarrow>
     quiet qv (case y of None \<Rightarrow> m | Some z \<Rightarrow> n z) P X"
  by (simp split: option.split)

lemma quiet_let [quiet_rules]: "quiet qv (f y) P X \<Longrightarrow> quiet qv (let z = y in f z) P X"
  by simp

lemma quiet_weaken:
  "quiet qv m P X \<Longrightarrow> (\<And>r. P r \<Longrightarrow> Q r) \<Longrightarrow> (\<And>e. X e \<Longrightarrow> Y e) \<Longrightarrow> quiet qv m Q Y"
  unfolding quiet_def by (rule contractI) (auto elim!: contract_wp)

text \<open>A program framed by no identifier leaves every queue alone.\<close>

lemma framed_quiet: "framed dbv qv {} m P X \<Longrightarrow> quiet qv m P X"
  unfolding framed_def
  by (rule quietI, rule contract_wp, assumption) (auto simp: frame_def queue_only_def)

lemma effect_quiet:
  assumes "queue_effect dbv qv pe m f" and "\<And>v. ready (f v) = ready v"
  shows "quiet qv m (\<lambda>_. True) (\<lambda>_. True)"
  using assms(1) unfolding queue_effect_def
  by (intro quietI, elim contract_wp) (auto simp: assms(2))

context services
begin

lemmas quiet_ports [quiet_rules] =
  framed_quiet [OF framed_now] framed_quiet [OF framed_metric] framed_quiet [OF framed_transition]
  framed_quiet [OF framed_save] framed_quiet [OF framed_append] framed_quiet [OF framed_get]
  framed_quiet [OF framed_is_cancelled]
  effect_quiet [OF enqueue_scheduled, simplified] effect_quiet [OF enqueue_dlq, simplified]
  effect_quiet [OF clear_cancelled, simplified] effect_quiet [OF mark_inflight, simplified]
  effect_quiet [OF clear_inflight, simplified]

lemma quiet_schedule_retry [quiet_rules]:
  "0 \<le> priority t \<Longrightarrow> quiet qv (schedule_retry x t from error ty template) (\<lambda>t'. 0 \<le> priority t') (\<lambda>_. True)"
  unfolding schedule_retry_def by (rule quiet_rules | clarsimp)+

lemma quiet_dead_letter [quiet_rules]:
  "0 \<le> priority t \<Longrightarrow> quiet qv (move_to_dead_letter x t from error ty) (\<lambda>t'. 0 \<le> priority t') (\<lambda>_. True)"
  unfolding move_to_dead_letter_def by (rule quiet_rules | clarsimp)+

lemma quiet_execution_failure:
  "0 \<le> priority t \<Longrightarrow> quiet qv (handle_execution_failure x t error) (\<lambda>t'. 0 \<le> priority t') (\<lambda>_. True)"
  unfolding handle_execution_failure_def by (rule quiet_rules | simp)+

end

context worker
begin

lemma quiet_run_and_complete:
  assumes "0 \<le> priority t"
  shows "quiet qv (run_and_complete x te t) (\<lambda>t'. 0 \<le> priority t') (\<lambda>(e, t'). 0 \<le> priority t')"
proof -
  have "quiet qv (andThen (run_executor te t) (\<lambda>result.
        andThen (transition x t COMPLETED) (\<lambda>t'.
        andThen (now (svc_rt x)) (\<lambda>n.
        ret (t'\<lparr>task_result := Some result, finished_at := Some n, task_error := None\<rparr>)))))
     (\<lambda>t'. 0 \<le> priority t') (\<lambda>_. True)"
    by (rule quiet_rules framed_quiet [OF framed_run_executor] | clarsimp simp: assms)+
  then have run: "quiet qv (raising_with t (andThen (run_executor te t) (\<lambda>result.
        andThen (transition x t COMPLETED) (\<lambda>t'.
        andThen (now (svc_rt x)) (\<lambda>n.
        ret (t'\<lparr>task_result := Some result, finished_at := Some n, task_error := None\<rparr>))))))
     (\<lambda>t'. 0 \<le> priority t') (\<lambda>(e, t'). 0 \<le> priority t')"
    by (rule quiet_raising_with) (simp add: assms)
  show ?thesis
    unfolding run_and_complete_def
    by (rule quiet_andThen [OF run]) (rule quiet_rules | clarsimp)+
qed

lemma quiet_execute_task:
  assumes "0 \<le> priority t"
  shows "quiet qv (execute_task x te t wid) (\<lambda>_. True) (\<lambda>_. True)"
proof -
  have body: "quiet qv (try_except (run_and_complete x te t') (execution_failed x)) (\<lambda>_. True) (\<lambda>_. True)"
    if "0 \<le> priority t'" for t'
    by (rule quiet_try_except [OF quiet_weaken [OF quiet_run_and_complete [OF that]]])
      (auto simp: execution_failed_def intro!: quiet_throw quiet_weaken [OF quiet_execution_failure])
  show ?thesis
    unfolding execute_task_def execute_cancelled_def execution_cleanup_def
    by (rule body quiet_rules | use assms in clarsimp)+
qed

end

section \<open>A worker's session\<close>

context deployment
begin

lemma quiet_process_body: "quiet qv (process_body c te wid i) (\<lambda>_. True) (\<lambda>_. True)"
  unfolding process_body_def Let_def get_task_def
  by (rule quiet_andThen [OF framed_quiet [OF framed_get]])
    (auto split: option.split intro!: quiet_ret quiet_execute_task)

lemma session_quiet:
  assumes "framed dbv qv UNIV body (\<lambda>_. True) (\<lambda>_. True)" and "quiet qv body (\<lambda>_. True) (\<lambda>_. True)"
  shows "wp (session c body) (\<lambda>_ w'. ready (qv w') = ready (qv w)) (\<lambda>_ w'. ready (qv w') = ready (qv w)) w"
proof (rule wp_mono [OF session_wp [OF assms(1)]])
  show "wp body (\<lambda>_ w'. ready (qv w') = ready (qv w)) (\<lambda>_ w'. ready (qv w') = ready (qv w)) w0"
    if "qv w0 = qv w" for w0
    using quiet_on [OF assms(2), of w0 "ready (qv w)"] that by simp
qed (auto simp: session_returned_def session_raised_def)

text \<open>A killed worker has touched neither the committed tables nor the ready lists.\<close>

lemma died_quiet:
  assumes "process_body (doomed (drawing f c)) (doomed_executors te) wid i (sq_begin (c_session c) w, n) = (r, (w', k))"
  shows "ready (qv w') = ready (qv w)"
  using contractD [OF deployment.quiet_process_body [OF dying [of f], unfolded quiet_def],
      of wid i "(sq_begin (c_session c) w, n)"] assms
  by (auto simp: wp_def begin_fresh split: sum.splits)

end

end
