(* ===== verification/Lost_Retry.thy ===== *)
theory Lost_Retry
  imports Quiet
begin

text \<open>
  A QUEUED task whose identifier is in no ready list stays that way, whatever the processes do
  short of cancelling it: the scheduler releases SCHEDULED tasks only, and the workers take
  their work off the ready lists only. Retries end in such a state.
\<close>

section \<open>Identifiers outside the ready lists\<close>

definition off_ready :: "TaskId \<Rightarrow> queue_view \<Rightarrow> bool" where
  "off_ready i v \<longleftrightarrow> (\<forall>l. i \<notin> set (ready v l))"

lemma queue_only_off_ready:
  assumes "queue_only is v v'" and "i \<notin> is" and "off_ready i v"
  shows "off_ready i v'"
proof -
  have "i \<notin> set (ready v' l)" for l
  proof
    assume "i \<in> set (ready v' l)"
    with assms(2) have "i \<in> set (filter (\<lambda>j. j \<notin> is) (ready v' l))" by simp
    with assms(1) have "i \<in> set (filter (\<lambda>j. j \<notin> is) (ready v l))"
      by (simp add: queue_only_def)
    with assms(3) show False by (simp add: off_ready_def)
  qed
  then show ?thesis by (simp add: off_ready_def)
qed

lemma frame_off_ready: "frame dbv qv is w w' \<Longrightarrow> i \<notin> is \<Longrightarrow> off_ready i (qv w) \<Longrightarrow> off_ready i (qv w')"
  by (auto simp: frame_def intro: queue_only_off_ready)

lemma unschedule_off_ready [simp]: "off_ready i (unschedule is v) = off_ready i v"
  by (simp add: off_ready_def unschedule_def)

lemma pop_from_off_ready:
  "pop_from ls v = Some (j, v') \<Longrightarrow> off_ready i v \<Longrightarrow> j \<noteq> i \<and> off_ready i v'"
proof (induction ls)
  case (Cons l ls)
  show ?case
  proof (cases "ready v l = []")
    case False
    then have "last (ready v l) \<in> set (ready v l)" by simp
    with False Cons.prems in_set_butlastD [of i "ready v l"] show ?thesis
      by (auto simp: off_ready_def split: if_splits)
  qed (use Cons in simp)
qed simp

lemma pop_ready_off_ready:
  "pop_ready levels v = Some (j, v') \<Longrightarrow> off_ready i v \<Longrightarrow> j \<noteq> i \<and> off_ready i v'"
  by (simp add: pop_ready_def pop_from_off_ready)

section \<open>Session bodies that leave such a task where it is\<close>

definition leaves ::
  "('w \<Rightarrow> db_view) \<Rightarrow> ('w \<Rightarrow> queue_view) \<Rightarrow> TaskId \<Rightarrow> Task \<Rightarrow> ('w, 'a) prog \<Rightarrow> bool" where
  "leaves dbv qv i row m \<longleftrightarrow>
     (\<forall>w. settled (tasks (dbv w)) \<and> tasks (dbv w) i = Some row \<and> off_ready i (qv w) \<longrightarrow>
        wp m (\<lambda>_ w'. settled (tasks (dbv w')) \<and> tasks (dbv w') i = Some row \<and> off_ready i (qv w'))
          (\<lambda>_ w'. off_ready i (qv w')) w)"

lemma leavesI:
  assumes "\<And>w. settled (tasks (dbv w)) \<Longrightarrow> tasks (dbv w) i = Some row \<Longrightarrow> off_ready i (qv w) \<Longrightarrow>
    wp m (\<lambda>_ w'. settled (tasks (dbv w')) \<and> tasks (dbv w') i = Some row \<and> off_ready i (qv w'))
      (\<lambda>_ w'. off_ready i (qv w')) w"
  shows "leaves dbv qv i row m"
  using assms by (simp add: leaves_def)

lemma leavesD:
  assumes "leaves dbv qv i row m"
    and "settled (tasks (dbv w))" and "tasks (dbv w) i = Some row" and "off_ready i (qv w)"
  shows "wp m (\<lambda>_ w'. settled (tasks (dbv w')) \<and> tasks (dbv w') i = Some row \<and> off_ready i (qv w'))
      (\<lambda>_ w'. off_ready i (qv w')) w"
  using assms by (simp add: leaves_def)

lemma leaves_ret: "leaves dbv qv i row (ret r)"
  by (rule leavesI) (simp add: wp_simps)

lemma leaves_andThen:
  assumes "leaves dbv qv i row m" and "\<And>r. leaves dbv qv i row (f r)"
  shows "leaves dbv qv i row (andThen m f)"
  by (rule leavesI)
    (auto simp: wp_simps intro!: wp_mono [OF leavesD [OF assms(1)]] leavesD [OF assms(2)])

text \<open>A body that works on other identifiers: its frame and its effect on the row suffice.\<close>

lemma leaves_framed:
  assumes "framed dbv qv is m (\<lambda>_. True) (\<lambda>_. True)" and "i \<notin> is" and "settles dbv m"
    and "\<And>w. settled (tasks (dbv w)) \<Longrightarrow> tasks (dbv w) i = Some row \<Longrightarrow>
      wp m (\<lambda>_ w'. tasks (dbv w') i = Some row) (\<lambda>_ _. True) w"
  shows "leaves dbv qv i row m"
proof (rule leavesI)
  fix w assume w: "settled (tasks (dbv w))" "tasks (dbv w) i = Some row" "off_ready i (qv w)"
  note both = wp_conj [OF settlesD [where dbv = dbv, OF assms(3) w(1)] assms(4) [OF w(1,2)]]
  from framed_wp [OF assms(1) both] show "wp m
      (\<lambda>_ w'. settled (tasks (dbv w')) \<and> tasks (dbv w') i = Some row \<and> off_ready i (qv w'))
      (\<lambda>_ w'. off_ready i (qv w')) w"
    by (rule wp_mono) (use assms(2) w(3) in \<open>auto intro: frame_off_ready\<close>)
qed

context services
begin

lemma enqueued_other: "enqueued x dbv qv t w t' w' \<Longrightarrow> task_id t \<noteq> i \<Longrightarrow> tasks (dbv w') i = tasks (dbv w) i"
  by (auto simp: enqueued_def)

lemma leaves_submit:
  assumes "\<not> mints x i"
  shows "leaves dbv qv i row (submit x r)"
proof (rule leaves_framed [OF framed_submit])
  show "j \<in> - {i}" if "mints x j" for j using assms that by auto
  fix w assume row: "tasks (dbv w) i = Some row"
  show "wp (submit x r) (\<lambda>_ w'. tasks (dbv w') i = Some row) (\<lambda>_ _. True) w"
  proof (rule submit_cases [of r w], goal_cases)
    case (1 k j t)
    then show ?case by (intro wp_mono [OF submit_known_key_wp]) (auto simp: keeps_def row)
  next
    case 2
    then show ?case by (intro wp_mono [OF submit_too_large_wp]) auto
  next
    case (3 e)
    then show ?case by (intro wp_mono [OF submit_invalid_wp]) auto
  next
    case (4 ex)
    show ?case
    proof (rule submit_new_wp [OF _ 4(2,3,4)], goal_cases)
      case (2 c j t k1 e1 w1 t' w2 w3)
      then have "task_id t \<noteq> i" using assms Task_create_Inr(1) [OF 2(3)] by auto
      with 2 row enqueued_other [OF 2(8)] show ?case by simp
    qed (use 4 in auto)
  qed
qed (auto intro: submit_settles)

lemma leaves_retry:
  assumes "\<not> retriable (task_status row)"
  shows "leaves dbv qv i row (retry_task x j)"
proof (cases "j = i")
  case True
  have "wp (retry_task x i) (\<lambda>_ w'. settled (tasks (dbv w')) \<and> tasks (dbv w') i = Some row \<and> off_ready i (qv w'))
      (\<lambda>_ w'. off_ready i (qv w')) w"
    if "tasks (dbv w) i = Some row" "off_ready i (qv w)" for w
    by (rule wp_mono [OF retry_task_rejects_wp])
      (use that assms in \<open>auto simp: keeps_def intro: frame_off_ready\<close>)
  with True show ?thesis by (intro leavesI) simp
next
  case False
  show ?thesis
  proof (rule leaves_framed [OF framed_retry_task])
    fix w assume row: "tasks (dbv w) i = Some row"
    show "wp (retry_task x j) (\<lambda>_ w'. tasks (dbv w') i = Some row) (\<lambda>_ _. True) w"
    proof (cases "\<exists>t. tasks (dbv w) j = Some t \<and> retriable (task_status t)")
      case True
      then obtain t where t: "tasks (dbv w) j = Some t" "retriable (task_status t)" by blast
      then have "task_id t = j" using stored_task by simp
      then show ?thesis using False row by (intro wp_mono [OF retry_task_wp [OF t]]) auto
    next
      case False
      then show ?thesis by (intro wp_mono [OF retry_task_rejects_wp]) auto
    qed
  qed (use False in \<open>auto intro: retry_settles\<close>)
qed

lemma leaves_cancel:
  assumes "j \<noteq> i"
  shows "leaves dbv qv i row (cancel x j)"
proof (rule leaves_framed [OF framed_weaken [OF framed_cancel subset_refl]])
  fix w assume s: "settled (tasks (dbv w))" and row: "tasks (dbv w) i = Some row"
  show "wp (cancel x j) (\<lambda>_ w'. tasks (dbv w') i = Some row) (\<lambda>_ _. True) w"
  proof (cases "tasks (dbv w) j")
    case None
    then show ?thesis by (intro wp_mono [OF cancel_missing_wp]) auto
  next
    case (Some t)
    then have "task_id t = j" using stored_task by simp
    then show ?thesis
      using settledD [OF s Some] assms row
      by (cases "task_status t = QUEUED")
        (intro wp_mono [OF cancel_wp [OF Some]] wp_mono [OF cancel_rejects_wp [OF Some]]; auto)+
  qed
qed (use assms in \<open>auto intro: cancel_settles\<close>)

lemma release_skips_wp:
  assumes "settled (tasks (dbv w))"
  shows "wp (release x j s) (\<lambda>s' w'. s' = s \<and> keeps dbv qv w w') (\<lambda>_ w'. frame dbv qv {} w w') w"
  unfolding release_def wp_andThen
  by (rule get_rule)
    (auto simp: wp_simps keeps_def split: option.split dest: settledD [OF assms])

lemma leaves_process_due: "leaves dbv qv i row (process_due_tasks x)"
proof (rule leavesI)
  fix w assume w: "settled (tasks (dbv w))" "tasks (dbv w) i = Some row" "off_ready i (qv w)"
  let ?I = "\<lambda>w'. settled (tasks (dbv w')) \<and> tasks (dbv w') i = Some row \<and> off_ready i (qv w')"
  show "wp (process_due_tasks x) (\<lambda>_. ?I) (\<lambda>_ w'. off_ready i (qv w')) w"
    unfolding process_due_tasks_def wp_andThen
  proof (rule contract_wp [OF claim_due])
    fix due w1
    assume "dbv w1 = dbv w \<and> qv w1 = unschedule (set due) (qv w) \<and>
      (\<exists>n. claimable (scheduler_batch_size (svc_st x)) n (qv w) due)"
    then have start: "?I w1" using w by simp
    show "wp (for_each due (release x) 0) (\<lambda>_. ?I) (\<lambda>_ w'. off_ready i (qv w')) w1"
    proof (rule wp_for_each [where I = "\<lambda>_. ?I", OF start])
      fix j s w2 assume "?I w2"
      then show "wp (release x j s) (\<lambda>_. ?I) (\<lambda>_ w'. off_ready i (qv w')) w2"
        by (intro wp_mono [OF release_skips_wp]) (auto simp: keeps_def intro: frame_off_ready)
    qed
  qed (use w in auto)
qed

lemma leaves_reconcile: "leaves dbv qv i row (reconcile x)"
  by (rule leavesI, rule wp_mono [OF reconcile_idle_wp])
    (auto simp: keeps_def dest: settledD intro: frame_off_ready)

lemma leaves_reconcile_enqueue_failed: "leaves dbv qv i row (reconcile_enqueue_failed x n)"
  by (rule leavesI, rule wp_mono [OF reconcile_enqueue_failed_idle_wp])
    (auto simp: keeps_def dest: settledD intro: frame_off_ready)

lemma leaves_heartbeat: "leaves dbv qv i row (heartbeat x wid host)"
proof (rule leaves_framed [OF framed_heartbeat])
  show "wp (heartbeat x wid host) (\<lambda>_ w'. tasks (dbv w') i = Some row) (\<lambda>_ _. True) w"
    if "tasks (dbv w) i = Some row" for w
    unfolding heartbeat_def
    by (auto simp: wp_simps that intro!: wp_rules split: sum.split option.split)
qed (auto intro: heartbeat_settles)

lemma leaves_register: "leaves dbv qv i row (register_worker x host md)"
proof (rule leaves_framed [OF framed_register])
  show "wp (register_worker x host md) (\<lambda>_ w'. tasks (dbv w') i = Some row) (\<lambda>_ _. True) w"
    if "tasks (dbv w) i = Some row" for w
    unfolding register_worker_def Let_def
    by (auto simp: wp_simps that intro!: wp_rules)
qed (auto intro: register_settles)

lemma leaves_metric: "leaves dbv qv i row (metric (svc_rt x) m)"
  by (rule leavesI) (auto intro!: metric_rule)

end

context worker
begin

lemma executed_other:
  assumes "executed dbv qv t wid w w'" and "task_id t \<noteq> i"
  shows "tasks (dbv w') i = tasks (dbv w) i"
proof -
  from assms(1) obtain t1 k e w1 where r: "running t wid t1" "dbv w1 = put_event e (put_task k t1 (dbv w))"
    and fin: "finished dbv qv t1 w1 w'" by (auto simp: executed_def)
  have id: "task_id t1 = task_id t" using r(1) by (auto simp: running_def)
  from fin obtain row where "tasks (dbv w') = (tasks (dbv w1))(task_id t1 \<mapsto> row)" by (rule finished_row)
  with r(2) id assms(2) show ?thesis by simp
qed

lemma execute_other_wp:
  assumes "task_status t = QUEUED" and "0 \<le> priority t" and "task_id t \<noteq> i"
  shows "wp (execute_task x te t wid) (\<lambda>_ w'. tasks (dbv w') i = tasks (dbv w) i) (\<lambda>_ _. True) w"
proof (cases "task_id t \<in> cancelled (qv w)")
  case True
  have "wp (execute_cancelled x t) (\<lambda>_ w'. tasks (dbv w') i = tasks (dbv w) i) (\<lambda>_ _. True) w'"
    if "dbv w' = dbv w" for w'
    by (rule wp_mono [OF execute_cancelled_wp]) (use assms that in auto)
  with True show ?thesis
    unfolding execute_task_def wp_andThen by (intro is_cancelled_rule) auto
next
  case False
  show ?thesis
    by (intro wp_mono [OF execute_task_wp [OF assms(1,2) False]])
      (auto simp: executed_other [OF _ assms(3)])
qed

lemma leaves_execute:
  assumes "task_status t = QUEUED" and "0 \<le> priority t" and "task_id t \<noteq> i"
  shows "leaves dbv qv i row (execute_task x te t wid)"
proof (rule leaves_framed [OF framed_execute_task [OF assms(2) singletonI]])
  show "wp (execute_task x te t wid) (\<lambda>_ w'. tasks (dbv w') i = Some row) (\<lambda>_ _. True) w"
    if "tasks (dbv w) i = Some row" for w
    by (rule wp_mono [OF execute_other_wp [OF assms]]) (use that in auto)
qed (use assms in \<open>auto intro: execute_settles\<close>)

end

section \<open>The workers' hands\<close>

text \<open>How many sessions are due over an identifier that workers have taken.\<close>

definition holders :: "TaskId \<Rightarrow> (string \<times> TaskId) list \<Rightarrow> nat" where
  "holders i h = length (filter (\<lambda>p. snd p = i) h)"

lemma holders_simps [simp]:
  "holders i [] = 0" "holders i ((wid, j) # h) = (if j = i then Suc (holders i h) else holders i h)"
  by (simp_all add: holders_def)

lemma holders_remove1:
  "p \<in> set h \<Longrightarrow> holders i (remove1 p h) = (if snd p = i then holders i h - 1 else holders i h)"
  by (auto simp: holders_def filter_remove1 length_remove1)

lemma holders_none: "holders i h = 0 \<longleftrightarrow> i \<notin> snd ` set h"
  by (auto simp: holders_def filter_empty_conv)

section \<open>All processes leave it where it is\<close>

context deployment
begin

definition parked :: "TaskId \<Rightarrow> Task \<Rightarrow> 'w \<Rightarrow> bool" where
  "parked i row w \<longleftrightarrow> settled_at w \<and> committed (dbv w) i = Some row \<and> off_ready i (qv w)"

lemma session_parked:
  assumes "framed dbv qv UNIV body (\<lambda>_. True) (\<lambda>_. True)" and "leaves dbv qv i row body" and "parked i row w"
  shows "wp (session c body) (\<lambda>_ w'. parked i row w') (\<lambda>_ w'. parked i row w') w"
proof -
  let ?Q = "\<lambda>_ w'. settled (tasks (dbv w')) \<and> tasks (dbv w') i = Some row \<and> off_ready i (qv w')"
  let ?E = "\<lambda>_ w'. off_ready i (qv w')"
  show ?thesis
  proof (rule wp_mono [OF session_wp [OF assms(1)]])
    show "wp body ?Q ?E w0" if "dbv w0 = fresh (dbv w)" "qv w0 = qv w" for w0
      by (rule leavesD [OF assms(2)]) (use assms(3) that in \<open>simp_all add: parked_def fresh_def\<close>)
  next
    fix r w' assume "session_returned dbv qv ?Q r w'"
    then show "parked i row w'" by (auto simp: session_returned_def saved_def parked_def)
  next
    fix e w' assume "session_raised c dbv qv pe ?Q ?E w e w'"
    then show "parked i row w'"
      using assms(3) by (auto simp: session_raised_def saved_def durable_def parked_def)
  qed
qed

lemma leaves_scheduler_pass: "leaves dbv qv i row (scheduler_pass c)"
  unfolding scheduler_pass_def Let_def
  using leaves_process_due leaves_reconcile leaves_reconcile_enqueue_failed [of i row 50] leaves_metric
  by (intro leaves_andThen leaves_ret) (auto simp: container_services_def intro: leaves_ret)

lemma leaves_process_body:
  assumes "j \<noteq> i"
  shows "leaves dbv qv i row (process_body c te wid j)"
proof (rule leavesI)
  fix w assume w: "settled (tasks (dbv w))" "tasks (dbv w) i = Some row" "off_ready i (qv w)"
  let ?Q = "\<lambda>_ w'. settled (tasks (dbv w')) \<and> tasks (dbv w') i = Some row \<and> off_ready i (qv w')"
  let ?E = "\<lambda>_ w'. off_ready i (qv w')"
  show "wp (process_body c te wid j) ?Q ?E w"
    unfolding process_body_def Let_def get_task_def wp_andThen
  proof (rule get_rule)
    fix w1 assume w1: "dbv w1 = dbv w" "qv w1 = qv w"
    show "wp (case tasks (dbv w) j of None \<Rightarrow> ret ()
        | Some t \<Rightarrow> if task_status t \<noteq> QUEUED then ret () else execute_task (container_services c) te t wid) ?Q ?E w1"
      using w w1 stored_task [of w j] assms
      by (auto simp: wp_simps split: option.split intro!: leavesD [OF leaves_execute])
  qed (use w in \<open>auto intro: frame_off_ready\<close>)
qed

lemma consume_parked:
  assumes "parked i row w"
  shows "wp (consume_dequeue c) (\<lambda>r w'. parked i row w' \<and> r \<noteq> Some i) (\<lambda>_ w'. parked i row w') w"
  by (rule consume_dequeue_rule)
    (use assms in \<open>auto simp: parked_def dest: pop_ready_off_ready\<close>)

lemma process_turn_parked:
  assumes "parked i row w" and "j \<noteq> i"
  shows "wp (process_turn c te wid j) (\<lambda>_ w'. parked i row w') (\<lambda>_ w'. parked i row w') w"
  using session_parked [OF framed_process_body leaves_process_body [OF assms(2)] assms(1)]
  by (simp add: process_turn_def wp_simps cong: if_cong)

lemma act_parked:
  assumes "parked i row w" and "task_status row = QUEUED" and "q \<noteq> Cancel i"
    and "\<not> mints (container_services c) i"
  shows "wp (act c q) (\<lambda>_ w'. parked i row w') (\<lambda>_ w'. parked i row w') w"
proof (cases q)
  case (Submit r)
  then show ?thesis
    using assms by (simp add: unit_result_rule session_parked framed_submit leaves_submit)
next
  case (Retry j)
  have "framed dbv qv UNIV (retry_task (container_services c) j) (\<lambda>_. True) (\<lambda>_. True)"
    by (rule framed_weaken [OF framed_retry_task]) auto
  with Retry assms show ?thesis
    by (simp add: unit_result_rule session_parked leaves_retry retriable_def)
next
  case (Cancel j)
  have "framed dbv qv UNIV (cancel (container_services c) j) (\<lambda>_. True) (\<lambda>_. True)"
    by (rule framed_weaken [OF framed_cancel]) auto
  with Cancel assms show ?thesis by (simp add: unit_result_rule session_parked leaves_cancel)
next
  case Tick
  have "wp (metric (c_runtime c) SCHEDULER_TICKS) (\<lambda>_ w'. parked i row w') E w" for E
    using metric_rule [of w "\<lambda>_ w'. parked i row w'" SCHEDULER_TICKS E] assms(1)
    by (simp add: container_services_def parked_def)
  then show ?thesis
    unfolding Tick act.simps scheduler_tick_def wp_andThen
    by (rule wp_mono) (auto intro: session_parked framed_scheduler_pass leaves_scheduler_pass)
next
  case (Heartbeat wid host)
  from session_parked [OF framed_heartbeat leaves_heartbeat assms(1)] show ?thesis
    unfolding Heartbeat by (simp add: heartbeat_turn_def wp_simps cong: if_cong)
next
  case (Register wid host)
  have "framed dbv qv UNIV (andThen (register_worker (container_services c) host md) (\<lambda>x. ret (uuid_str (w_id x))))
      (\<lambda>_. True) (\<lambda>_. True)" for md
    by (intro framed_then framed_register framed_ret) simp
  moreover have "leaves dbv qv i row (andThen (register_worker (container_services c) host md) (\<lambda>x. ret (uuid_str (w_id x))))"
    for md by (intro leaves_andThen leaves_register leaves_ret)
  ultimately show ?thesis using assms(1) unfolding Register
    by (simp add: unit_result_rule register_at_start_def session_parked)
qed

text \<open>
  A step that neither cancels the task nor draws its identifier again, and is not a session
  over it, leaves it parked and gives it to no worker.
\<close>

lemma step_parked:
  assumes "sys_step c te s a s'" and "parked i row (fst s)" and "task_status row = QUEUED"
    and "snd a \<noteq> Request (Cancel i)" and "i \<notin> range (fst a)"
    and "holders i (snd s) = 0 \<or> (\<forall>wid. snd a \<noteq> Work wid i)"
  shows "parked i row (fst s') \<and> holders i (snd s') \<le> holders i (snd s)"
  using assms(1)
proof cases
  case (serves f q w r w' h)
  then have "wp (act (drawing f c) q) (\<lambda>_ w'. parked i row w') (\<lambda>_ w'. parked i row w') w"
    using assms(2-5) by (intro deployment.act_parked [OF drawn]) (auto simp: drawing_mints)
  with serves show ?thesis by (auto simp: wp_def split: sum.splits)
next
  case (takes f w j w' h wid)
  then show ?thesis using deployment.consume_parked [OF drawn [of f], of i row w] assms(2)
    by (auto simp: wp_def)
next
  case (idles f w r w' h wid)
  then show ?thesis using deployment.consume_parked [OF drawn [of f], of i row w] assms(2)
    by (auto simp: wp_def split: sum.splits)
next
  case (works wid j h f w r w')
  then have "j \<noteq> i" using assms(6) by (force simp: holders_none)
  with works show ?thesis using deployment.process_turn_parked [OF drawn [of f], of i row w j wid] assms(2)
    by (auto simp: wp_def holders_remove1 split: sum.splits)
next
  case (dies wid j h f w n r w' k)
  then show ?thesis using died_durable [OF dies(5)] died_quiet [OF dies(5)] assms(2)
    by (auto simp: parked_def durable_def off_ready_def holders_remove1)
qed

lemma run_parked:
  assumes "sys_run c te s as s'" and "parked i row (fst s)" and "task_status row = QUEUED"
    and "\<forall>(f, a) \<in> set as. a \<noteq> Request (Cancel i) \<and> i \<notin> range f"
    and "holders i (snd s) = 0 \<or> (\<forall>f wid. (f, Work wid i) \<notin> set as)"
  shows "parked i row (fst s') \<and> holders i (snd s') \<le> holders i (snd s)"
  using assms
proof (induction rule: sys_run.induct)
  case (more s as s' a s'')
  then have IH: "parked i row (fst s')" "holders i (snd s') \<le> holders i (snd s)" by auto
  have "snd a \<noteq> Request (Cancel i)" "i \<notin> range (fst a)" using more.prems(3) by (cases a; auto)+
  moreover have "holders i (snd s') = 0 \<or> (\<forall>wid. snd a \<noteq> Work wid i)"
    using more.prems(4) IH(2) by (cases a) auto
  ultimately show ?case using step_parked [OF more(2) IH(1) more.prems(2)] IH(2) by (meson le_trans)
qed simp

text \<open>The pop itself changes neither table.\<close>

lemma taken_parked:
  assumes "settled_at w" and "committed (dbv w) i = Some row"
    and "consume_dequeue c w = (Inr (Some i), w1)" and "off_ready i (qv w1)"
  shows "parked i row w1"
proof -
  have "wp (consume_dequeue c) (\<lambda>_ w'. dbv w' = dbv w) (\<lambda>_ _. True) w"
    by (rule consume_dequeue_rule) auto
  with assms show ?thesis by (simp add: wp_def parked_def)
qed

text \<open>A worker that is killed while it holds the identifier leaves the task parked for good.\<close>

lemma killed_parked:
  assumes "sys_run c te (w, (wid, i) # h) (as @ (f, Die wid i n) # bs) s'"
    and "parked i row w" and "task_status row = QUEUED" and "i \<notin> snd ` set h"
    and "\<forall>g v. (g, Work v i) \<notin> set as"
    and "\<forall>(g, a) \<in> set (as @ (f, Die wid i n) # bs). a \<noteq> Request (Cancel i) \<and> i \<notin> range g"
  shows "parked i row (fst s') \<and> holders i (snd s') = 0"
proof -
  have "sys_run c te (w, (wid, i) # h) (as @ [(f, Die wid i n)] @ bs) s'" using assms(1) by simp
  then obtain s1 s2 where run: "sys_run c te (w, (wid, i) # h) as s1" "sys_run c te s1 [(f, Die wid i n)] s2"
    "sys_run c te s2 bs s'" by (meson sys_run_append)
  have "parked i row (fst s1) \<and> holders i (snd s1) \<le> 1"
    using run_parked [OF run(1) _ assms(3), where i = i] assms(2,4-6) by (auto simp: holders_none [symmetric])
  moreover have die: "sys_step c te s1 (f, Die wid i n) s2"
    using run(2) by (simp add: sys_run_one)
  moreover have "i \<notin> range f" using assms(6) by auto
  ultimately have "parked i row (fst s2)" using step_parked [OF die, of i row] assms(3) by simp
  moreover have "holders i (snd s2) = 0"
    using die \<open>parked i row (fst s1) \<and> holders i (snd s1) \<le> 1\<close> by cases (simp add: holders_remove1)
  ultimately show ?thesis using run_parked [OF run(3) _ assms(3)] assms(6) by fastforce
qed

end

end
