(* ===== verification/Drain.thy ===== *)
theory Drain
  imports Lost_Retry
begin

text \<open>
  The order in which the workers take the identifiers of the ready lists: as long as Redis
  answers the pop, every identifier comes up, in this order.
\<close>

section \<open>The order of the ready lists\<close>

definition waiting_ids :: "int \<Rightarrow> queue_view \<Rightarrow> TaskId list" where
  "waiting_ids levels v = concat (map (\<lambda>l. rev (ready v l)) [0..levels - 1])"

lemma pop_from_order:
  assumes "pop_from ls v = Some (i, v')" and "distinct ls"
  shows "concat (map (\<lambda>l. rev (ready v l)) ls) = i # concat (map (\<lambda>l. rev (ready v' l)) ls)"
  using assms
proof (induction ls)
  case (Cons l ls)
  show ?case
  proof (cases "ready v l = []")
    case True
    then have "l \<notin> set ls" "pop_from ls v = Some (i, v')" using Cons.prems by simp_all
    have "ready v' l = []"
      using \<open>pop_from ls v = Some (i, v')\<close> \<open>l \<notin> set ls\<close> True
      by (induction ls) (auto split: if_splits)
    with True Cons show ?thesis by simp
  next
    case False
    then have i: "i = last (ready v l)" and v': "v' = v\<lparr>ready := (ready v)(l := butlast (ready v l))\<rparr>"
      using Cons.prems(1) by simp_all
    have "ready v l = ready v' l @ [i]" using False i v' by simp
    from arg_cong [OF this, of rev] have "rev (ready v l) = i # rev (ready v' l)" by simp
    moreover have "map (\<lambda>l. rev (ready v' l)) ls = map (\<lambda>l. rev (ready v l)) ls"
      using Cons.prems(2) v' by auto
    ultimately show ?thesis by (simp only: list.map concat.simps append_Cons)
  qed
qed simp

lemma pop_from_empty: "pop_from ls v = None \<Longrightarrow> concat (map (\<lambda>l. rev (ready v l)) ls) = []"
  by (induction ls) (auto split: if_splits)

lemma pop_ready_order:
  "pop_ready levels v = Some (i, v') \<Longrightarrow> waiting_ids levels v = i # waiting_ids levels v'"
  "pop_ready levels v = None \<Longrightarrow> waiting_ids levels v = []"
  unfolding pop_ready_def waiting_ids_def by (simp_all add: pop_from_order pop_from_empty)

section \<open>Turns of the workers\<close>

text \<open>One turn of a worker: take an identifier off the ready lists and process it.\<close>

definition worker_turn :: "'w Container \<Rightarrow> 'w TaskExecutors \<Rightarrow> string \<Rightarrow> ('w, unit) prog" where
  "worker_turn c te wid =
     andThen (consume_dequeue c) (\<lambda>i. case i of None \<Rightarrow> ret () | Some i \<Rightarrow> process_turn c te wid i)"

text \<open>Turns, of any workers, in each of which Redis answered the pop.\<close>

inductive answered_turns :: "'w Container \<Rightarrow> 'w TaskExecutors \<Rightarrow> 'w \<Rightarrow> string list \<Rightarrow> 'w \<Rightarrow> bool" for c te w where
  none: "answered_turns c te w [] w"
| turn: "answered_turns c te w wids w1 \<Longrightarrow> qb_dequeue_ready (queue_backend c) 5 w1 = (Inr r, w2) \<Longrightarrow>
    worker_turn c te wid w1 = (res, w') \<Longrightarrow> answered_turns c te w (wids @ [wid]) w'"

context deployment
begin

abbreviation waiting_at :: "'w \<Rightarrow> TaskId list" where
  "waiting_at w \<equiv> waiting_ids (priority_levels (c_settings c)) (qv w)"

lemma pop_in_order:
  assumes "qb_dequeue_ready (queue_backend c) 5 w = (Inr r, w1)"
  shows "r = (case waiting_at w of [] \<Rightarrow> None | i # is \<Rightarrow> Some i) \<and> waiting_at w1 = tl (waiting_at w)"
proof -
  let ?levels = "priority_levels (c_settings c)"
  have "case r of None \<Rightarrow> qv w1 = qv w \<and> pop_ready ?levels (qv w) = None
      | Some i \<Rightarrow> pop_ready ?levels (qv w) = Some (i, qv w1)"
    using contract_Inr [OF dequeue_contract assms] by simp
  then show ?thesis
    using pop_ready_order(1) [of ?levels "qv w" _ "qv w1"] pop_ready_order(2) [of ?levels "qv w"]
    by (cases r) auto
qed

lemma turn_in_order:
  assumes "qb_dequeue_ready (queue_backend c) 5 w = (Inr r, w1)" and "worker_turn c te wid w = (res, w')"
  shows "waiting_at w' = tl (waiting_at w)"
proof -
  have turn: "worker_turn c te wid w = (case r of None \<Rightarrow> ret ()
      | Some i \<Rightarrow> except_Exception (session c (process_body c te wid i)) (\<lambda>_. ret ())) w1"
    using assms(1) by (simp add: worker_turn_def process_turn_def consume_dequeue_def andThen_def try_except_def split: option.split)
  have "wp (case r of None \<Rightarrow> ret ()
      | Some i \<Rightarrow> except_Exception (session c (process_body c te wid i)) (\<lambda>_. ret ()))
      (\<lambda>_ w'. ready (qv w') = ready (qv w1)) (\<lambda>_ w'. ready (qv w') = ready (qv w1)) w1"
    using session_quiet [OF framed_process_body quiet_process_body]
    by (auto simp: wp_simps split: option.split cong: if_cong)
  then have "ready (qv w') = ready (qv w1)"
    using assms(2) turn by (simp add: wp_def split: sum.splits)
  with pop_in_order [OF assms(1)] show ?thesis by (simp add: waiting_ids_def)
qed

lemma turns_in_order:
  assumes "answered_turns c te w wids w'"
  shows "waiting_at w' = drop (length wids) (waiting_at w)"
  using assms
proof (induction rule: answered_turns.induct)
  case (turn wids w1 r w2 wid res w')
  then show ?case using turn_in_order [OF turn(2,3)] by (simp add: tl_drop drop_Suc)
qed simp

end

end
