(* ===== verification/Clock.thy ===== *)
theory Clock
  imports Container Queue_Manager Failure_Handler
begin

text \<open>
  Time passes while a submission runs. The locale \<open>ticking\<close> assumes a clock \<open>clk\<close> of the
  world that no operation of the container turns back, and that a reading lies between the
  clock before and after it; under it every step of a submission, its session included, leaves
  the clock no earlier than it found it. So what the clock read at any moment of the call is
  bounded by what it shows when the call has ended.
\<close>

section \<open>Programs that do not turn the clock back\<close>

definition forward :: "('w \<Rightarrow> int) \<Rightarrow> ('w, 'e, 'a) program \<Rightarrow> bool" where
  "forward clk m \<longleftrightarrow> (\<forall>w. clk w \<le> clk (snd (m w)))"

named_theorems forward_rules \<open>programs that do not turn the clock back\<close>

lemma forwardI: "(\<And>w. clk w \<le> clk (snd (m w))) \<Longrightarrow> forward clk m"
  by (simp add: forward_def)

lemma forwardD: "forward clk m \<Longrightarrow> m w = (r, w') \<Longrightarrow> clk w \<le> clk w'"
  by (metis forward_def snd_conv)

lemma forward_ret [forward_rules]: "forward clk (ret r)"
  by (simp add: forward_def ret_def)

lemma forward_throw [forward_rules]: "forward clk (throw e)"
  by (simp add: forward_def throw_def)

lemma forward_from_sum [forward_rules]: "forward clk (from_sum r)"
  by (simp add: forward_def from_sum_def)

lemma forward_andThen [forward_rules]:
  assumes "forward clk m" and "\<And>r. forward clk (f r)"
  shows "forward clk (andThen m f)"
proof (rule forwardI)
  fix w
  obtain r w1 where m: "m w = (r, w1)" by (cases "m w")
  have "clk w \<le> clk w1" by (rule forwardD [OF assms(1) m])
  moreover have "clk w1 \<le> clk (snd (f y w1))" for y using assms(2) by (simp add: forward_def)
  ultimately show "clk w \<le> clk (snd (andThen m f w))"
    by (auto simp: andThen_def m intro: order_trans split: sum.split)
qed

lemma forward_try_except [forward_rules]:
  assumes "forward clk m" and "\<And>e. forward clk (h e)"
  shows "forward clk (try_except m h)"
proof (rule forwardI)
  fix w
  obtain r w1 where m: "m w = (r, w1)" by (cases "m w")
  have "clk w \<le> clk w1" by (rule forwardD [OF assms(1) m])
  moreover have "clk w1 \<le> clk (snd (h e w1))" for e using assms(2) by (simp add: forward_def)
  ultimately show "clk w \<le> clk (snd (try_except m h w))"
    by (auto simp: try_except_def m intro: order_trans split: sum.split)
qed

lemma forward_try_finally [forward_rules]:
  assumes "forward clk m" and "forward clk f"
  shows "forward clk (try_finally m f)"
proof (rule forwardI)
  fix w
  obtain r w1 where m: "m w = (r, w1)" by (cases "m w")
  obtain r2 w2 where f: "f w1 = (r2, w2)" by (cases "f w1")
  have "clk w \<le> clk w2" using forwardD [OF assms(1) m] forwardD [OF assms(2) f] by simp
  then show "clk w \<le> clk (snd (try_finally m f w))"
    by (auto simp: try_finally_def m f split: sum.split)
qed

lemma forward_raising_with [forward_rules]: "forward clk m \<Longrightarrow> forward clk (raising_with y m)"
  by (auto simp: forward_def raising_with_def split_beta split: sum.split)

lemma forward_if [forward_rules]: "forward clk m \<Longrightarrow> forward clk n \<Longrightarrow> forward clk (if b then m else n)"
  by simp

lemma forward_option [forward_rules]:
  "forward clk m \<Longrightarrow> (\<And>z. forward clk (n z)) \<Longrightarrow> forward clk (case y of None \<Rightarrow> m | Some z \<Rightarrow> n z)"
  by (simp split: option.split)

lemma forward_pair [forward_rules]:
  "(\<And>a b. forward clk (f a b)) \<Longrightarrow> forward clk (case y of (a, b) \<Rightarrow> f a b)"
  by (simp split: prod.split)

lemma forward_let [forward_rules]: "forward clk (f y) \<Longrightarrow> forward clk (let z = y in f z)"
  by simp

lemma forward_except_Exception [forward_rules]:
  "forward clk m \<Longrightarrow> (\<And>e. forward clk (h e)) \<Longrightarrow> forward clk (except_Exception m h)"
  unfolding except_Exception_def by (intro forward_rules)

lemma forward_wp:
  assumes "forward clk m" and "wp m Q E w"
  shows "wp m (\<lambda>r w'. Q r w' \<and> clk w \<le> clk w') (\<lambda>e w'. E e w' \<and> clk w \<le> clk w') w"
  using assms(2) forwardD [OF assms(1), of w] by (auto simp: wp_def split: prod.splits sum.splits)

lemma forward_late:
  "forward clk m \<Longrightarrow> s \<le> clk w \<Longrightarrow> wp m (\<lambda>_ w'. s \<le> clk w') (\<lambda>_ w'. s \<le> clk w') w"
  by (rule wp_mono [OF forward_wp [OF _ wp_any]]) auto

section \<open>A container whose clock runs forward\<close>

locale ticking =
  fixes c :: "'w Container" and clk :: "'w \<Rightarrow> int"
  assumes now_reads: "clk w \<le> fst (rt_now (c_runtime c) w)" "fst (rt_now (c_runtime c) w) \<le> clk (snd (rt_now (c_runtime c) w))"
    and draw_forward: "clk w \<le> clk (snd (rt_uuid4 (c_runtime c) w))"
    and metric_forward: "clk w \<le> clk (rt_metric (c_runtime c) m w)"
    and staged_forward: "clk w \<le> clk (sq_add_task (c_session c) tm w)" "clk w \<le> clk (sq_set_task (c_session c) tm w)"
      "clk w \<le> clk (sq_add_event (c_session c) em w)" "clk w \<le> clk (sq_begin (c_session c) w)"
    and sql_forward: "forward clk (sq_get_task (c_session c) i)" "forward clk (sq_flush (c_session c))"
      "forward clk (sq_task_by_key (c_session c) k)" "forward clk (sq_event_created_at (c_session c) i)"
      "forward clk (sq_commit (c_session c))" "forward clk (sq_rollback (c_session c))"
      "forward clk (sq_close (c_session c))"
    and redis_forward: "forward clk (rc_lpush (c_redis c) key v)" "forward clk (rc_zadd (c_redis c) key v score)"

context ticking
begin

lemma forward_now [forward_rules]: "forward clk (now (c_runtime c))"
  using now_reads by (auto simp: forward_def now_def split_beta intro: order_trans)

lemma forward_runtime [forward_rules]: "forward clk (uuid4 (c_runtime c))" "forward clk (metric (c_runtime c) m)"
  using draw_forward metric_forward by (auto simp: forward_def uuid4_def metric_def split_beta)

lemma forward_stage [forward_rules]:
  "forward clk (stage (sq_add_task (c_session c) tm))" "forward clk (stage (sq_set_task (c_session c) tm))"
  "forward clk (stage (sq_add_event (c_session c) em))" "forward clk (stage (sq_begin (c_session c)))"
  using staged_forward by (simp_all add: forward_def stage_def)

lemmas forward_commands [forward_rules] = sql_forward redis_forward

lemma forward_or_now [forward_rules]: "forward clk (or_now (c_runtime c) y)"
  unfolding or_now_def by (intro forward_rules)

lemma forward_opt_domain [forward_rules]: "forward clk (opt_domain m)"
  unfolding opt_domain_def by (intro forward_rules)

text \<open>The session gives the clock no way back either.\<close>

lemma forward_session: "forward clk body \<Longrightarrow> forward clk (session c body)"
  unfolding session_def by (intro forward_rules)

lemma services_parts:
  "svc_rt (container_services c) = c_runtime c"
  "tr_save (svc_repo (container_services c)) = repo_save (c_session c) (c_runtime c)"
  "tr_get_by_idempotency_key (svc_repo (container_services c)) = repo_get_by_idempotency_key (c_session c)"
  "er_append (svc_evs (container_services c)) = event_append (c_session c) (c_runtime c)"
  "qb_enqueue_ready (svc_queue (container_services c)) = rq_enqueue_ready (c_redis c) (c_settings c)"
  "qb_enqueue_scheduled (svc_queue (container_services c)) = rq_enqueue_scheduled (c_redis c)"
  by (simp_all add: container_services_def SqlAlchemyTaskRepository_def SqlAlchemyTaskEventRepository_def
      queue_backend_def RedisQueueBackend_def)

lemma forward_transition [forward_rules]: "forward clk (transition (container_services c) t s)"
  unfolding transition_def services_parts by (intro forward_rules)

lemma forward_save [forward_rules]: "forward clk (save (container_services c) t)"
  unfolding save_def services_parts repo_save_def to_model_task_def by (intro forward_rules)

lemma forward_append [forward_rules]: "forward clk (append_event (container_services c) t ty fs msg md)"
  unfolding append_event_def services_parts event_append_def by (intro forward_rules)

lemma forward_enqueue_ports [forward_rules]:
  "forward clk (qb_enqueue_ready (svc_queue (container_services c)) i p)"
  "forward clk (qb_enqueue_scheduled (svc_queue (container_services c)) i due_at)"
  unfolding services_parts rq_enqueue_ready_def rq_enqueue_scheduled_def unit_prog_def by (intro forward_rules)+

lemma forward_clock [forward_rules]:
  "forward clk (now (svc_rt (container_services c)))" "forward clk (uuid4 (svc_rt (container_services c)))"
  "forward clk (metric (svc_rt (container_services c)) m)"
  unfolding services_parts by (intro forward_rules)+

lemma forward_key [forward_rules]:
  "forward clk (tr_get_by_idempotency_key (svc_repo (container_services c)) key)"
  unfolding services_parts repo_get_by_idempotency_key_def by (intro forward_rules)

lemma forward_enqueue [forward_rules]: "forward clk (enqueue (container_services c) t)"
  unfolding enqueue_def by (intro forward_rules)

lemma forward_enqueue_failed [forward_rules]: "forward clk (enqueue_failed (container_services c) et)"
  unfolding enqueue_failed_def by (intro forward_rules)

lemma forward_create [forward_rules]: "forward clk (create_task (container_services c) r ex prio)"
  unfolding create_task_def by (intro forward_rules)

lemma forward_submit [forward_rules]: "forward clk (submit (container_services c) r)"
  unfolding submit_def by (intro forward_rules)

end

section \<open>Submitting for later\<close>

locale timed = container c sv rv pe + ticking c clk
  for c :: "'w Container" and sv :: "'w \<Rightarrow> sql_view" and rv :: "'w \<Rightarrow> redis_data" and pe :: "exn \<Rightarrow> bool"
    and clk :: "'w \<Rightarrow> int"

context timed
begin

abbreviation sx :: "'w Services" where "sx \<equiv> container_services c"

lemma now_read_rule:
  assumes "\<And>n w'. n \<le> clk w' \<Longrightarrow> clk w \<le> clk w' \<Longrightarrow> Q n w'"
  shows "wp (now (svc_rt sx)) Q E w"
  using now_reads [of w] assms unfolding services_parts
  by (auto simp: wp_def now_def intro: order_trans split: prod.split)

text \<open>
  From a SCHEDULED task, or once its time has come: \<^verbatim>\<open>_enqueue\<close> returns only after that time.
\<close>

lemma enqueue_later_wp:
  assumes "scheduled_at t = Some (Aware s)" and "0 \<le> priority t" and "task_status t = SCHEDULED \<or> s \<le> clk w"
  shows "wp (enqueue sx t) (\<lambda>_ w'. s \<le> clk w')
    (\<lambda>(e, t') w'. s \<le> clk w' \<or>
       task_status t' = SCHEDULED \<and> 0 \<le> priority t' \<and> (pe e \<or> (\<exists>m. e = ValueError m))) w"
  (is "wp _ ?Q ?E w")
proof (cases "s \<le> clk w")
  case True
  from forward_late [OF forward_enqueue this] show ?thesis by (rule wp_mono) auto
next
  case False
  then have st: "task_status t = SCHEDULED" using assms(3) by simp
  let ?rest = "\<lambda>n. andThen (from_sum (in_future (scheduled_at t) n)) (\<lambda>future.
      if future then
        andThen (qb_enqueue_scheduled (svc_queue sx) (task_id t) (timestamp (the (scheduled_at t)))) (\<lambda>_.
        transition sx t SCHEDULED)
      else
        andThen (qb_enqueue_ready (svc_queue sx) (task_id t) (priority t)) (\<lambda>_.
        transition sx t QUEUED))"
  let ?cont = "\<lambda>t'. raising_with t' (andThen (save sx t') (\<lambda>_.
      andThen (append_event sx t' ''task.enqueued'' (Some (task_status t)) None None) (\<lambda>_. ret t')))"
  have split: "enqueue sx t = andThen (raising_with t (andThen (now (svc_rt sx)) ?rest)) ?cont"
    by (simp add: enqueue_def)
  have rest: "wp (andThen (raising_with t (?rest n)) ?cont) ?Q ?E w1" if "n \<le> clk w1" for n w1
  proof (cases "n < s")
    case True
    then have "in_future (scheduled_at t) n = Inr True" by (simp add: assms(1) in_future_def)
    then show ?thesis
      by (simp add: wp_simps, intro enqueue_scheduled_rule transition_error) (auto simp: st assms(2))
  next
    case False
    have "forward clk (andThen (raising_with t (?rest n)) ?cont)" by (intro forward_rules)
    then have "wp (andThen (raising_with t (?rest n)) ?cont) ?Q (\<lambda>_ w'. s \<le> clk w') w1"
      using False that by (intro forward_late) auto
    then show ?thesis by (rule wp_mono) auto
  qed
  have "wp (andThen (raising_with t (andThen (now (svc_rt sx)) ?rest)) ?cont) ?Q ?E w =
      wp (now (svc_rt sx)) (\<lambda>n. wp (andThen (raising_with t (?rest n)) ?cont) ?Q ?E) (\<lambda>e. ?E (e, t)) w"
    by (simp add: wp_andThen wp_raising_with)
  then show ?thesis unfolding split by (simp only:) (rule now_read_rule, rule rest)
qed

lemma enqueue_failed_later_wp:
  assumes "s \<le> clk w \<or> task_status t' = SCHEDULED \<and> 0 \<le> priority t' \<and> (pe e \<or> (\<exists>m. e = ValueError m))"
  shows "wp (enqueue_failed sx (e, t')) (\<lambda>_ w'. s \<le> clk w')
    (\<lambda>e w'. s \<le> clk w' \<or> pe e \<or> (\<exists>m. e = EnqueueFailedError m)) w"
proof (cases "s \<le> clk w")
  case True
  from forward_late [OF forward_enqueue_failed this] show ?thesis by (rule wp_mono) auto
next
  case False
  with assms have t': "task_status t' = SCHEDULED" "0 \<le> priority t'" "pe e \<or> (\<exists>m. e = ValueError m)" by auto
  show ?thesis
    by (rule wp_mono [OF enqueue_failed_wp [OF t'(2)]]) (use t' in \<open>auto simp: is_Exception_def split: if_splits\<close>)
qed

text \<open>A step between the creation and the enqueueing keeps what is known of the clock.\<close>

lemma later_step:
  assumes "forward clk m" and "wp m (\<lambda>_ _. True) (\<lambda>e _. pe e) w" and "P \<or> s \<le> clk w"
    and "\<And>r w'. P \<or> s \<le> clk w' \<Longrightarrow> wp (f r) Q E w'" and "\<And>e w'. pe e \<Longrightarrow> E e w'"
  shows "wp (andThen m f) Q E w"
  unfolding wp_andThen
  by (rule wp_mono [OF forward_wp [OF assms(1,2)]]) (use assms(3) in \<open>auto intro: assms(4,5)\<close>)

lemma create_later_wp:
  assumes "r_scheduled_at r = Some (Aware s)" and "0 \<le> prio"
  shows "wp (create_task sx r ex prio)
    (\<lambda>t w'. scheduled_at t = Some (Aware s) \<and> 0 \<le> priority t \<and> (task_status t = SCHEDULED \<or> s \<le> clk w'))
    (\<lambda>_ _. False) w"
  unfolding create_task_def wp_andThen
proof (rule now_read_rule)
  fix n w1 assume n: "n \<le> clk w1"
  have sched: "in_future (r_scheduled_at r) n = Inr (n < s)" by (simp add: assms(1) in_future_def)
  have "wp (uuid4 (svc_rt sx)) (\<lambda>_ w'. clk w1 \<le> clk w') (\<lambda>_ _. False) w1"
    using forward_wp [OF forward_clock(2), of "\<lambda>_ _. True" "\<lambda>_ _. False" w1]
    by (auto simp: wp_def uuid4_def split: prod.split)
  then show "wp (from_sum (in_future (r_scheduled_at r) n))
      (\<lambda>_. wp (uuid4 (svc_rt sx)) (\<lambda>new_id. wp (from_sum (Task_create n new_id (r_name r) ex (r_payload r) prio
         (r_max_retries r) (r_scheduled_at r) (r_timeout_seconds r) (r_backoff_policy r) (r_idempotency_key r)))
        (\<lambda>t w'. scheduled_at t = Some (Aware s) \<and> 0 \<le> priority t \<and> (task_status t = SCHEDULED \<or> s \<le> clk w'))
        (\<lambda>_ _. False)) (\<lambda>_ _. False)) (\<lambda>_ _. False) w1"
    unfolding sched
    by (simp add: wp_simps, elim wp_mono) (use n assms in \<open>auto simp: wp_simps Task_create_def in_future_def\<close>)
qed

lemma submit_later_wp:
  assumes "\<And>k i t. r_idempotency_key r = Some k \<Longrightarrow> k \<noteq> [] \<Longrightarrow> tasks (dbv w) i = Some t \<Longrightarrow>
      idempotency_key t \<noteq> Some k"
    and "payload_size (r_payload r) \<le> max_payload_bytes (c_settings c)"
    and "ExecutorType_of (r_executor_type r) = Inr ex" and "0 \<le> r_priority r"
    and "r_scheduled_at r = Some (Aware s)"
  shows "wp (submit sx r) (\<lambda>_ w'. s \<le> clk w')
    (\<lambda>e w'. s \<le> clk w' \<or> pe e \<or> (\<exists>m. e = EnqueueFailedError m)) w"
  (is "wp _ ?Q ?E w")
proof -
  have p: "Priority (r_priority r) = Inr (r_priority r)" using assms(4) by (simp add: Priority_def)
  let ?tail = "\<lambda>t. andThen (metric (svc_rt sx) (TASKS_SUBMITTED (task_name t) (ExecutorType_value (executor_type t)))) (\<lambda>_. ret t)"
  have last: "wp (?tail t') ?Q ?E w'" if "s \<le> clk w'" for t' w'
  proof -
    have "forward clk (?tail t')" by (intro forward_rules)
    from forward_late [OF this that] show ?thesis by (rule wp_mono) simp_all
  qed
  have tail: "wp (andThen (try_except (enqueue sx t) (enqueue_failed sx)) ?tail) ?Q ?E w2"
    if t: "scheduled_at t = Some (Aware s)" "0 \<le> priority t" and w2: "task_status t = SCHEDULED \<or> s \<le> clk w2" for t w2
  proof (subst wp_andThen, subst wp_try_except, rule wp_mono [OF enqueue_later_wp [OF t w2]], goal_cases)
    case (1 t' w')
    then show ?case by (rule last)
  next
    case (2 et w')
    obtain e t' where "et = (e, t')" by (cases et)
    with 2 show ?case
      by (simp only: prod.case) (rule wp_mono [OF enqueue_failed_later_wp], auto intro: last)
  qed
  have saved: "wp (save sx t) (\<lambda>_ _. True) (\<lambda>e _. pe e) w1" if "0 \<le> priority t" for t w1
    by (rule save_rule [OF that]) simp_all
  have recorded: "wp (append_event sx t ty fs msg md) (\<lambda>_ _. True) (\<lambda>e _. pe e) w1" for t ty fs msg md w1
    by (rule append_rule) simp_all
  have created: "wp (andThen (save sx t) (\<lambda>_.
        andThen (append_event sx t ''task.submitted'' None None (Some [(''name'', PStr (task_name t))])) (\<lambda>_.
        andThen (try_except (enqueue sx t) (enqueue_failed sx)) ?tail))) ?Q ?E w1"
    if "scheduled_at t = Some (Aware s) \<and> 0 \<le> priority t \<and> (task_status t = SCHEDULED \<or> s \<le> clk w1)" for t w1
    using that
    by (intro later_step [OF forward_save saved] later_step [OF forward_append recorded] tail) auto
  show ?thesis
    unfolding submit_def wp_andThen [of "case r_idempotency_key r of None \<Rightarrow> _ | Some k \<Rightarrow> _ k"]
  proof (rule lookup_key_wp, goal_cases)
    case (1 w0)
    show ?case
      using assms(2)
      by (simp add: assms(3) p wp_andThen [of "from_sum _"] wp_from_sum wp_andThen [of "create_task _ _ _ _"] container_selectors
          wp_mono [OF create_later_wp [OF assms(5,4)]] created del: wp_if)
  next
    case (2 k i t w')
    with assms(1) show ?case by blast
  qed simp
qed

text \<open>
  A session whose body returns only late: so does the session, and an exception that leaves it
  early leaves nothing durable.
\<close>

lemma session_later_wp:
  assumes "framed dbv qv UNIV body (\<lambda>_. True) (\<lambda>_. True)" and "\<And>e. pe e \<Longrightarrow> F e"
    and "\<And>w0. dbv w0 = fresh (dbv w) \<Longrightarrow> wp body (\<lambda>_ w'. s \<le> clk w') (\<lambda>e w'. s \<le> clk w' \<or> F e) w0"
  shows "wp (session c body) (\<lambda>_ w'. s \<le> clk w') (\<lambda>e w'. s \<le> clk w' \<or> F e \<and> durable dbv w w') w"
  (is "wp _ ?Q ?E w")
proof -
  let ?w0 = "sq_begin (c_session c) w"
  let ?unwind = "\<lambda>e. if is_Exception e
     then wp (sq_rollback (c_session c)) (\<lambda>_. wp (sq_close (c_session c)) (\<lambda>_. ?E e) ?E)
       (\<lambda>e. wp (sq_close (c_session c)) (\<lambda>_. ?E e) ?E)
     else wp (sq_close (c_session c)) (\<lambda>_. ?E e) ?E"
  have body: "wp body (\<lambda>_ w1. s \<le> clk w1) (\<lambda>e w1. (s \<le> clk w1 \<or> F e) \<and> durable dbv w w1) ?w0"
    by (rule wp_mono [OF framed_wp [OF assms(1) assms(3)]])
      (auto simp: begin_fresh frame_def durable_def fresh_def)
  have late: "wp m Q' E' w1" if "forward clk m" "s \<le> clk w1" "\<And>r w2. s \<le> clk w2 \<Longrightarrow> Q' r w2"
    "\<And>e w2. s \<le> clk w2 \<Longrightarrow> E' e w2" for m :: "('w, unit) prog" and Q' E' w1
    by (rule wp_mono [OF forward_late [OF that(1,2)]]) (auto intro: that(3,4))
  have unwound: "?unwind e w1" if "s \<le> clk w1" for e w1
    using that by (auto intro!: late sql_forward)
  show ?thesis
    unfolding session_def wp_simps
  proof (rule wp_mono [OF body], goal_cases)
    case (1 r w1)
    then show ?case by (auto intro!: late sql_forward)
  next
    case (2 e w1)
    show ?case
    proof (cases "s \<le> clk w1")
      case True
      then show ?thesis by (rule unwound)
    next
      case False
      with 2 have "F e" "durable dbv w w1" by auto
      then show ?thesis by (intro unwind_rule) (auto dest: durable_trans assms(2))
    qed
  qed
qed

text \<open>
  The due time of a retry: the delay of the backoff after a reading of the clock between the
  start and the end of \<^verbatim>\<open>schedule_retry\<close>.
\<close>

lemma now_between_rule:
  assumes "\<And>n w'. clk w \<le> n \<Longrightarrow> n \<le> clk w' \<Longrightarrow> Q n w'"
  shows "wp (now (svc_rt sx)) Q E w"
  using now_reads [of w] assms unfolding services_parts by (auto simp: wp_def now_def split: prod.split)

lemma forwards:
  assumes "forward clk m" and "wp m (\<lambda>r w'. clk w \<le> clk w' \<longrightarrow> Q r w') E w"
  shows "wp m Q E w"
  by (rule wp_mono [OF forward_wp [OF assms]]) auto

lemma schedule_retry_due:
  assumes "0 \<le> priority t" and "QUEUED \<in> set (allowed (task_status t))"
  shows "wp (schedule_retry sx t from error ty template)
    (\<lambda>_ w'. \<exists>n delay run_at. clk w \<le> n \<and> n \<le> clk w' \<and> retry_delay_seconds t = Inr delay \<and>
       add_seconds n delay = Inr run_at \<and> scheduled (qv w') (task_id t) = Some run_at) (\<lambda>_ _. True) w"
  (is "wp _ ?Q _ w")
proof -
  have Q: "?Q r w'" if "clk w \<le> n" "n \<le> clk w'" "retry_delay_seconds t = Inr delay" "add_seconds n delay = Inr run_at"
    "scheduled (qv w') (task_id t) = Some run_at" for r :: Task and w' n delay run_at
    using that by blast
  have saved: "wp (andThen (save sx t') (\<lambda>_. andThen (append_event sx t' ty (Some from) msg None) (\<lambda>_. ret t')))
      ?Q (\<lambda>_ _. True) w3"
    if due: "clk w \<le> n" "n \<le> clk w3" "retry_delay_seconds t = Inr delay" "add_seconds n delay = Inr run_at"
      "scheduled (qv w3) (task_id t) = Some run_at" and "0 \<le> priority t'" for t' msg n delay run_at w3
    unfolding wp_andThen wp_ret
    by (rule forwards [OF forward_save], rule save_rule [OF that(6)], rule impI, rule forwards [OF forward_append],
        rule append_rule, rule impI, rule Q [OF due(1) _ due(3,4)])
      (use due in auto)
  have pushed: "wp (andThen (qb_enqueue_scheduled (svc_queue sx) (task_id t) run_at) (\<lambda>_.
        andThen (save sx t') (\<lambda>_. andThen (append_event sx t' ty (Some from) msg None) (\<lambda>_. ret t'))))
      ?Q (\<lambda>_ _. True) w2"
    if "clk w \<le> n" "n \<le> clk w2" "retry_delay_seconds t = Inr delay" "add_seconds n delay = Inr run_at"
      "0 \<le> priority t'" for t' msg n delay run_at w2
    unfolding wp_andThen [of "qb_enqueue_scheduled _ _ _"]
    by (rule forwards [OF forward_enqueue_ports(2)], rule enqueue_scheduled_rule, rule impI,
        rule saved [OF that(1) _ that(3,4) _ that(5)])
      (use that in auto)
  show ?thesis
    unfolding schedule_retry_def wp_andThen [of "transition _ _ _"]
  proof (rule forwards [OF forward_transition], rule transition_rule [OF assms(2)], rule impI)
    fix u w1 assume w1: "clk w \<le> clk w1"
    let ?t = "t\<lparr>task_status := QUEUED, updated_at := Some u\<rparr>"
    show "wp (andThen (from_sum (retry_delay_seconds ?t)) (\<lambda>delay. andThen (now (svc_rt sx)) (\<lambda>n.
        andThen (from_sum (add_seconds n delay)) (\<lambda>run_at.
        andThen (qb_enqueue_scheduled (svc_queue sx) (task_id ?t) run_at) (\<lambda>_. andThen (save sx ?t) (\<lambda>_.
        andThen (append_event sx ?t ty (Some from) (Some (case template of
            None \<Rightarrow> retry_message ?t delay error | Some s \<Rightarrow> format_delay s delay)) None) (\<lambda>_. ret ?t))))))) ?Q (\<lambda>_ _. True) w1"
    proof (cases "retry_delay_seconds t")
      case (Inr delay)
      let ?msg = "Some (case template of None \<Rightarrow> retry_message ?t delay error | Some s \<Rightarrow> format_delay s delay)"
      have read: "wp (andThen (from_sum (add_seconds n delay)) (\<lambda>run_at.
          andThen (qb_enqueue_scheduled (svc_queue sx) (task_id t) run_at) (\<lambda>_. andThen (save sx ?t) (\<lambda>_.
          andThen (append_event sx ?t ty (Some from) ?msg None) (\<lambda>_. ret ?t))))) ?Q (\<lambda>_ _. True) w2"
        if n: "clk w1 \<le> n" "n \<le> clk w2" for n w2
      proof (cases "add_seconds n delay")
        case added: (Inr run_at)
        have "clk w \<le> n" using w1 n(1) by simp
        from pushed [OF this n(2) Inr added, where t' = ?t and msg = ?msg] assms(1) show ?thesis
          by (simp only: wp_andThen [of "from_sum _"] wp_from_sum added sum.case) simp
      qed (simp add: wp_simps)
      have delay: "retry_delay_seconds ?t = Inr delay" using Inr by simp
      show ?thesis
        unfolding delay wp_andThen [of "from_sum (Inr _)"] wp_from_sum sum.case wp_andThen [of "now _"]
        by (rule now_between_rule) (use read in simp)
    qed (simp add: wp_simps)
  qed
qed

end

end
