(* ===== verification/Auth.thy ===== *)
theory Auth
  imports Container
begin

text \<open>
  \<^verbatim>\<open>api/middleware/auth.py\<close> and \<^verbatim>\<open>api/routes/auth.py\<close>: passwords, access tokens, the
  default administrator, the resolution of a request's credentials and the login. The
  libraries bcrypt and PyJWT are parameters; what the FastAPI security schemes extract from
  the headers (the API key and the bearer credentials) are arguments.
\<close>

datatype UserRole = ADMIN | USER | WORKER

fun UserRole_value :: "UserRole \<Rightarrow> string" where
  "UserRole_value ADMIN = ''admin''"
| "UserRole_value USER = ''user''"
| "UserRole_value WORKER = ''worker''"

record AuthContext =
  au_subject :: string
  au_role :: string
  au_type :: string

section \<open>The libraries\<close>

text \<open>
  Passwords and hashes are texts, as the code hands them over before encoding them. Encoding
  a token turns the expiry into seconds; decoding one reads the clock in the world, and a
  left value is a \<^verbatim>\<open>PyJWTError\<close>.
\<close>

record 'w Crypto =
  cr_gensalt :: "'w \<Rightarrow> string \<times> 'w"
  cr_hashpw :: "string \<Rightarrow> string \<Rightarrow> exn + string"
  cr_checkpw :: "string \<Rightarrow> string \<Rightarrow> exn + bool"
  cr_jwt_encode :: "pydict \<Rightarrow> string \<Rightarrow> string \<Rightarrow> exn + string"
  cr_jwt_decode :: "'w \<Rightarrow> string \<Rightarrow> string \<Rightarrow> string list \<Rightarrow> string + pydict"

section \<open>Passwords and tokens\<close>

definition gensalt :: "'w Crypto \<Rightarrow> ('w, string) prog" where
  "gensalt cr w = (case cr_gensalt cr w of (s, w') \<Rightarrow> (Inr s, w'))"

definition hash_password :: "'w Crypto \<Rightarrow> string \<Rightarrow> ('w, string) prog" where
  "hash_password cr password =
     andThen (gensalt cr) (\<lambda>salt. from_sum (cr_hashpw cr password salt))"

definition verify_password :: "'w Crypto \<Rightarrow> string \<Rightarrow> string \<Rightarrow> exn + bool" where
  "verify_password cr password hash = cr_checkpw cr password hash"

definition token_payload :: "string \<Rightarrow> string \<Rightarrow> int \<Rightarrow> pydict" where
  "token_payload subject role expires =
     [(''sub'', PStr subject), (''role'', PStr role), (''exp'', PInt (expires div 1000000))]"

definition create_access_token ::
  "'w Crypto \<Rightarrow> 'w runtime \<Rightarrow> Settings \<Rightarrow> string \<Rightarrow> string \<Rightarrow> ('w, string) prog" where
  "create_access_token cr rt st subject role =
     andThen (now rt) (\<lambda>n.
     andThen (from_sum (add_seconds n (60 * jwt_expire_minutes st))) (\<lambda>expires.
     from_sum (cr_jwt_encode cr (token_payload subject role expires) (jwt_secret st) (jwt_algorithm st))))"

definition decode_access_token ::
  "'w Crypto \<Rightarrow> Settings \<Rightarrow> string \<Rightarrow> ('w, AuthContext) prog" where
  "decode_access_token cr st token w =
     (case cr_jwt_decode cr w token (jwt_secret st) [jwt_algorithm st] of
        Inl _ \<Rightarrow> (Inl (AuthenticationError ''Invalid or expired token''), w)
      | Inr claims \<Rightarrow>
          let subject = dict_get claims ''sub'' PNone; role = dict_get claims ''role'' PNone in
          if \<not> truthy subject \<or> \<not> truthy role
          then (Inl (AuthenticationError ''Invalid token payload''), w)
          else (Inr \<lparr>au_subject = py_str subject, au_role = py_str role, au_type = ''jwt''\<rparr>, w))"

section \<open>Users\<close>

definition authenticate_user ::
  "'w Crypto \<Rightarrow> 'w SqlSession \<Rightarrow> string \<Rightarrow> string \<Rightarrow> ('w, AuthContext option) prog" where
  "authenticate_user cr sq username password =
     andThen (sq_user_by_name sq username) (\<lambda>user. case user of
         None \<Rightarrow> ret None
       | Some u \<Rightarrow>
           andThen (from_sum (verify_password cr password (um_password_hash u))) (\<lambda>ok.
           if \<not> ok then ret None
           else ret (Some \<lparr>au_subject = um_username u, au_role = um_role u, au_type = ''jwt''\<rparr>)))"

definition ensure_default_admin ::
  "'w Crypto \<Rightarrow> 'w SqlSession \<Rightarrow> Settings \<Rightarrow> ('w, unit) prog" where
  "ensure_default_admin cr sq st =
     andThen (sq_user_by_name sq (admin_username st)) (\<lambda>user. case user of
         Some _ \<Rightarrow> ret ()
       | None \<Rightarrow>
           andThen (hash_password cr (admin_password st)) (\<lambda>h.
           andThen (stage (sq_add_user sq (admin_username st) h (UserRole_value ADMIN))) (\<lambda>_.
           sq_flush sq)))"

section \<open>Credentials\<close>

text \<open>\<^verbatim>\<open>secrets.compare_digest\<close> of two \<^verbatim>\<open>str\<close>: both must be ASCII.\<close>

definition ascii :: "string \<Rightarrow> bool" where
  "ascii s \<longleftrightarrow> list_all (\<lambda>c. (of_char c :: nat) < 128) s"

definition compare_digest :: "string \<Rightarrow> string \<Rightarrow> exn + bool" where
  "compare_digest a b =
     (if ascii a \<and> ascii b then Inr (a = b)
      else Inl (TypeError ''comparing strings with non-ASCII characters is not supported''))"

text \<open>\<open>given x\<close> is the truth value of an optional text.\<close>

definition given :: "string option \<Rightarrow> bool" where
  "given x = (case x of None \<Rightarrow> False | Some s \<Rightarrow> s \<noteq> [])"

definition resolve_auth ::
  "'w Crypto \<Rightarrow> Settings \<Rightarrow> string option \<Rightarrow> string option \<Rightarrow> ('w, AuthContext) prog" where
  "resolve_auth cr st key bearer =
     (if given bearer then decode_access_token cr st (the bearer)
      else
        andThen (if given key then from_sum (compare_digest (the key) (api_key st)) else ret False) (\<lambda>matches.
        if matches
        then ret \<lparr>au_subject = ''api-key'', au_role = UserRole_value ADMIN, au_type = ''api_key''\<rparr>
        else throw (AuthenticationError ''Invalid or missing credentials'')))"

definition verify_api_key_or_jwt :: "('w, AuthContext) prog \<Rightarrow> ('w, string) prog" where
  "verify_api_key_or_jwt auth = andThen auth (\<lambda>a. ret (au_subject a))"

definition require_role :: "string list \<Rightarrow> ('w, AuthContext) prog \<Rightarrow> ('w, string) prog" where
  "require_role roles auth =
     andThen auth (\<lambda>a.
       if au_role a \<notin> set roles
       then throw (AuthorizationError (''Role '' @ [CHR 0x27] @ au_role a @ [CHR 0x27] @
              '' is not authorized for this operation''))
       else ret (au_subject a))"

definition verify_api_key :: "Settings \<Rightarrow> string option \<Rightarrow> exn + string" where
  "verify_api_key st key =
     (if \<not> given key then Inl (AuthenticationError ''Invalid or missing API key'')
      else case compare_digest (the key) (api_key st) of
        Inl e \<Rightarrow> Inl e
      | Inr same \<Rightarrow>
          if same then Inr (the key) else Inl (AuthenticationError ''Invalid or missing API key''))"

section \<open>Logging in\<close>

record TokenResponse =
  access_token :: string
  token_type :: string
  token_role :: string

definition login ::
  "'w Container \<Rightarrow> 'w Crypto \<Rightarrow> string \<Rightarrow> string \<Rightarrow> ('w, TokenResponse) prog" where
  "login c cr username password =
     session c
       (andThen (ensure_default_admin cr (c_session c) (c_settings c)) (\<lambda>_.
        andThen (authenticate_user cr (c_session c) username password) (\<lambda>auth. case auth of
          None \<Rightarrow> throw (AuthenticationError ''Invalid username or password'')
        | Some a \<Rightarrow>
            andThen (create_access_token cr (c_runtime c) (c_settings c) (au_subject a) (au_role a)) (\<lambda>token.
            ret \<lparr>access_token = token, token_type = ''bearer'', token_role = au_role a\<rparr>))))"

text \<open>The session that the application opens when it starts.\<close>

definition startup :: "'w Container \<Rightarrow> 'w Crypto \<Rightarrow> ('w, unit) prog" where
  "startup c cr = session c (ensure_default_admin cr (c_session c) (c_settings c))"

section \<open>What the libraries document\<close>

text \<open>
  A hash verifies the password it was made from. A token decodes with the key and the algorithm
  it was encoded with to its claims while the clock (in seconds) is before its expiry and is
  refused afterwards. Salts and the clock leave the users alone.
\<close>

locale crypto_service =
  fixes cr :: "'w Crypto" and uv :: "'w \<Rightarrow> user_view" and seconds :: "'w \<Rightarrow> int" and rt :: "'w runtime"
  assumes checkpw_hashpw: "cr_hashpw cr p salt = Inr h \<Longrightarrow> cr_checkpw cr p h = Inr True"
    and jwt_decode_encode: "cr_jwt_encode cr (token_payload s r expires) k a = Inr token \<Longrightarrow>
      cr_jwt_decode cr w token k [a] =
        (if seconds w < expires div 1000000 then Inr (token_payload s r expires)
         else Inl ''Signature has expired'')"
    and jwt_nonempty: "cr_jwt_encode cr d k a = Inr token \<Longrightarrow> token \<noteq> []"
    and gensalt_users: "uv (snd (cr_gensalt cr w)) = uv w"
    and now_users: "uv (snd (rt_now rt w)) = uv w"
begin

lemma gensalt_rule: "(\<And>s w'. uv w' = uv w \<Longrightarrow> Q s w') \<Longrightarrow> wp (gensalt cr) Q E w"
  using gensalt_users [of w] by (cases "cr_gensalt cr w") (simp add: wp_def gensalt_def)

lemma now_rule: "(\<And>n w'. uv w' = uv w \<Longrightarrow> Q n w') \<Longrightarrow> wp (now rt) Q E w"
  using now_users [of w] by (cases "rt_now rt w") (simp add: wp_def now_def)

text \<open>A token that was issued stands for its subject and role until it expires.\<close>

lemma token_resolves:
  assumes "cr_jwt_encode cr (token_payload s r expires) (jwt_secret st) (jwt_algorithm st) = Inr token"
    and "s \<noteq> []" and "r \<noteq> []"
  shows "decode_access_token cr st token w =
    ((if seconds w < expires div 1000000 then Inr \<lparr>au_subject = s, au_role = r, au_type = ''jwt''\<rparr>
      else Inl (AuthenticationError ''Invalid or expired token'')), w)"
  using assms by (simp add: decode_access_token_def jwt_decode_encode token_payload_def Let_def
      dict_get_def py_str_def)

end

text \<open>The users after the default administrator was ensured.\<close>

definition admin_ensured ::
  "'w Crypto \<Rightarrow> Settings \<Rightarrow> (string \<Rightarrow> UserModel option) \<Rightarrow> (string \<Rightarrow> UserModel option) \<Rightarrow> bool" where
  "admin_ensured cr st us us' \<longleftrightarrow>
     (if us (admin_username st) = None
      then (\<exists>m. us' = us(admin_username st \<mapsto> m) \<and> um_username m = admin_username st \<and>
         um_role m = UserRole_value ADMIN \<and> verify_password cr (admin_password st) (um_password_hash m) = Inr True)
      else us' = us)"

lemma admin_ensured_twice: "admin_ensured cr st us us1 \<Longrightarrow> admin_ensured cr st us1 us2 \<Longrightarrow> us2 = us1"
  by (auto simp: admin_ensured_def split: if_splits)

lemma admin_ensured_other: "admin_ensured cr st us us' \<Longrightarrow> n \<noteq> admin_username st \<Longrightarrow> us' n = us n"
  by (auto simp: admin_ensured_def split: if_splits)

lemma admin_ensured_Some: "admin_ensured cr st us us' \<Longrightarrow> us n = Some u \<Longrightarrow> us' n = Some u"
  by (auto simp: admin_ensured_def split: if_splits)

section \<open>Sessions over the users\<close>

locale accounts =
  user_service "c_session c" uv pe + crypto_service cr uv seconds "c_runtime c"
  for c :: "'w Container" and cr :: "'w Crypto" and uv :: "'w \<Rightarrow> user_view" and seconds :: "'w \<Rightarrow> int"
    and pe :: "exn \<Rightarrow> bool"
begin

text \<open>
  A body that works on the session's users: they become durable when the session returns, and
  stay as they were when it raises, unless the answer to the commit was lost.
\<close>

lemma unwind_users:
  assumes "\<And>e' w'. pe e' \<or> e' = e \<Longrightarrow> c_users (uv w') = c_users (uv w) \<Longrightarrow> S e' w'"
  shows "(if is_Exception e
     then wp (sq_rollback (c_session c)) (\<lambda>_. wp (sq_close (c_session c)) (\<lambda>_. S e) S)
       (\<lambda>e. wp (sq_close (c_session c)) (\<lambda>_. S e) S)
     else wp (sq_close (c_session c)) (\<lambda>_. S e) S) w"
  by (auto intro!: assms contract_wp [OF user_rollback] contract_wp [OF user_close])

lemma session_users_wp:
  assumes "\<And>w0. uv w0 = (uv w)\<lparr>users := c_users (uv w)\<rparr> \<Longrightarrow> wp body Q E w0"
    and "\<And>r w1. Q r w1 \<Longrightarrow> c_users (uv w1) = c_users (uv w)"
    and "\<And>e w1. E e w1 \<Longrightarrow> c_users (uv w1) = c_users (uv w)"
  shows "wp (session c body) (\<lambda>r w'. \<exists>w1. Q r w1 \<and> c_users (uv w') = users (uv w1))
    (\<lambda>e w'. (pe e \<or> (\<exists>w1. E e w1)) \<and>
       (c_users (uv w') = c_users (uv w) \<or> pe e \<and> (\<exists>r w1. Q r w1 \<and> c_users (uv w') = users (uv w1)))) w"
  unfolding session_def wp_simps
proof (rule wp_mono [OF assms(1) [OF user_begin]], goal_cases)
  case (1 r w1)
  let ?R = "\<lambda>r w'. \<exists>w1. Q r w1 \<and> c_users (uv w') = users (uv w1)"
  let ?F = "\<lambda>e w'. (pe e \<or> (\<exists>w1. E e w1)) \<and>
       (c_users (uv w') = c_users (uv w) \<or> pe e \<and> (\<exists>r w1. Q r w1 \<and> c_users (uv w') = users (uv w1)))"
  show ?case
  proof (rule contract_wp [OF user_commit], goal_cases)
    case (1 u w2)
    then show ?case
      by (intro contract_wp [OF user_close]) (use \<open>Q r w1\<close> in auto)
  next
    case (2 e w2)
    have "?F e' w3" if "pe e' \<or> e' = e" "c_users (uv w3) = c_users (uv w2)" for e' w3
      using that 2 \<open>Q r w1\<close> assms(2) [OF \<open>Q r w1\<close>] by auto
    then show ?case by (rule unwind_users)
  qed
next
  case (2 e w1)
  then show ?case
    by (intro unwind_users) (use assms(3) [OF 2] in auto)
qed

text \<open>An exception of a library, beside those of the database.\<close>

definition library_raises :: "exn \<Rightarrow> bool" where
  "library_raises e \<longleftrightarrow>
     (\<exists>p s. cr_hashpw cr p s = Inl e) \<or> (\<exists>p h. cr_checkpw cr p h = Inl e)"

lemma ensure_default_admin_wp:
  "wp (ensure_default_admin cr (c_session c) (c_settings c))
     (\<lambda>_ w'. c_users (uv w') = c_users (uv w) \<and> admin_ensured cr (c_settings c) (users (uv w)) (users (uv w')))
     (\<lambda>e w'. (pe e \<or> library_raises e) \<and> c_users (uv w') = c_users (uv w)) w"
  unfolding ensure_default_admin_def hash_password_def wp_simps
proof (rule contract_wp [OF user_by_name], goal_cases)
  case (1 r w1)
  show ?case
  proof (cases r)
    case None
    have add: "wp (sq_flush (c_session c))
        (\<lambda>_ w'. c_users (uv w') = c_users (uv w) \<and> admin_ensured cr (c_settings c) (users (uv w)) (users (uv w')))
        (\<lambda>e w'. (pe e \<or> library_raises e) \<and> c_users (uv w') = c_users (uv w))
        (sq_add_user (c_session c) (admin_username (c_settings c)) h (UserRole_value ADMIN) w2)"
      if h: "cr_hashpw cr (admin_password (c_settings c)) s = Inr h" and w2: "uv w2 = uv w1" for s h w2
      by (rule wp_mono [OF add_user])
        (use 1 None w2 checkpw_hashpw [OF h] in \<open>auto simp: admin_ensured_def verify_password_def\<close>)
    show ?thesis
      unfolding None option.case
      by (rule gensalt_rule) (use 1 add in \<open>auto simp: library_raises_def split: sum.split\<close>)
  qed (use 1 in \<open>auto simp: admin_ensured_def\<close>)
next
  case (2 e w1)
  then show ?case by simp
qed

lemma authenticate_user_wp:
  "wp (authenticate_user cr (c_session c) n p)
     (\<lambda>r w'. uv w' = uv w \<and>
        (case r of
           None \<Rightarrow> users (uv w) n = None \<or>
             (\<exists>u. users (uv w) n = Some u \<and> verify_password cr p (um_password_hash u) = Inr False)
         | Some a \<Rightarrow> (\<exists>u. users (uv w) n = Some u \<and> verify_password cr p (um_password_hash u) = Inr True \<and>
             a = \<lparr>au_subject = n, au_role = um_role u, au_type = ''jwt''\<rparr>)))
     (\<lambda>e w'. (pe e \<or> library_raises e) \<and> c_users (uv w') = c_users (uv w)) w"
  unfolding authenticate_user_def wp_simps
  by (rule contract_wp [OF user_by_name])
    (auto simp: library_raises_def verify_password_def user_names split: option.split sum.split)

text \<open>What a login answers with.\<close>

definition issued :: "string \<Rightarrow> UserModel \<Rightarrow> TokenResponse \<Rightarrow> bool" where
  "issued n u r \<longleftrightarrow> token_type r = ''bearer'' \<and> token_role r = um_role u \<and>
     (\<exists>expires. cr_jwt_encode cr (token_payload n (um_role u) expires) (jwt_secret (c_settings c))
        (jwt_algorithm (c_settings c)) = Inr (access_token r))"

lemma create_access_token_wp:
  assumes "\<And>expires token w'. cr_jwt_encode cr (token_payload s r expires) (jwt_secret (c_settings c))
      (jwt_algorithm (c_settings c)) = Inr token \<Longrightarrow> uv w' = uv w \<Longrightarrow> Q token w'"
    and "\<And>e w'. uv w' = uv w \<Longrightarrow> E e w'"
  shows "wp (create_access_token cr (c_runtime c) (c_settings c) s r) Q E w"
  unfolding create_access_token_def wp_simps
  by (rule now_rule) (auto intro: assms split: sum.split)

lemma login_wp:
  "wp (login c cr n p)
     (\<lambda>r w'. admin_ensured cr (c_settings c) (c_users (uv w)) (c_users (uv w')) \<and>
        (\<exists>u. c_users (uv w') n = Some u \<and> verify_password cr p (um_password_hash u) = Inr True \<and> issued n u r))
     (\<lambda>e w'. c_users (uv w') = c_users (uv w) \<or>
        pe e \<and> admin_ensured cr (c_settings c) (c_users (uv w)) (c_users (uv w'))) w"
proof -
  let ?Q = "\<lambda>r w1. c_users (uv w1) = c_users (uv w) \<and>
      admin_ensured cr (c_settings c) (c_users (uv w)) (users (uv w1)) \<and>
      (\<exists>u. users (uv w1) n = Some u \<and> verify_password cr p (um_password_hash u) = Inr True \<and> issued n u r)"
  show ?thesis
    unfolding login_def
  proof (rule wp_mono [OF session_users_wp [where Q = ?Q and E = "\<lambda>e w1. c_users (uv w1) = c_users (uv w)"]], goal_cases)
    case (1 w0)
    show ?case
      unfolding wp_simps
    proof (rule wp_mono [OF ensure_default_admin_wp], goal_cases)
      case (1 u w1)
      then have w1: "c_users (uv w1) = c_users (uv w)"
        "admin_ensured cr (c_settings c) (c_users (uv w)) (users (uv w1))"
        using \<open>uv w0 = (uv w)\<lparr>users := c_users (uv w)\<rparr>\<close> by simp_all
      show ?case
        by (rule wp_mono [OF authenticate_user_wp])
          (auto simp: w1 issued_def wp_simps split: option.splits intro!: create_access_token_wp)
    qed (use 1 in auto)
  qed auto
qed

lemma startup_wp:
  "wp (startup c cr)
     (\<lambda>_ w'. admin_ensured cr (c_settings c) (c_users (uv w)) (c_users (uv w')))
     (\<lambda>e w'. c_users (uv w') = c_users (uv w) \<or>
        pe e \<and> admin_ensured cr (c_settings c) (c_users (uv w)) (c_users (uv w'))) w"
proof -
  let ?Q = "\<lambda>_ w1. c_users (uv w1) = c_users (uv w) \<and>
      admin_ensured cr (c_settings c) (c_users (uv w)) (users (uv w1))"
  show ?thesis
    unfolding startup_def
  proof (rule wp_mono [OF session_users_wp [where Q = ?Q and E = "\<lambda>e w1. c_users (uv w1) = c_users (uv w)"]], goal_cases)
    case (1 w0)
    then show ?case
      by (intro wp_mono [OF ensure_default_admin_wp]) auto
  qed auto
qed

text \<open>Without an account that the password opens there is no token.\<close>

lemma login_refused_wp:
  assumes "n \<noteq> admin_username (c_settings c) \<or> c_users (uv w) n \<noteq> None"
    and "\<And>u. c_users (uv w) n = Some u \<Longrightarrow> verify_password cr p (um_password_hash u) \<noteq> Inr True"
  shows "wp (login c cr n p) (\<lambda>_ _. False)
     (\<lambda>e w'. (pe e \<or> library_raises e \<or> e = AuthenticationError ''Invalid username or password'') \<and>
        c_users (uv w') = c_users (uv w)) w"
proof -
  let ?E = "\<lambda>e w1. (pe e \<or> library_raises e \<or> e = AuthenticationError ''Invalid username or password'') \<and>
      c_users (uv w1) = c_users (uv w)"
  show ?thesis
    unfolding login_def
  proof (rule wp_mono [OF session_users_wp [where Q = "\<lambda>_ _. False" and E = ?E]], goal_cases)
    case (1 w0)
    show ?case
      unfolding wp_simps
    proof (rule wp_mono [OF ensure_default_admin_wp], goal_cases)
      case (1 u w1)
      then have w1: "c_users (uv w1) = c_users (uv w)"
        "admin_ensured cr (c_settings c) (c_users (uv w)) (users (uv w1))"
        using \<open>uv w0 = (uv w)\<lparr>users := c_users (uv w)\<rparr>\<close> by simp_all
      then have "users (uv w1) n = c_users (uv w) n"
        using assms(1) admin_ensured_other admin_ensured_Some by (cases "c_users (uv w) n") fastforce+
      then show ?case
        by (intro wp_mono [OF authenticate_user_wp]) (use w1 assms(2) in \<open>auto simp: wp_simps split: option.splits\<close>)
    qed (use 1 in auto)
  qed auto
qed

text \<open>A token that was created stands for its subject until it expires.\<close>

lemma token_wp:
  assumes "s \<noteq> []" and "r \<noteq> []"
  shows "wp (create_access_token cr (c_runtime c) (c_settings c) s r)
    (\<lambda>token _. \<forall>key w'. resolve_auth cr (c_settings c) key (Some token) w' =
       ((if seconds w' < (fst (rt_now (c_runtime c) w) + 60000000 * jwt_expire_minutes (c_settings c)) div 1000000
         then Inr \<lparr>au_subject = s, au_role = r, au_type = ''jwt''\<rparr>
         else Inl (AuthenticationError ''Invalid or expired token'')), w'))
    (\<lambda>e _. (\<exists>m. e = OverflowError m) \<or>
       (\<exists>d. cr_jwt_encode cr d (jwt_secret (c_settings c)) (jwt_algorithm (c_settings c)) = Inl e)) w"
proof -
  have now: "wp (now rt) Q E w \<longleftrightarrow> Q (fst (rt_now rt w)) (snd (rt_now rt w))" for rt :: "'w runtime" and Q E w
    by (simp add: wp_def now_def split_beta)
  have expiry: "x = n + 60000000 * m" if "add_seconds n (60 * m) = Inr x" for n m x
    using that by (auto simp: add_seconds_def timedelta_seconds_def split: if_splits)
  have overflow: "\<exists>m. e = OverflowError m" if "add_seconds n k = Inl e" for n k e
    using that by (auto simp: add_seconds_def timedelta_seconds_def split: if_splits)
  have resolves: "resolve_auth cr (c_settings c) key (Some token) w' =
      ((if seconds w' < x div 1000000 then Inr \<lparr>au_subject = s, au_role = r, au_type = ''jwt''\<rparr>
        else Inl (AuthenticationError ''Invalid or expired token'')), w')"
    if "cr_jwt_encode cr (token_payload s r x) (jwt_secret (c_settings c)) (jwt_algorithm (c_settings c)) = Inr token"
    for key token x w'
    using token_resolves [OF that assms] jwt_nonempty [OF that]
    by (simp add: resolve_auth_def given_def)
  show ?thesis
    unfolding create_access_token_def wp_andThen now wp_from_sum
    by (auto simp: resolves dest: expiry overflow split: sum.split)
qed

end

end
