(* ===== verification/Dto.thy ===== *)
theory Dto
  imports Queue_Manager
begin

text \<open>
  \<^verbatim>\<open>application/dto\<close>: the constraints that the request models declare for their fields, the
  response models, and the mappers from the domain to the responses.
\<close>

section \<open>Requests\<close>

text \<open>
  The fields whose declared constraint a value breaks. The library checks a float as Python
  compares it: infinity is at least one, and not-a-number is not.
\<close>

definition broken :: "(string \<times> bool) list \<Rightarrow> string list" where
  "broken checks = map fst (filter (\<lambda>(_, ok). \<not> ok) checks)"

definition length_within :: "nat \<Rightarrow> nat \<Rightarrow> string \<Rightarrow> bool" where
  "length_within lo hi s \<longleftrightarrow> lo \<le> length s \<and> length s \<le> hi"

fun float_at_least_one :: "pyfloat \<Rightarrow> bool" where
  "float_at_least_one (Finite q) = (1 \<le> q)"
| "float_at_least_one PosInf = True"
| "float_at_least_one NegInf = False"
| "float_at_least_one NaN = False"

definition BackoffPolicyDTO_broken :: "BackoffPolicy \<Rightarrow> string list" where
  "BackoffPolicyDTO_broken p = broken
     [(''strategy'', strategy p \<in> {''fixed'', ''exponential''}),
      (''base_delay_seconds'', 0 \<le> base_delay_seconds p),
      (''max_delay_seconds'', 1 \<le> max_delay_seconds p),
      (''multiplier'', float_at_least_one (multiplier p))]"

definition SubmitTaskRequest_broken :: "SubmitTaskRequest \<Rightarrow> string list" where
  "SubmitTaskRequest_broken r = broken
     [(''name'', length_within 1 255 (r_name r)),
      (''executor_type'', r_executor_type r \<in> {''python'', ''webhook''}),
      (''priority'', 0 \<le> r_priority r \<and> r_priority r \<le> 10),
      (''max_retries'', 0 \<le> r_max_retries r \<and> r_max_retries r \<le> 20),
      (''timeout_seconds'', 1 \<le> r_timeout_seconds r \<and> r_timeout_seconds r \<le> 3600),
      (''backoff_policy'', case r_backoff_policy r of None \<Rightarrow> True | Some p \<Rightarrow> BackoffPolicyDTO_broken p = []),
      (''idempotency_key'', case r_idempotency_key r of None \<Rightarrow> True | Some k \<Rightarrow> length k \<le> 255)]"

text \<open>A request with the defaults of the model for a name.\<close>

definition default_SubmitTaskRequest :: "string \<Rightarrow> SubmitTaskRequest" where
  "default_SubmitTaskRequest name =
     \<lparr>r_name = name, r_executor_type = ''python'', r_payload = [], r_priority = 2, r_scheduled_at = None,
      r_max_retries = 3, r_timeout_seconds = 300, r_backoff_policy = None, r_idempotency_key = None\<rparr>"

definition LoginRequest_broken :: "string \<Rightarrow> string \<Rightarrow> string list" where
  "LoginRequest_broken username password = broken
     [(''username'', length_within 1 128 username), (''password'', length_within 8 128 password)]"

definition RegisterWorkerRequest_broken :: "string \<Rightarrow> string list" where
  "RegisterWorkerRequest_broken host = broken [(''hostname'', length_within 1 255 host)]"

lemma broken_Nil: "broken checks = [] \<longleftrightarrow> list_all snd checks"
  by (induction checks) (auto simp: broken_def)

text \<open>What the service relies on: a request that passes has a known executor and a priority.\<close>

lemma valid_request:
  assumes "SubmitTaskRequest_broken r = []"
  shows "\<exists>ex. ExecutorType_of (r_executor_type r) = Inr ex" and "0 \<le> r_priority r"
  using assms
  by (auto simp: SubmitTaskRequest_broken_def broken_Nil ExecutorType_of_def)

section \<open>Responses\<close>

record TaskResponse =
  resp_id :: string
  resp_name :: string
  resp_executor_type :: string
  resp_payload :: pydict
  resp_status :: string
  resp_priority :: int
  resp_scheduled_at :: "pydatetime option"
  resp_attempts :: int
  resp_max_retries :: int
  resp_timeout_seconds :: int
  resp_worker_id :: "string option"
  resp_result :: "pydict option"
  resp_error :: "string option"
  resp_created_at :: "int option"
  resp_updated_at :: "int option"
  resp_started_at :: "int option"
  resp_finished_at :: "int option"

definition task_to_response :: "Task \<Rightarrow> TaskResponse" where
  "task_to_response t =
     \<lparr>resp_id = TaskId_str (task_id t), resp_name = task_name t,
      resp_executor_type = ExecutorType_value (executor_type t), resp_payload = payload t,
      resp_status = TaskStatus_value (task_status t), resp_priority = priority t,
      resp_scheduled_at = scheduled_at t, resp_attempts = attempts t, resp_max_retries = max_retries t,
      resp_timeout_seconds = timeout_seconds t, resp_worker_id = worker_id t,
      resp_result = task_result t, resp_error = task_error t, resp_created_at = created_at t,
      resp_updated_at = updated_at t, resp_started_at = started_at t, resp_finished_at = finished_at t\<rparr>"

record TaskListResponse =
  tl_tasks :: "TaskResponse list"
  tl_total :: int
  tl_limit :: int
  tl_offset :: int

record WorkerResponse =
  wresp_id :: string
  wresp_hostname :: string
  wresp_status :: string
  wresp_registered_at :: int
  wresp_last_seen_at :: int
  wresp_metadata :: "(string \<times> string) list"

definition worker_to_response :: "Worker \<Rightarrow> WorkerResponse" where
  "worker_to_response x =
     \<lparr>wresp_id = uuid_str (w_id x), wresp_hostname = hostname x, wresp_status = WorkerStatus_value (w_status x),
      wresp_registered_at = registered_at x, wresp_last_seen_at = last_seen_at x, wresp_metadata = w_metadata x\<rparr>"

record TaskEventResponse =
  eresp_id :: string
  eresp_event_type :: string
  eresp_from_status :: "string option"
  eresp_to_status :: "string option"
  eresp_message :: "string option"
  eresp_metadata :: pydict
  eresp_created_at :: int

definition task_event_to_response :: "TaskEvent \<Rightarrow> TaskEventResponse" where
  "task_event_to_response e =
     \<lparr>eresp_id = uuid_str (ev_id e), eresp_event_type = event_type e,
      eresp_from_status = map_option TaskStatus_value (from_status e),
      eresp_to_status = map_option TaskStatus_value (to_status e), eresp_message = ev_message e,
      eresp_metadata = ev_metadata e, eresp_created_at = ev_created_at e\<rparr>"

record AdminStatsResponse =
  as_tasks_by_status :: "(string \<times> int) list"
  as_queue_depths :: "(string \<times> int) list"
  as_active_workers :: int
  as_workers :: "WorkerResponse list"

record HealthResponse =
  health_status :: string
  health_service :: string

definition HealthResponse_of :: "string \<Rightarrow> HealthResponse" where
  "HealthResponse_of s = \<lparr>health_status = s, health_service = ''atlasqueue''\<rparr>"

text \<open>\<^verbatim>\<open>ErrorResponse(\<dots>).model_dump(exclude_none=True)\<close>\<close>

record ErrorResponse =
  err_detail :: string
  err_code :: string
  err_request_id :: "string option"
  err_errors :: "pyval list option"

definition dump_error :: "ErrorResponse \<Rightarrow> pydict" where
  "dump_error e =
     [(''detail'', PStr (err_detail e)), (''code'', PStr (err_code e))] @
     (case err_request_id e of None \<Rightarrow> [] | Some i \<Rightarrow> [(''request_id'', PStr i)]) @
     (case err_errors e of None \<Rightarrow> [] | Some es \<Rightarrow> [(''errors'', PList es)])"

text \<open>The identifier in a response names the task.\<close>

lemma response_id: "TaskId_from_string (resp_id (task_to_response t)) = Inr (task_id t)"
  by (simp add: task_to_response_def)

end
