(* ===== verification/Api.thy ===== *)
theory Api
  imports Auth Dto Lifecycle
begin

text \<open>
  \<^verbatim>\<open>api/routes/v1.py\<close> and \<^verbatim>\<open>api/errors.py\<close>. A route is a program that resolves the
  credentials it depends on, checks what it declares of its arguments, and runs its body in
  a session; the framework's order is dependencies first, then the arguments, then the rate
  limit that decorates the endpoint. The limiter, the text of validation errors and the probes
  of the two servers are parameters.
\<close>

section \<open>Errors\<close>

datatype api_exn =
    App exn
  | RequestValidationError "pyval list"
  | ValidationError "pyval list"
  | RateLimitExceeded string

definition error_response :: "int \<Rightarrow> string \<Rightarrow> string \<Rightarrow> string option \<Rightarrow> int \<times> pydict" where
  "error_response status d c rid =
     (status, dump_error \<lparr>err_detail = d, err_code = c, err_request_id = rid, err_errors = None\<rparr>)"

definition validation_response :: "string \<Rightarrow> pyval list \<Rightarrow> string option \<Rightarrow> int \<times> pydict" where
  "validation_response d es rid =
     (422, dump_error \<lparr>err_detail = d, err_code = ''validation_error'', err_request_id = rid, err_errors = Some es\<rparr>)"

definition coded_error :: "int \<Rightarrow> exn \<Rightarrow> string option \<Rightarrow> (int \<times> pydict) option" where
  "coded_error status e rid =
     (case exn_code e of None \<Rightarrow> None | Some c \<Rightarrow> Some (error_response status (exn_str e) c rid))"

text \<open>
  The handler that the class of the exception, or its nearest base class with a handler, has;
  \<^verbatim>\<open>None\<close> is an exception that no handler takes.
\<close>

fun exception_handler :: "string option \<Rightarrow> api_exn \<Rightarrow> (int \<times> pydict) option" where
  "exception_handler rid (App (TaskNotFoundError i)) = coded_error 404 (TaskNotFoundError i) rid"
| "exception_handler rid (App (InvalidTaskIdError i)) = coded_error 422 (InvalidTaskIdError i) rid"
| "exception_handler rid (App (InvalidTaskStateError m)) = coded_error 400 (InvalidTaskStateError m) rid"
| "exception_handler rid (App (PayloadTooLargeError n)) = coded_error 400 (PayloadTooLargeError n) rid"
| "exception_handler rid (App (EnqueueFailedError m)) = coded_error 503 (EnqueueFailedError m) rid"
| "exception_handler rid (App (AuthenticationError m)) = coded_error 401 (AuthenticationError m) rid"
| "exception_handler rid (App (AuthorizationError m)) = coded_error 403 (AuthorizationError m) rid"
| "exception_handler rid (App (AtlasQueueError m c)) = coded_error 400 (AtlasQueueError m c) rid"
| "exception_handler rid (App _) = None"
| "exception_handler rid (RequestValidationError es) =
     Some (validation_response ''Request validation failed'' es rid)"
| "exception_handler rid (ValidationError es) = Some (validation_response ''Validation failed'' es rid)"
| "exception_handler rid (RateLimitExceeded d) =
     Some (429, [(''error'', PStr (''Rate limit exceeded: '' @ d))])"

text \<open>What a client gets; \<open>Internal_error\<close> is the framework's answer to an unhandled exception.\<close>

datatype 'b response =
    Success int 'b
  | Failure int pydict
  | Internal_error

fun response_status :: "'b response \<Rightarrow> int" where
  "response_status (Success s b) = s"
| "response_status (Failure s d) = s"
| "response_status Internal_error = 500"

definition respond :: "string option \<Rightarrow> int \<Rightarrow> ('w, api_exn, 'b) program \<Rightarrow> 'w \<Rightarrow> 'b response \<times> 'w" where
  "respond rid ok m w =
     (case m w of
        (Inr b, w') \<Rightarrow> (Success ok b, w')
      | (Inl e, w') \<Rightarrow> (case exception_handler rid e of
            Some (s, d) \<Rightarrow> (Failure s d, w') | None \<Rightarrow> (Internal_error, w')))"

section \<open>The application\<close>

record 'w Application =
  ap_container :: "'w Container"
  ap_crypto :: "'w Crypto"
  ap_hit :: "'w \<Rightarrow> bool \<times> 'w"
  ap_report :: "string list \<Rightarrow> pyval list"
  ap_ping :: "('w, unit) prog"
  ap_select_one :: "('w, unit) prog"
  ap_generate_latest :: "'w \<Rightarrow> string"

text \<open>The credentials of a request.\<close>

record Credentials =
  cred_api_key :: "string option"
  cred_bearer :: "string option"

definition app :: "('w, 'a) prog \<Rightarrow> ('w, api_exn, 'a) program" where
  "app m = try_except m (\<lambda>e. throw (App e))"

lemma wp_app [wp_simps]: "wp (app m) Q E = wp m Q (\<lambda>e. E (App e))"
  by (simp add: app_def wp_simps)

abbreviation services_of :: "'w Application \<Rightarrow> 'w Services" where
  "services_of a \<equiv> container_services (ap_container a)"

definition in_session :: "'w Application \<Rightarrow> ('w, 'a) prog \<Rightarrow> ('w, api_exn, 'a) program" where
  "in_session a m = app (session (ap_container a) m)"

definition auth_of :: "'w Application \<Rightarrow> Credentials \<Rightarrow> ('w, AuthContext) prog" where
  "auth_of a cred = resolve_auth (ap_crypto a) (c_settings (ap_container a)) (cred_api_key cred) (cred_bearer cred)"

definition with_role :: "'w Application \<Rightarrow> Credentials \<Rightarrow> string list \<Rightarrow> ('w, api_exn, unit) program" where
  "with_role a cred roles = andThen (app (require_role roles (auth_of a cred))) (\<lambda>_. ret ())"

definition with_credentials :: "'w Application \<Rightarrow> Credentials \<Rightarrow> ('w, api_exn, unit) program" where
  "with_credentials a cred = andThen (app (verify_api_key_or_jwt (auth_of a cred))) (\<lambda>_. ret ())"

definition validated :: "'w Application \<Rightarrow> string list \<Rightarrow> ('w, api_exn, unit) program" where
  "validated a names = (if names = [] then ret () else throw (RequestValidationError (ap_report a names)))"

definition limited :: "'w Application \<Rightarrow> ('w, api_exn, unit) program" where
  "limited a w = (case ap_hit a w of (fits, w') \<Rightarrow>
     if fits then (Inr (), w') else (Inl (RateLimitExceeded ''60 per 1 minute''), w'))"

section \<open>Routes\<close>

definition parse_task_id :: "string \<Rightarrow> exn + TaskId" where
  "parse_task_id s = (case TaskId_from_string s of
     Inl (ValueError m) \<Rightarrow> Inl (InvalidTaskIdError s) | r \<Rightarrow> r)"

definition health :: HealthResponse where
  "health = HealthResponse_of ''ok''"

definition readiness :: "'w Application \<Rightarrow> ('w, api_exn, HealthResponse) program" where
  "readiness a =
     andThen (app (ap_ping a)) (\<lambda>_.
     andThen (in_session a (ap_select_one a)) (\<lambda>_. ret (HealthResponse_of ''ready'')))"

definition metrics_text :: "'w Application \<Rightarrow> ('w, api_exn, string) program" where
  "metrics_text a w = (Inr (ap_generate_latest a w), w)"

definition submit_task ::
  "'w Application \<Rightarrow> Credentials \<Rightarrow> SubmitTaskRequest \<Rightarrow> ('w, api_exn, TaskResponse) program" where
  "submit_task a cred body =
     andThen (with_role a cred [''admin'', ''user'']) (\<lambda>_.
     andThen (validated a (SubmitTaskRequest_broken body)) (\<lambda>_.
     andThen (limited a) (\<lambda>_.
     in_session a (andThen (submit (services_of a) body) (\<lambda>t. ret (task_to_response t))))))"

definition get_task_route ::
  "'w Application \<Rightarrow> Credentials \<Rightarrow> string \<Rightarrow> ('w, api_exn, TaskResponse) program" where
  "get_task_route a cred s =
     andThen (with_credentials a cred) (\<lambda>_.
     andThen (app (from_sum (parse_task_id s))) (\<lambda>i.
     in_session a (andThen (get_task_or_raise (services_of a) i) (\<lambda>t. ret (task_to_response t)))))"

definition task_query_broken :: "task_query \<Rightarrow> string list" where
  "task_query_broken q = broken
     [(''name'', case q_name q of None \<Rightarrow> True | Some n \<Rightarrow> length_within 1 255 n),
      (''sort_by'', q_sort_by q \<in> {''created_at'', ''priority'', ''status'', ''name''}),
      (''sort_order'', q_sort_order q \<in> {''asc'', ''desc''}),
      (''limit'', 1 \<le> q_limit q \<and> q_limit q \<le> 200),
      (''offset'', 0 \<le> q_offset q)]"

definition list_tasks_route ::
  "'w Application \<Rightarrow> Credentials \<Rightarrow> task_query \<Rightarrow> ('w, api_exn, TaskListResponse) program" where
  "list_tasks_route a cred q =
     andThen (with_credentials a cred) (\<lambda>_.
     andThen (validated a (task_query_broken q)) (\<lambda>_.
     in_session a
       (andThen (list_tasks (services_of a) q) (\<lambda>ts.
        andThen (count_tasks (services_of a) (q_status q) (q_name q)) (\<lambda>total.
        ret \<lparr>tl_tasks = map task_to_response ts, tl_total = total, tl_limit = q_limit q,
             tl_offset = q_offset q\<rparr>)))))"

definition cancel_task ::
  "'w Application \<Rightarrow> Credentials \<Rightarrow> string \<Rightarrow> ('w, api_exn, TaskResponse) program" where
  "cancel_task a cred s =
     andThen (with_role a cred [''admin'', ''user'']) (\<lambda>_.
     andThen (app (from_sum (parse_task_id s))) (\<lambda>i.
     in_session a (andThen (cancel (services_of a) i) (\<lambda>t. ret (task_to_response t)))))"

definition retry_task_route ::
  "'w Application \<Rightarrow> Credentials \<Rightarrow> string \<Rightarrow> ('w, api_exn, TaskResponse) program" where
  "retry_task_route a cred s =
     andThen (with_role a cred [''admin'']) (\<lambda>_.
     andThen (app (from_sum (parse_task_id s))) (\<lambda>i.
     in_session a (andThen (retry_task (services_of a) i) (\<lambda>t. ret (task_to_response t)))))"

definition get_task_events_route ::
  "'w Application \<Rightarrow> Credentials \<Rightarrow> string \<Rightarrow> ('w, api_exn, TaskEventResponse list) program" where
  "get_task_events_route a cred s =
     andThen (with_credentials a cred) (\<lambda>_.
     andThen (app (from_sum (parse_task_id s))) (\<lambda>i.
     in_session a (andThen (get_task_events (services_of a) i) (\<lambda>es. ret (map task_event_to_response es)))))"

definition register_worker_route ::
  "'w Application \<Rightarrow> Credentials \<Rightarrow> string \<Rightarrow> (string \<times> string) list \<Rightarrow> ('w, api_exn, WorkerResponse) program" where
  "register_worker_route a cred host metadata =
     andThen (with_role a cred [''admin'', ''worker'']) (\<lambda>_.
     andThen (validated a (RegisterWorkerRequest_broken host)) (\<lambda>_.
     in_session a (andThen (register_worker (services_of a) host (Some metadata)) (\<lambda>x. ret (worker_to_response x)))))"

definition list_workers_route ::
  "'w Application \<Rightarrow> Credentials \<Rightarrow> ('w, api_exn, WorkerResponse list) program" where
  "list_workers_route a cred =
     andThen (with_credentials a cred) (\<lambda>_.
     in_session a (andThen (list_workers (services_of a) 100) (\<lambda>xs. ret (map worker_to_response xs))))"

definition admin_stats :: "'w Application \<Rightarrow> Credentials \<Rightarrow> ('w, api_exn, AdminStatsResponse) program" where
  "admin_stats a cred =
     andThen (with_role a cred [''admin'']) (\<lambda>_.
     in_session a
       (andThen (get_admin_stats (services_of a)) (\<lambda>stats.
        andThen (for_each (queue_depths stats)
          (\<lambda>(name, depth) _. metric (svc_rt (services_of a)) (QUEUE_DEPTH name depth)) ()) (\<lambda>_.
        andThen (metric (svc_rt (services_of a)) (WORKERS_ACTIVE (active_workers stats))) (\<lambda>_.
        andThen (list_workers (services_of a) 100) (\<lambda>workers.
        ret \<lparr>as_tasks_by_status = tasks_by_status stats, as_queue_depths = queue_depths stats,
             as_active_workers = active_workers stats, as_workers = map worker_to_response workers\<rparr>))))))"

definition login_route ::
  "'w Application \<Rightarrow> string \<Rightarrow> string \<Rightarrow> ('w, api_exn, TokenResponse) program" where
  "login_route a username password =
     andThen (validated a (LoginRequest_broken username password)) (\<lambda>_.
     app (login (ap_container a) (ap_crypto a) username password))"

section \<open>All routes that need credentials\<close>

datatype api_request =
    Post_task SubmitTaskRequest
  | Get_task string
  | Get_tasks task_query
  | Post_cancel string
  | Post_retry string
  | Get_events string
  | Post_worker string "(string \<times> string) list"
  | Get_workers
  | Get_stats

datatype api_body =
    Task_body TaskResponse
  | Tasks_body TaskListResponse
  | Events_body "TaskEventResponse list"
  | Worker_body WorkerResponse
  | Workers_body "WorkerResponse list"
  | Stats_body AdminStatsResponse

definition with_body :: "('a \<Rightarrow> 'b) \<Rightarrow> ('w, 'e, 'a) program \<Rightarrow> ('w, 'e, 'b) program" where
  "with_body f m = andThen m (\<lambda>x. ret (f x))"

fun route :: "'w Application \<Rightarrow> Credentials \<Rightarrow> api_request \<Rightarrow> ('w, api_exn, api_body) program" where
  "route a cred (Post_task r) = with_body Task_body (submit_task a cred r)"
| "route a cred (Get_task s) = with_body Task_body (get_task_route a cred s)"
| "route a cred (Get_tasks q) = with_body Tasks_body (list_tasks_route a cred q)"
| "route a cred (Post_cancel s) = with_body Task_body (cancel_task a cred s)"
| "route a cred (Post_retry s) = with_body Task_body (retry_task_route a cred s)"
| "route a cred (Get_events s) = with_body Events_body (get_task_events_route a cred s)"
| "route a cred (Post_worker h m) = with_body Worker_body (register_worker_route a cred h m)"
| "route a cred Get_workers = with_body Workers_body (list_workers_route a cred)"
| "route a cred Get_stats = with_body Stats_body (admin_stats a cred)"

fun success_code :: "api_request \<Rightarrow> int" where
  "success_code (Post_task r) = 202"
| "success_code (Post_worker h m) = 201"
| "success_code _ = 200"

definition serve :: "'w Application \<Rightarrow> string option \<Rightarrow> Credentials \<Rightarrow> api_request \<Rightarrow> 'w \<Rightarrow> api_body response \<times> 'w" where
  "serve a rid cred q = respond rid (success_code q) (route a cred q)"

end
