(* ===== verification/Webhook.thy ===== *)
theory Webhook
  imports Domain Config
begin

text \<open>
  \<^verbatim>\<open>infrastructure/http/webhook_client.py\<close>: the check of a webhook's URL and the request
  an execution sends, over an HTTP client that is a parameter. The part of
  \<^verbatim>\<open>urllib.parse.urlsplit\<close> that decides scheme and host is written out, as Python 3.13 has
  it; its NFKC check of the host never fires below code point 256 and is left out.
\<close>

section \<open>Cutting strings\<close>

text \<open>\<^verbatim>\<open>s.partition(c)\<close> and \<^verbatim>\<open>s.rpartition(c)\<close>; the flag says whether \<open>c\<close> occurs.\<close>

definition partition_at :: "char \<Rightarrow> string \<Rightarrow> string \<times> bool \<times> string" where
  "partition_at c s = (takeWhile (\<lambda>x. x \<noteq> c) s, c \<in> set s, tl (dropWhile (\<lambda>x. x \<noteq> c) s))"

definition after_last :: "char \<Rightarrow> string \<Rightarrow> string" where
  "after_last c s = rev (takeWhile (\<lambda>x. x \<noteq> c) (rev s))"

section \<open>Addresses in brackets\<close>

definition is_digit :: "char \<Rightarrow> bool" where
  "is_digit c = (let n = of_char c :: nat in 48 \<le> n \<and> n \<le> 57)"

definition is_hexdigit :: "char \<Rightarrow> bool" where
  "is_hexdigit c = (let n = of_char c :: nat in is_digit c \<or> (65 \<le> n \<and> n \<le> 70) \<or> (97 \<le> n \<and> n \<le> 102))"

definition ipv4_octet :: "string \<Rightarrow> bool" where
  "ipv4_octet s \<longleftrightarrow>
     s \<noteq> [] \<and> list_all is_digit s \<and> length s \<le> 3 \<and> (s = ''0'' \<or> hd s \<noteq> CHR ''0'') \<and> read_digits 0 s \<le> 255"

definition ipv4_text :: "string \<Rightarrow> bool" where
  "ipv4_text s \<longleftrightarrow> (let os = split_on CHR ''.'' s in length os = 4 \<and> list_all ipv4_octet os)"

definition hextet :: "string \<Rightarrow> bool" where
  "hextet s \<longleftrightarrow> s \<noteq> [] \<and> length s \<le> 4 \<and> list_all is_hexdigit s"

text \<open>The groups of an address, its last two perhaps written as an IPv4 address.\<close>

definition ipv6_groups :: "string list \<Rightarrow> string list option" where
  "ipv6_groups ps =
     (if CHR ''.'' \<in> set (last ps)
      then (if ipv4_text (last ps) then Some (butlast ps @ [''0'', ''0'']) else None)
      else Some ps)"

text \<open>
  Without \<^verbatim>\<open>::\<close> there are eight groups; with it one inner group is empty, an empty first or
  last group must touch it, and at least one group is left out.
\<close>

definition ipv6_text :: "string \<Rightarrow> bool" where
  "ipv6_text s \<longleftrightarrow>
     (let ps = split_on CHR '':'' s in
      3 \<le> length ps \<and>
      (case ipv6_groups ps of
         None \<Rightarrow> False
       | Some gs \<Rightarrow>
           length gs \<le> 9 \<and>
           (case filter (\<lambda>i. gs ! i = []) [1..<length gs - 1] of
              [] \<Rightarrow> length gs = 8 \<and> list_all hextet gs
            | [k] \<Rightarrow>
                (let hi = (if hd gs = [] then tl (take k gs) else take k gs);
                     lo = (if last gs = [] then butlast (drop (k + 1) gs) else drop (k + 1) gs)
                 in (hd gs = [] \<longrightarrow> hi = []) \<and> (last gs = [] \<longrightarrow> lo = []) \<and>
                    length hi + length lo < 8 \<and> list_all hextet hi \<and> list_all hextet lo)
            | _ \<Rightarrow> False)))"

text \<open>\<^verbatim>\<open>_check_bracketed_host\<close>: a future address (\<^verbatim>\<open>v1.x\<close>) or IPv6 with an optional zone.\<close>

definition bracketed_host :: "string \<Rightarrow> bool" where
  "bracketed_host h \<longleftrightarrow>
     (if starts_with h ''v'' then
        (let v = takeWhile is_hexdigit (tl h); r = dropWhile is_hexdigit (tl h)
         in v \<noteq> [] \<and> 2 \<le> length r \<and> hd r = CHR ''.'' \<and> CHR 0x0A \<notin> set (tl r))
      else CHR ''/'' \<notin> set h \<and>
        (case partition_at CHR ''%'' h of (a, zoned, zone) \<Rightarrow>
           ipv6_text a \<and> (zoned \<longrightarrow> zone \<noteq> [] \<and> CHR ''%'' \<notin> set zone)))"

section \<open>Scheme and host of a URL\<close>

definition scheme_char :: "char \<Rightarrow> bool" where
  "scheme_char c \<longleftrightarrow> (let n = of_char c :: nat in
     (65 \<le> n \<and> n \<le> 90) \<or> (97 \<le> n \<and> n \<le> 122) \<or> is_digit c) \<or> c \<in> set ''+-.''"

definition letter :: "char \<Rightarrow> bool" where
  "letter c \<longleftrightarrow> (let n = of_char c :: nat in (65 \<le> n \<and> n \<le> 90) \<or> (97 \<le> n \<and> n \<le> 122))"

text \<open>Leading controls and spaces go, and every tab and line end.\<close>

definition clean_url :: "string \<Rightarrow> string" where
  "clean_url s = filter (\<lambda>c. (of_char c :: nat) \<notin> {9, 10, 13}) (dropWhile (\<lambda>c. (of_char c :: nat) \<le> 32) s)"

definition split_scheme :: "string \<Rightarrow> string \<times> string" where
  "split_scheme u =
     (case partition_at CHR '':'' u of (s, found, rest) \<Rightarrow>
        if found \<and> s \<noteq> [] \<and> letter (hd s) \<and> list_all scheme_char s then (lower s, rest) else ([], u))"

definition netloc_of :: "string \<Rightarrow> string" where
  "netloc_of rest =
     (if starts_with rest ''//'' then takeWhile (\<lambda>c. c \<notin> set ''/?#'') (drop 2 rest) else [])"

text \<open>\<^verbatim>\<open>_check_bracketed_netloc\<close>, then the host without user and port.\<close>

definition bracketed_netloc :: "string \<Rightarrow> bool" where
  "bracketed_netloc nl \<longleftrightarrow>
     (case partition_at CHR ''['' (after_last CHR ''@'' nl) of (pre, opens, rest) \<Rightarrow>
        if opens then
          (case partition_at CHR '']'' rest of (host, _, port) \<Rightarrow>
             pre = [] \<and> (port = [] \<or> starts_with port '':'') \<and> bracketed_host host)
        else bracketed_host (fst (partition_at CHR '':'' (after_last CHR ''@'' nl))))"

definition netloc_ok :: "string \<Rightarrow> bool" where
  "netloc_ok nl \<longleftrightarrow>
     (CHR ''['' \<in> set nl) = (CHR '']'' \<in> set nl) \<and> (CHR ''['' \<in> set nl \<longrightarrow> bracketed_netloc nl)"

definition hostname_of :: "string \<Rightarrow> string option" where
  "hostname_of nl =
     (let hi = after_last CHR ''@'' nl;
          h = (case partition_at CHR ''['' hi of (_, opens, rest) \<Rightarrow>
                 if opens then fst (partition_at CHR '']'' rest) else fst (partition_at CHR '':'' hi))
      in if h = [] then None
         else case partition_at CHR ''%'' h of (a, zoned, zone) \<Rightarrow>
           Some (lower a @ (if zoned then CHR ''%'' # zone else [])))"

text \<open>\<^verbatim>\<open>urlparse(url)\<close>: its scheme and its host, or the \<^verbatim>\<open>ValueError\<close>.\<close>

definition urlparse :: "string \<Rightarrow> exn + string \<times> string option" where
  "urlparse url =
     (case split_scheme (clean_url url) of (scheme, rest) \<Rightarrow>
        if netloc_ok (netloc_of rest) then Inr (scheme, hostname_of (netloc_of rest))
        else Inl (ValueError ''Invalid IPv6 URL''))"

section \<open>The check of a webhook's URL\<close>

definition blocked_host :: "string \<Rightarrow> bool" where
  "blocked_host h \<longleftrightarrow>
     h \<in> {''localhost'', ''127.0.0.1'', ''0.0.0.0'', ''::1''} \<or>
     starts_with h ''10.'' \<or> starts_with h ''192.168.'' \<or> starts_with h ''172.''"

definition validate_webhook_url :: "string \<Rightarrow> Settings \<Rightarrow> exn + unit" where
  "validate_webhook_url url st =
     (if \<not> block_private_webhook_urls st then Inr ()
      else case urlparse url of
        Inl e \<Rightarrow> Inl e
      | Inr (scheme, name) \<Rightarrow>
          if scheme \<notin> {''http'', ''https''}
          then Inl (WebhookValidationError (''Unsupported webhook scheme: '' @ scheme))
          else
            let host = lower (case name of None \<Rightarrow> [] | Some h \<Rightarrow> h) in
            if blocked_host host
            then Inl (WebhookValidationError (''Webhook URL targets private network: '' @ host))
            else Inr ())"

section \<open>The request\<close>

text \<open>
  The arguments of \<^verbatim>\<open>client.request\<close>, and a response: its status, what \<^verbatim>\<open>json()\<close> gives
  and its text.
\<close>

record HttpRequest =
  hq_method :: string
  hq_url :: string
  hq_headers :: pyval
  hq_json :: "pydict option"
  hq_content :: "string option"
  hq_timeout :: int

record HttpResponse =
  hr_status :: int
  hr_json :: "exn + pyval"
  hr_text :: string

record 'w HttpClient =
  hc_request :: "HttpRequest \<Rightarrow> ('w, HttpResponse) prog"
  hc_raise_for_status :: "HttpResponse \<Rightarrow> exn + unit"

definition webhook_request :: "Task \<Rightarrow> HttpRequest" where
  "webhook_request t =
     (let p = payload t; body = dict_get p ''body'' (dict_get p ''data'' (PDict []));
          headers = dict_get p ''headers'' PNone
      in \<lparr>hq_method = upper (py_str (dict_get p ''method'' (PStr ''POST''))),
          hq_url = py_str (dict_get p ''url'' PNone),
          hq_headers = (if truthy headers then headers else PDict []),
          hq_json = (case body of PDict d \<Rightarrow> Some d | _ \<Rightarrow> None),
          hq_content = (case body of PDict d \<Rightarrow> None | _ \<Rightarrow> Some (py_str body)),
          hq_timeout = timeout_seconds t\<rparr>)"

text \<open>\<^verbatim>\<open>try: response.json() except ValueError: {"text": response.text}\<close>\<close>

definition response_data :: "HttpResponse \<Rightarrow> exn + pyval" where
  "response_data r =
     (case hr_json r of
        Inl (ValueError _) \<Rightarrow> Inr (PDict [(''text'', PStr (hr_text r))])
      | x \<Rightarrow> x)"

definition webhook_execute :: "'w HttpClient \<Rightarrow> Settings \<Rightarrow> Task \<Rightarrow> ('w, pydict) prog" where
  "webhook_execute hc st t =
     (let url = dict_get (payload t) ''url'' PNone in
      if \<not> truthy url
      then throw (ValueError (''Webhook payload must include '' @ [CHR 0x27] @ ''url'' @ [CHR 0x27]))
      else
        andThen (from_sum (validate_webhook_url (py_str url) st)) (\<lambda>_.
        andThen (hc_request hc (webhook_request t)) (\<lambda>response.
        andThen (from_sum (hc_raise_for_status hc response)) (\<lambda>_.
        andThen (from_sum (response_data response)) (\<lambda>data.
        ret [(''status_code'', PInt (hr_status response)), (''body'', data)])))))"

section \<open>The client\<close>

text \<open>
  What httpx documents: \<^verbatim>\<open>raise_for_status\<close> raises unless the status is a success, and a
  request touches no state but the client's own, of which \<open>outside\<close> is the rest of the world.
\<close>

locale http_client =
  fixes hc :: "'w HttpClient" and outside :: "'w \<Rightarrow> 'o"
  assumes request_outside: "contract (hc_request hc q)
      (\<lambda>w _ w'. outside w' = outside w) (\<lambda>w _ w'. outside w' = outside w)"
    and raise_for_status: "hc_raise_for_status hc r = Inr () \<Longrightarrow> 200 \<le> hr_status r \<and> hr_status r < 300"

text \<open>The URLs an execution may call.\<close>

definition permitted_url :: "Settings \<Rightarrow> string \<Rightarrow> bool" where
  "permitted_url st u \<longleftrightarrow> (block_private_webhook_urls st \<longrightarrow>
     (\<exists>scheme h. urlparse u = Inr (scheme, h) \<and> (scheme = ''http'' \<or> scheme = ''https'') \<and>
        \<not> blocked_host (lower (case h of None \<Rightarrow> [] | Some x \<Rightarrow> x))))"

lemma validate_permitted: "validate_webhook_url u st = Inr () \<longleftrightarrow> permitted_url st u"
  by (auto simp: validate_webhook_url_def permitted_url_def Let_def split: sum.splits)

lemma webhook_request_url: "hq_url (webhook_request t) = py_str (dict_get (payload t) ''url'' PNone)"
  by (simp add: webhook_request_def Let_def)

definition webhook_answer :: "pydict \<Rightarrow> bool" where
  "webhook_answer r \<longleftrightarrow> (\<exists>s b. r = [(''status_code'', PInt s), (''body'', b)] \<and> 200 \<le> s \<and> s < 300)"

text \<open>An execution makes one request at most, and that to a permitted URL.\<close>

lemma webhook_execute_wp:
  assumes "\<And>r. hc_raise_for_status hc r = Inr () \<Longrightarrow> 200 \<le> hr_status r \<and> hr_status r < 300"
    and "permitted_url st (hq_url (webhook_request t)) \<Longrightarrow> wp (hc_request hc (webhook_request t)) (\<lambda>_. I) (\<lambda>_. I) w"
    and "I w"
  shows "wp (webhook_execute hc st t) (\<lambda>r w'. I w' \<and> webhook_answer r) (\<lambda>_. I) w"
proof -
  let ?u = "py_str (dict_get (payload t) ''url'' PNone)"
  have after: "wp (andThen (from_sum (hc_raise_for_status hc r)) (\<lambda>_.
        andThen (from_sum (response_data r)) (\<lambda>data.
        ret [(''status_code'', PInt (hr_status r)), (''body'', data)])))
      (\<lambda>r w'. I w' \<and> webhook_answer r) (\<lambda>_. I) w'" if "I w'" for r w'
    using that assms(1) [of r] by (auto simp: wp_simps webhook_answer_def split: sum.split)
  show ?thesis
  proof (cases "validate_webhook_url ?u st")
    case (Inl e)
    then show ?thesis using assms(3) by (simp add: webhook_execute_def wp_simps Let_def)
  next
    case (Inr y)
    then have "wp (hc_request hc (webhook_request t)) (\<lambda>_. I) (\<lambda>_. I) w"
      using assms(2) validate_permitted [of ?u st] by (simp add: webhook_request_url)
    then have "wp (hc_request hc (webhook_request t)) (\<lambda>r. wp (andThen (from_sum (hc_raise_for_status hc r)) (\<lambda>_.
        andThen (from_sum (response_data r)) (\<lambda>data.
        ret [(''status_code'', PInt (hr_status r)), (''body'', data)])))
      (\<lambda>r w'. I w' \<and> webhook_answer r) (\<lambda>_. I)) (\<lambda>_. I) w"
      by (rule wp_mono) (use after in auto)
    then show ?thesis
      using assms(3) Inr unfolding webhook_execute_def Let_def wp_if wp_andThen
      by (simp add: wp_simps)
  qed
qed

context http_client
begin

lemma webhook_isolated:
  "contract (webhook_execute hc st t) (\<lambda>w r w'. outside w' = outside w \<and> webhook_answer r)
     (\<lambda>w _ w'. outside w' = outside w)"
  by (rule contractI, rule webhook_execute_wp)
    (auto intro: contract_wp [OF request_outside] dest: raise_for_status)

end

section \<open>Dotted quads\<close>

lemma starts_with_iff: "starts_with s p \<longleftrightarrow> (\<exists>r. s = p @ r)"
  unfolding starts_with_def by (metis append_eq_conv_conj append_take_drop_id)

lemma is_digit_char: "n < 10 \<Longrightarrow> is_digit (char_of (48 + n :: nat))"
  by (simp add: is_digit_def Let_def)

lemma show_nat_digits: "c \<in> set (show_nat n) \<Longrightarrow> is_digit c"
proof (induction n arbitrary: c rule: show_nat.induct)
  case (1 n)
  show ?case
    using 1 is_digit_char [of n] is_digit_char [of "n mod 10"]
    by (cases "n < 10") (auto simp: show_nat.simps [of n])
qed

lemma not_digits: "\<not> is_digit CHR ''.''" "\<not> is_digit CHR '':''" "\<not> is_digit CHR ''@''" "\<not> is_digit CHR ''[''"
  "\<not> is_digit CHR '']''" "\<not> is_digit CHR ''%''" "\<not> is_digit CHR ''/''" "\<not> is_digit CHR ''?''"
  "\<not> is_digit CHR ''#''" "\<not> is_digit CHR ''l''"
  by (simp_all add: is_digit_def Let_def)

text \<open>A number up to the next point can be read off.\<close>

lemma until_point:
  "show_nat a @ CHR ''.'' # r = show_nat b @ CHR ''.'' # r' \<longleftrightarrow> a = b \<and> r = r'"
proof
  assume eq: "show_nat a @ CHR ''.'' # r = show_nat b @ CHR ''.'' # r'"
  have tw: "takeWhile is_digit (show_nat n @ CHR ''.'' # x) = show_nat n" for n x
    using show_nat_digits not_digits(1) by (simp add: takeWhile_tail)
  from eq have "show_nat a = show_nat b" by (metis tw)
  with eq show "a = b \<and> r = r'" by simp
qed simp

definition quad :: "nat \<Rightarrow> nat \<Rightarrow> nat \<Rightarrow> nat \<Rightarrow> string" where
  "quad a b c d = show_nat a @ ''.'' @ show_nat b @ ''.'' @ show_nat c @ ''.'' @ show_nat d"

lemma quad_chars: "x \<in> set (quad a b c d) \<Longrightarrow> is_digit x \<or> x = CHR ''.''"
  by (auto simp: quad_def dest: show_nat_digits)

lemma quad_inject: "quad a b c d = quad a' b' c' d' \<longleftrightarrow> a = a' \<and> b = b' \<and> c = c' \<and> d = d'"
  by (simp add: quad_def until_point)

lemma quad_head: "quad a b c d \<noteq> [] \<and> is_digit (hd (quad a b c d))"
proof -
  obtain x s where "show_nat a = x # s" using show_nat_head [of a] by blast
  with show_nat_digits [of x a] show ?thesis by (simp add: quad_def)
qed

lemma digit_texts:
  "''10.'' = show_nat 10 @ ''.''" "''172.'' = show_nat 172 @ ''.''"
  "''192.168.'' = show_nat 192 @ ''.'' @ show_nat 168 @ ''.''"
  "''127.0.0.1'' = quad 127 0 0 1" "''0.0.0.0'' = quad 0 0 0 0"
  by code_simp+

lemma quad_blocked:
  "blocked_host (quad a b c d) \<longleftrightarrow>
     a = 10 \<or> a = 172 \<or> a = 192 \<and> b = 168 \<or> (a, b, c, d) \<in> {(127, 0, 0, 1), (0, 0, 0, 0)}"
proof -
  have "quad a b c d \<noteq> ''localhost''" "quad a b c d \<noteq> ''::1''"
    using quad_head [of a b c d] not_digits by auto
  moreover have "starts_with (quad a b c d) ''10.'' \<longleftrightarrow> a = 10"
    unfolding starts_with_iff digit_texts quad_def by (auto simp: until_point)
  moreover have "starts_with (quad a b c d) ''172.'' \<longleftrightarrow> a = 172"
    unfolding starts_with_iff digit_texts quad_def by (auto simp: until_point)
  moreover have "starts_with (quad a b c d) ''192.168.'' \<longleftrightarrow> a = 192 \<and> b = 168"
    unfolding starts_with_iff digit_texts quad_def by (auto simp: until_point)
  ultimately show ?thesis
    unfolding blocked_host_def digit_texts(4,5) by (auto simp: quad_inject)
qed

text \<open>The host of a URL of the common form is read off as it stands.\<close>

definition plain_host :: "string \<Rightarrow> bool" where
  "plain_host h \<longleftrightarrow> h \<noteq> [] \<and> set h \<inter> set ''/?#@[]:%'' = {} \<and> (\<forall>c \<in> set h. 32 < (of_char c :: nat))"

lemma clean_plain:
  assumes "plain_host h" and "path = [] \<or> hd path \<in> set ''/?#''"
  shows "\<exists>rest. clean_url (''http://'' @ h @ path) = ''http://'' @ h @ rest \<and> (rest = [] \<or> hd rest \<in> set ''/?#'')"
proof (intro exI conjI)
  have "filter (\<lambda>c. (of_char c :: nat) \<notin> {9, 10, 13}) h = h"
    using assms(1) by (intro filter_True) (auto simp: plain_host_def)
  then show "clean_url (''http://'' @ h @ path) = ''http://'' @ h @ filter (\<lambda>c. (of_char c :: nat) \<notin> {9, 10, 13}) path"
    by (simp add: clean_url_def)
  show "filter (\<lambda>c. (of_char c :: nat) \<notin> {9, 10, 13}) path = [] \<or>
      hd (filter (\<lambda>c. (of_char c :: nat) \<notin> {9, 10, 13}) path) \<in> set ''/?#''"
    using assms(2) by (cases path) auto
qed

lemma split_http: "split_scheme (''http://'' @ r) = (''http'', ''//'' @ r)"
  by (simp add: split_scheme_def partition_at_def letter_def scheme_char_def is_digit_def Let_def
      lower_def lower_char_def)

lemma netloc_plain:
  assumes "plain_host h" and "rest = [] \<or> hd rest \<in> set ''/?#''"
  shows "netloc_of (''//'' @ h @ rest) = h"
proof -
  have "takeWhile (\<lambda>c. c \<notin> set ''/?#'') (h @ rest) = h @ takeWhile (\<lambda>c. c \<notin> set ''/?#'') rest"
    by (rule takeWhile_append2) (use assms(1) in \<open>auto simp: plain_host_def\<close>)
  moreover have "takeWhile (\<lambda>c. c \<notin> set ''/?#'') rest = []"
    using assms(2) by (cases rest) auto
  ultimately show ?thesis by (simp add: netloc_of_def starts_with_def)
qed

lemma hostname_plain: "plain_host h \<Longrightarrow> hostname_of h = Some (lower h)"
proof -
  assume h: "plain_host h"
  have all: "takeWhile (\<lambda>x. x \<noteq> c) xs = xs" if "set xs \<subseteq> set h" "c \<in> set ''@:%''" for c xs
    using h that by (intro takeWhile_eq_all_conv [THEN iffD2]) (auto simp: plain_host_def)
  have "after_last CHR ''@'' h = h" by (simp add: after_last_def all)
  then show ?thesis
    using h
    by (simp add: hostname_of_def partition_at_def Let_def plain_host_def all [OF subset_refl])
qed

lemma urlparse_plain:
  assumes "plain_host h" and "path = [] \<or> hd path \<in> set ''/?#''"
  shows "urlparse (''http://'' @ h @ path) = Inr (''http'', Some (lower h))"
proof -
  from clean_plain [OF assms] obtain rest where
    c: "clean_url (''http://'' @ h @ path) = ''http://'' @ h @ rest" and r: "rest = [] \<or> hd rest \<in> set ''/?#''"
    by blast
  have "netloc_ok h" using assms(1) by (auto simp: netloc_ok_def plain_host_def)
  then show ?thesis
    unfolding urlparse_def c split_http
    by (simp only: prod.case netloc_plain [OF assms(1) r] hostname_plain [OF assms(1)] if_True)
qed

lemma quad_plain: "plain_host (quad a b c d)"
  unfolding plain_host_def
proof (intro conjI ballI)
  show "quad a b c d \<noteq> []" using quad_head by blast
  show "set (quad a b c d) \<inter> set ''/?#@[]:%'' = {}" by (auto simp: not_digits dest!: quad_chars)
  fix x assume "x \<in> set (quad a b c d)"
  then show "32 < (of_char x :: nat)" by (auto simp: is_digit_def Let_def dest!: quad_chars)
qed

lemma lower_quad: "lower (quad a b c d) = quad a b c d"
  unfolding lower_def
  by (rule map_idI) (auto simp: lower_char_def is_digit_def Let_def dest!: quad_chars)

section \<open>Properties\<close>

text \<open>The client with a log of the requests that are sent through it.\<close>

definition logged :: "'w HttpClient \<Rightarrow> ('w \<times> HttpRequest list) HttpClient" where
  "logged hc =
     \<lparr>hc_request = (\<lambda>q (w, past). case hc_request hc q w of (r, w') \<Rightarrow> (r, (w', past @ [q]))),
      hc_raise_for_status = hc_raise_for_status hc\<rparr>"

lemma logged_request:
  "wp (hc_request (logged hc) q) Q E (w, past) =
     wp (hc_request hc q) (\<lambda>r w'. Q r (w', past @ [q])) (\<lambda>e w'. E e (w', past @ [q])) w"
  by (simp add: wp_def logged_def split: prod.split sum.split)

text \<open>
  C34. An execution of a webhook sends one request or none. If it returns, it has sent exactly
  the request that the payload describes, to a URL that the check permits, the server answered with a
  success status, and the result is that status with a body. If it raises, either nothing was
  sent and nothing has changed, or exactly this one permitted request was sent.
\<close>

theorem webhook_sends_only_permitted:
  assumes "\<And>r. hc_raise_for_status hc r = Inr () \<Longrightarrow> 200 \<le> hr_status r \<and> hr_status r < 300"
  shows "wp (webhook_execute (logged hc) st t)
    (\<lambda>r (w', past'). past' = past @ [webhook_request t] \<and> permitted_url st (hq_url (webhook_request t)) \<and>
       (\<exists>response b. hc_request hc (webhook_request t) w = (Inr response, w') \<and>
          200 \<le> hr_status response \<and> hr_status response < 300 \<and>
          r = [(''status_code'', PInt (hr_status response)), (''body'', b)]))
    (\<lambda>e (w', past'). (past', w') = (past, w) \<or>
       past' = past @ [webhook_request t] \<and> permitted_url st (hq_url (webhook_request t)) \<and>
       (\<exists>answer. hc_request hc (webhook_request t) w = (answer, w'))) (w, past)"
  (is "wp _ ?Q ?E _")
proof -
  let ?u = "py_str (dict_get (payload t) ''url'' PNone)"
  let ?rest = "\<lambda>r. andThen (from_sum (hc_raise_for_status (logged hc) r)) (\<lambda>_.
        andThen (from_sum (response_data r)) (\<lambda>data.
        ret [(''status_code'', PInt (hr_status r)), (''body'', data)]))"
  have raises: "hc_raise_for_status (logged hc) = hc_raise_for_status hc" by (simp add: logged_def)
  have rest: "wp (?rest r) ?Q ?E (w', past @ [webhook_request t])"
    if "hc_request hc (webhook_request t) w = (Inr r, w')" "permitted_url st (hq_url (webhook_request t))" for r w'
    using that assms(1) [of r] by (auto simp: raises wp_simps split: sum.split)
  show ?thesis
  proof (cases "validate_webhook_url ?u st")
    case (Inl e)
    then show ?thesis by (simp add: webhook_execute_def wp_simps Let_def)
  next
    case (Inr y)
    then have ok: "permitted_url st (hq_url (webhook_request t))"
      using validate_permitted [of ?u st] by (simp add: webhook_request_url)
    have "wp (hc_request (logged hc) (webhook_request t)) (\<lambda>r. wp (?rest r) ?Q ?E) ?E (w, past)"
      unfolding logged_request
      by (rule wpI) (use rest ok in auto)
    then show ?thesis
      using Inr unfolding webhook_execute_def Let_def wp_if wp_andThen
      by (simp add: wp_simps)
  qed
qed

text \<open>A client that keeps a log and answers every request.\<close>

definition logging_client :: "HttpRequest list HttpClient" where
  "logging_client =
     \<lparr>hc_request = (\<lambda>q w. (Inr \<lparr>hr_status = 200, hr_json = Inr PNone, hr_text = []\<rparr>, q # w)),
      hc_raise_for_status = (\<lambda>r. if 200 \<le> hr_status r \<and> hr_status r < 300 then Inr ()
        else Inl (LibraryError ''HTTPStatusError''))\<rparr>"

definition example_webhook :: Task where
  "example_webhook =
     \<lparr>task_id = 7, task_name = ''hook'', executor_type = WEBHOOK,
      payload = [(''url'', PStr ''https://example.com/hook''), (''body'', PDict [(''n'', PInt 1)])],
      task_status = RUNNING, priority = 2, max_retries = 3, attempts = 0, scheduled_at = None,
      timeout_seconds = 300, backoff_policy = default_BackoffPolicy, worker_id = None,
      task_result = None, task_error = None, idempotency_key = None,
      created_at = Some 0, updated_at = Some 0, started_at = None, finished_at = None\<rparr>"

theorem webhook_sends_only_permitted_witness:
  "wp (webhook_execute (logged logging_client) default_Settings example_webhook)
     (\<lambda>r (w', past'). past' = [webhook_request example_webhook] \<and> w' = [webhook_request example_webhook] \<and>
        (\<exists>b. r = [(''status_code'', PInt 200), (''body'', b)]))
     (\<lambda>e (w', past'). length past' \<le> 1) ([], [])"
  by (rule wp_mono [OF webhook_sends_only_permitted [of logging_client]])
    (auto simp: logging_client_def split: if_splits)

text \<open>The same execution, evaluated: one request and the answer's status.\<close>

lemma example_webhook_runs:
  "webhook_execute logging_client default_Settings example_webhook [] =
     (Inr [(''status_code'', PInt 200), (''body'', PNone)],
      [\<lparr>hq_method = ''POST'', hq_url = ''https://example.com/hook'', hq_headers = PDict [],
        hq_json = Some [(''n'', PInt 1)], hq_content = None, hq_timeout = 300\<rparr>])"
  by code_simp

text \<open>
  C35. What the check does to a host written as four numbers: it refuses all of 10/8 and
  192.168/16, all of 172/8 (of which only 172.16/12 is private), and of the loopback and
  unspecified addresses only 127.0.0.1 and 0.0.0.0. Every other address passes, 169.254.169.254
  and the rest of 127/8 among them.
\<close>

theorem webhook_filter_on_quads:
  assumes "block_private_webhook_urls st" and "path = [] \<or> hd path \<in> set ''/?#''"
  shows "validate_webhook_url (''http://'' @ quad a b c d @ path) st =
    (if a = 10 \<or> a = 172 \<or> a = 192 \<and> b = 168 \<or> (a, b, c, d) \<in> {(127, 0, 0, 1), (0, 0, 0, 0)}
     then Inl (WebhookValidationError (''Webhook URL targets private network: '' @ quad a b c d))
     else Inr ())"
  unfolding validate_webhook_url_def urlparse_plain [OF quad_plain assms(2)] quad_blocked [symmetric]
  using assms(1) by (simp add: lower_quad)

theorem webhook_filter_on_quads_witness:
  "validate_webhook_url ''http://169.254.169.254/latest'' default_Settings = Inr ()"
proof -
  have eq: "''http://169.254.169.254/latest'' = ''http://'' @ quad 169 254 169 254 @ ''/latest''" by code_simp
  have "block_private_webhook_urls default_Settings" by (simp add: default_Settings_def)
  from webhook_filter_on_quads [OF this, of "''/latest''" 169 254 169 254]
  show ?thesis unfolding eq by simp
qed

end
