(* ===== verification/Example_Tasks.thy ===== *)
theory Example_Tasks
  imports Executor
begin

text \<open>
  \<^verbatim>\<open>worker/example_tasks.py\<close>: three handlers and their registration, with what the language
  does when the items of a payload become keyword arguments and when two values are added. The
  suggestion that the interpreter may append to a message and the addition of floats are
  parameters.
\<close>

section \<open>Keyword arguments\<close>

type_synonym parameters = "(string \<times> pyval option) list"

definition quoted :: "string \<Rightarrow> string" where
  "quoted s = [CHR 0x27] @ s @ [CHR 0x27]"

fun listed :: "string list \<Rightarrow> string" where
  "listed [] = []"
| "listed [a] = a"
| "listed [a, b] = a @ '' and '' @ b"
| "listed xs = join '', '' (butlast xs) @ '', and '' @ last xs"

definition missing :: "parameters \<Rightarrow> pydict \<Rightarrow> string list" where
  "missing ps kw = [p. (p, dflt) \<leftarrow> ps, dflt = None \<and> map_of kw p = None]"

definition argument :: "pydict \<Rightarrow> string \<times> pyval option \<Rightarrow> pyval" where
  "argument kw pd = (case pd of (p, dflt) \<Rightarrow> dict_get kw p (case dflt of None \<Rightarrow> PNone | Some v \<Rightarrow> v))"

text \<open>
  \<^verbatim>\<open>f(**kw)\<close>: the values of the parameters of \<^verbatim>\<open>f\<close> in their order, or the
  \<^verbatim>\<open>TypeError\<close>. An unknown keyword is reported before a missing argument.
\<close>

definition bind_arguments ::
  "(string \<Rightarrow> string list \<Rightarrow> string) \<Rightarrow> string \<Rightarrow> parameters \<Rightarrow> pydict \<Rightarrow> exn + pyval list" where
  "bind_arguments suggest f ps kw =
     (case filter (\<lambda>k. k \<notin> fst ` set ps) (map fst kw) of
        k # _ \<Rightarrow> Inl (TypeError (f @ ''() got an unexpected keyword argument '' @ quoted k @
                   suggest k (map fst ps)))
      | [] \<Rightarrow>
          (case missing ps kw of
             [] \<Rightarrow> Inr (map (argument kw) ps)
           | ms \<Rightarrow> Inl (TypeError (f @ ''() missing '' @ show_int (int (length ms)) @
               '' required positional argument'' @ (if length ms = 1 then [] else ''s'') @ '': '' @
               listed (map quoted ms)))))"

section \<open>Addition\<close>

fun type_name :: "pyval \<Rightarrow> string" where
  "type_name PNone = ''NoneType''"
| "type_name (PBool b) = ''bool''"
| "type_name (PInt i) = ''int''"
| "type_name (PFloat s) = ''float''"
| "type_name (PStr s) = ''str''"
| "type_name (PList xs) = ''list''"
| "type_name (PDict d) = ''dict''"

text \<open>A \<^verbatim>\<open>bool\<close> is the integer 0 or 1.\<close>

fun integer :: "pyval \<Rightarrow> int option" where
  "integer (PBool b) = Some (if b then 1 else 0)"
| "integer (PInt i) = Some i"
| "integer _ = None"

definition is_float :: "pyval \<Rightarrow> bool" where
  "is_float v \<longleftrightarrow> type_name v = ''float''"

text \<open>\<^verbatim>\<open>a + b\<close>\<close>

definition py_add :: "(pyval \<Rightarrow> pyval \<Rightarrow> exn + pyval) \<Rightarrow> pyval \<Rightarrow> pyval \<Rightarrow> exn + pyval" where
  "py_add float_add a b =
     (case (integer a, integer b) of
        (Some i, Some j) \<Rightarrow> Inr (PInt (i + j))
      | (i, j) \<Rightarrow>
          if (i \<noteq> None \<or> is_float a) \<and> (j \<noteq> None \<or> is_float b) then float_add a b
          else case (a, b) of
            (PStr s, PStr t) \<Rightarrow> Inr (PStr (s @ t))
          | (PStr s, _) \<Rightarrow> Inl (TypeError (''can only concatenate str (not '' @ [CHR 0x22] @ type_name b @ [CHR 0x22] @ '') to str''))
          | (PList xs, PList ys) \<Rightarrow> Inr (PList (xs @ ys))
          | (PList xs, _) \<Rightarrow> Inl (TypeError (''can only concatenate list (not '' @ [CHR 0x22] @ type_name b @ [CHR 0x22] @ '') to list''))
          | _ \<Rightarrow> Inl (TypeError (''unsupported operand type(s) for +: '' @ quoted (type_name a) @ '' and '' @ quoted (type_name b))))"

section \<open>The handlers\<close>

definition echo_params :: parameters where
  "echo_params = [(''message'', Some (PStr ''hello''))]"

definition echo :: "pyval \<Rightarrow> exn + pyval" where
  "echo message = Inr (PDict [(''message'', message)])"

definition add_params :: parameters where
  "add_params = [(''a'', None), (''b'', None)]"

definition add :: "(pyval \<Rightarrow> pyval \<Rightarrow> exn + pyval) \<Rightarrow> pyval \<Rightarrow> pyval \<Rightarrow> exn + pyval" where
  "add float_add a b =
     (case py_add float_add a b of Inl e \<Rightarrow> Inl e | Inr s \<Rightarrow> Inr (PDict [(''sum'', s)]))"

definition fail_always :: "exn + pyval" where
  "fail_always = Inl (RuntimeError ''Intentional failure for DLQ testing'')"

text \<open>A function of the module as the executor calls it.\<close>

definition handler_of ::
  "(string \<Rightarrow> string list \<Rightarrow> string) \<Rightarrow> string \<Rightarrow> parameters \<Rightarrow> (pyval list \<Rightarrow> exn + pyval) \<Rightarrow> 'w TaskHandler" where
  "handler_of suggest f ps body =
     \<lparr>h_name = f, h_call = (\<lambda>kw. from_sum
        (case bind_arguments suggest f ps kw of Inl e \<Rightarrow> Inl e | Inr args \<Rightarrow> body args))\<rparr>"

text \<open>The registry after the module has been imported, on top of what was registered before.\<close>

definition example_tasks ::
  "(string \<Rightarrow> string list \<Rightarrow> string) \<Rightarrow> (pyval \<Rightarrow> pyval \<Rightarrow> exn + pyval) \<Rightarrow> 'w TaskRegistry \<Rightarrow> 'w TaskRegistry" where
  "example_tasks suggest float_add reg =
     register_task (Some ''fail_always'') (handler_of suggest ''fail_always'' [] (\<lambda>_. fail_always))
       (register_task (Some ''add'') (handler_of suggest ''add'' add_params (\<lambda>args. add float_add (args ! 0) (args ! 1)))
         (register_task (Some ''echo'') (handler_of suggest ''echo'' echo_params (\<lambda>args. echo (args ! 0))) reg))"


section \<open>Running them\<close>

text \<open>What the handler of a name does with a payload; every result is a dictionary.\<close>

definition example_call ::
  "(string \<Rightarrow> string list \<Rightarrow> string) \<Rightarrow> (pyval \<Rightarrow> pyval \<Rightarrow> exn + pyval) \<Rightarrow> string \<Rightarrow> pydict \<Rightarrow> exn + pyval" where
  "example_call suggest float_add name kw =
     (if name = ''echo'' then
        (case bind_arguments suggest name echo_params kw of Inl e \<Rightarrow> Inl e | Inr args \<Rightarrow> echo (args ! 0))
      else if name = ''add'' then
        (case bind_arguments suggest name add_params kw of
           Inl e \<Rightarrow> Inl e | Inr args \<Rightarrow> add float_add (args ! 0) (args ! 1))
      else (case bind_arguments suggest name [] kw of Inl e \<Rightarrow> Inl e | Inr args \<Rightarrow> fail_always))"

lemma registry_empty [simp]: "registry_get n [] = None"
  by (simp add: registry_get_def)

lemma registered_names:
  "registry_names (example_tasks suggest float_add []) = [''echo'', ''add'', ''fail_always'']"
  by (simp add: example_tasks_def register_task_def registry_register_def registry_names_def Let_def)

lemma example_handler:
  assumes "name \<in> {''echo'', ''add'', ''fail_always''}"
  shows "\<exists>h. registry_get name (example_tasks suggest float_add reg) = Some h \<and>
    h_call h kw = from_sum (example_call suggest float_add name kw)"
  using assms by (auto simp: example_tasks_def register_task_def handler_of_def example_call_def simp del: One_nat_def)

lemma example_result: "example_call suggest float_add name kw = Inr v \<Longrightarrow> \<exists>d. v = PDict d"
  by (auto simp: example_call_def echo_def add_def fail_always_def split: sum.splits if_splits)

lemma python_execute_example:
  assumes "task_name t \<in> {''echo'', ''add'', ''fail_always''}"
  shows "wp (python_execute (example_tasks suggest float_add reg) t)
    (\<lambda>r _. example_call suggest float_add (task_name t) (payload t) = Inr (PDict r))
    (\<lambda>e _. example_call suggest float_add (task_name t) (payload t) = Inl e) w"
proof -
  obtain h where "registry_get (task_name t) (example_tasks suggest float_add reg) = Some h"
    and "h_call h (payload t) = from_sum (example_call suggest float_add (task_name t) (payload t))"
    using example_handler [OF assms] by blast
  then show ?thesis
    by (auto simp: python_execute_def wp_simps split: sum.split dest: example_result)
qed

text \<open>
  \<^verbatim>\<open>asyncio.wait_for\<close> ends as the awaited coroutine does, or because the time is up, or because
  the waiting task itself is cancelled.
\<close>

definition waits :: "'w TaskExecutors \<Rightarrow> bool" where
  "waits te \<longleftrightarrow> (\<forall>m s w. case te_wait_for te m s w of
       (Inr r, w') \<Rightarrow> \<exists>w''. m w = (Inr r, w'')
     | (Inl e, w') \<Rightarrow> e \<in> {TimeoutError, CancelledError} \<or> (\<exists>w''. m w = (Inl e, w'')))"

text \<open>The time can be up: the wait raises what the awaited coroutine does not.\<close>

definition times_out :: "'w TaskExecutors \<Rightarrow> int \<Rightarrow> bool" where
  "times_out te s \<longleftrightarrow>
     (\<exists>m w w'. te_wait_for te m s w = (Inl TimeoutError, w') \<and> (\<forall>w''. m w \<noteq> (Inl TimeoutError, w'')))"

lemma waits_wp:
  assumes "waits te" and "wp m (\<lambda>r _. P r) (\<lambda>e _. F e) w"
  shows "wp (te_wait_for te m s) (\<lambda>r _. P r)
    (\<lambda>e _. e = TimeoutError \<and> times_out te s \<or> e = CancelledError \<or> F e) w"
proof -
  have up: "F TimeoutError \<or> times_out te s" if "te_wait_for te m s w = (Inl TimeoutError, w')" for w'
  proof (cases "\<exists>w''. m w = (Inl TimeoutError, w'')")
    case True
    then show ?thesis using assms(2) by (auto simp: wp_def)
  next
    case False
    then show ?thesis using that by (auto simp: times_out_def)
  qed
  have "case te_wait_for te m s w of
       (Inr r, w') \<Rightarrow> \<exists>w''. m w = (Inr r, w'')
     | (Inl e, w') \<Rightarrow> e \<in> {TimeoutError, CancelledError} \<or> (\<exists>w''. m w = (Inl e, w''))"
    by (rule assms(1) [unfolded waits_def, THEN spec, THEN spec, THEN spec])
  then show ?thesis
    using assms(2) by (auto simp: wp_def dest: up split: prod.splits sum.splits)
qed

lemma run_executor_example:
  assumes "te_registry te = example_tasks suggest float_add reg" and "waits te"
    and "executor_type t = PYTHON" and "task_name t \<in> {''echo'', ''add'', ''fail_always''}"
  shows "wp (run_executor te t)
    (\<lambda>r _. example_call suggest float_add (task_name t) (payload t) = Inr (PDict r))
    (\<lambda>e _. is_Exception e \<longrightarrow> e = TimeoutError \<and> times_out te (timeout_seconds t) \<or>
       example_call suggest float_add (task_name t) (payload t) = Inl e) w"
  unfolding run_executor_def assms(1)
  by (simp add: assms(3), rule wp_mono [OF waits_wp [OF assms(2) python_execute_example [OF assms(4)]]])
    (auto simp: is_Exception_def)

context worker
begin

lemma execute_example_wp:
  assumes "te_registry te = example_tasks suggest float_add reg" and "waits te"
    and "executor_type t = PYTHON" and "task_name t \<in> {''echo'', ''add'', ''fail_always''}"
    and "task_status t = QUEUED" and "0 \<le> priority t" and "task_id t \<notin> cancelled (qv w)"
  shows "wp (execute_task x te t wid)
    (\<lambda>_ w'. ends_with (\<lambda>r. example_call suggest float_add (task_name t) (payload t) = Inr (PDict r))
       (\<lambda>e. e = TimeoutError \<and> times_out te (timeout_seconds t) \<or> example_call suggest float_add (task_name t) (payload t) = Inl e)
       (tasks (dbv w') (task_id t)))
    (\<lambda>_ _. True) w"
proof (rule execute_task_outcome [OF assms(5-7)])
  fix t1 w assume "running t wid t1"
  then have t1: "executor_type t1 = PYTHON" "task_name t1 = task_name t" "payload t1 = payload t"
    "timeout_seconds t1 = timeout_seconds t"
    using assms(3) by (auto simp: running_def)
  show "wp (run_executor te t1)
    (\<lambda>r _. example_call suggest float_add (task_name t) (payload t) = Inr (PDict r))
    (\<lambda>e _. is_Exception e \<longrightarrow> e = TimeoutError \<and> times_out te (timeout_seconds t) \<or>
       example_call suggest float_add (task_name t) (payload t) = Inl e) w"
    using run_executor_example [OF assms(1,2) t1(1), of w] assms(4) by (simp add: t1)
qed

end

text \<open>The calls of the documentation, of the tests and of the benchmark.\<close>

lemma example_calls:
  "example_call suggest float_add ''echo'' [(''message'', m)] = Inr (PDict [(''message'', m)])"
  "example_call suggest float_add ''echo'' [] = Inr (PDict [(''message'', PStr ''hello'')])"
  "example_call suggest float_add ''add'' [(''a'', PInt i), (''b'', PInt j)] = Inr (PDict [(''sum'', PInt (i + j))])"
  "example_call suggest float_add ''fail_always'' [] = Inl (RuntimeError ''Intentional failure for DLQ testing'')"
  "example_call suggest float_add ''echo'' [(''i'', v)] =
     Inl (TypeError (''echo() got an unexpected keyword argument '' @ quoted ''i'' @ suggest ''i'' [''message'']))"
  by (simp_all add: example_call_def bind_arguments_def missing_def argument_def dict_get_def echo_params_def
      add_params_def echo_def add_def py_add_def fail_always_def)

lemma add_misses_arguments:
  "example_call suggest float_add ''add'' [] =
     Inl (TypeError (''add() missing 2 required positional arguments: '' @ quoted ''a'' @ '' and '' @ quoted ''b''))"
  "example_call suggest float_add ''add'' [(''b'', v)] =
     Inl (TypeError (''add() missing 1 required positional argument: '' @ quoted ''a''))"
  by (simp_all add: example_call_def bind_arguments_def missing_def add_params_def) code_simp+

lemma add_mixed:
  "example_call suggest float_add ''add'' [(''a'', PStr s), (''b'', PInt 1)] =
     Inl (TypeError (''can only concatenate str (not '' @ [CHR 0x22] @ ''int'' @ [CHR 0x22] @ '') to str''))"
  "example_call suggest float_add ''add'' [(''a'', PBool True), (''b'', PInt 1)] = Inr (PDict [(''sum'', PInt 2)])"
  by (simp_all add: example_call_def bind_arguments_def missing_def argument_def dict_get_def add_params_def
      add_def py_add_def is_float_def)

end
