(* ===== verification/Reference.thy ===== *)
theory Reference
  imports Drain Clock Api Webhook Example_Tasks "HOL-Library.List_Lexorder" "HOL-Library.Char_ord" "HOL-Library.Sublist"
begin

text \<open>
  One world in which the documented behaviour of PostgreSQL, SQLAlchemy, Redis, the clock and
  the task code holds: tables of rows with a durable copy, a session that stages one change and
  writes it at the flush, a Redis server, a clock that advances with every reading. The locales
  of the development are interpreted on the code's adapters over it, so that every property
  stated under a locale applies to a system that can be run.
\<close>

section \<open>The exceptions of the drivers\<close>

definition driver_error :: "exn \<Rightarrow> bool" where
  "driver_error e \<longleftrightarrow>
     (\<exists>m. e = RedisTimeoutError m \<or> e = RedisConnectionError m \<or> e = IntegrityError m \<or> e = LibraryError m)"

lemma driver_error_simps [simp]:
  "driver_error (RedisTimeoutError m)" "driver_error (RedisConnectionError m)" "driver_error (IntegrityError m)"
  "driver_error (LibraryError m)" "\<not> driver_error (ValueError m)" "\<not> driver_error CancelledError"
  by (simp_all add: driver_error_def)

section \<open>The world\<close>

datatype change = No_change | Put_task TaskModel | Put_event TaskEventModel | Put_worker WorkerModel
  | Put_user UserModel

record World =
  clock :: int
  next_uuid :: uuid
  observed :: "metric list"
  row_list :: "TaskModel list"
  event_list :: "TaskEventModel list"
  worker_rows :: "WorkerModel list"
  durable_rows :: "TaskModel list"
  durable_events :: "TaskEventModel list"
  durable_workers :: "WorkerModel list"
  user_rows :: "UserModel list"
  durable_users :: "UserModel list"
  staged :: change
  redis :: redis_data
  hashes :: "(string \<times> (string \<times> string) list) list"
  strings :: "(string \<times> string) list"
  sent :: "HttpRequest list"

definition ref_runtime :: "World runtime" where
  "ref_runtime =
     \<lparr>rt_now = (\<lambda>w. (clock w, w\<lparr>clock := clock w + 1\<rparr>)),
      rt_uuid4 = (\<lambda>w. (next_uuid w, w\<lparr>next_uuid := next_uuid w + 1\<rparr>)),
      rt_metric = (\<lambda>m w. w\<lparr>observed := m # observed w\<rparr>)\<rparr>"

section \<open>The database\<close>

definition sound_row :: "TaskModel \<Rightarrow> bool" where
  "sound_row m = (case to_domain_task m of Inl _ \<Rightarrow> False | Inr _ \<Rightarrow> True)"

definition row_of :: "TaskModel list \<Rightarrow> uuid \<Rightarrow> TaskModel option" where
  "row_of ms i = find (\<lambda>m. m_id m = i \<and> sound_row m) ms"

definition ref_sv :: "World \<Rightarrow> sql_view" where
  "ref_sv w = \<lparr>trows = row_of (row_list w), erows = event_list w,
     c_trows = row_of (durable_rows w), c_erows = durable_events w\<rparr>"

definition visible :: "World \<Rightarrow> TaskModel list" where
  "visible w = filter (\<lambda>m. row_of (row_list w) (m_id m) = Some m) (row_list w)"

definition key_taken :: "TaskModel \<Rightarrow> TaskModel list \<Rightarrow> bool" where
  "key_taken m ms =
     list_ex (\<lambda>m'. m_id m' \<noteq> m_id m \<and> m_idempotency_key m \<noteq> None \<and>
       m_idempotency_key m' = m_idempotency_key m) ms"

definition ref_flush :: "(World, unit) prog" where
  "ref_flush w =
     (let w' = w\<lparr>staged := No_change\<rparr> in
      case staged w of
        No_change \<Rightarrow> (Inr (), w')
      | Put_task m \<Rightarrow>
          if \<not> sound_row m then (Inl (LibraryError ''value out of range''), w')
          else if key_taken m (row_list w) then (Inl (IntegrityError ''duplicate key''), w')
          else (Inr (), w'\<lparr>row_list := m # row_list w\<rparr>)
      | Put_event e \<Rightarrow> (Inr (), w'\<lparr>event_list := event_list w @ [e\<lparr>em_created_at := clock w\<rparr>]\<rparr>)
      | Put_worker x \<Rightarrow> (Inr (), w'\<lparr>worker_rows := x # filter (\<lambda>y. wm_id y \<noteq> wm_id x) (worker_rows w)\<rparr>)
      | Put_user u \<Rightarrow>
          if list_ex (\<lambda>u'. um_username u' = um_username u) (user_rows w)
          then (Inl (IntegrityError ''duplicate key''), w')
          else (Inr (), w'\<lparr>user_rows := u\<lparr>um_created_at := clock w\<rparr> # user_rows w\<rparr>))"

text \<open>\<^verbatim>\<open>LIKE\<close>: a percent sign matches any text, an underscore one character.\<close>

primrec like :: "string \<Rightarrow> string \<Rightarrow> bool" where
  "like [] = (\<lambda>s. s = [])"
| "like (p # ps) = (\<lambda>s.
     if p = CHR ''%'' then list_ex (like ps) (suffixes s)
     else (case s of [] \<Rightarrow> False | c # cs \<Rightarrow> (p = CHR ''_'' \<or> p = c) \<and> like ps cs))"

definition matching :: "string option \<Rightarrow> string option \<Rightarrow> World \<Rightarrow> TaskModel list" where
  "matching s n w =
     filter (\<lambda>m. (case s of None \<Rightarrow> True | Some x \<Rightarrow> m_status m = x) \<and>
       (case n of None \<Rightarrow> True | Some p \<Rightarrow> like (lower p) (lower (m_name m)))) (visible w)"

definition sort_rows :: "sort_column \<Rightarrow> TaskModel list \<Rightarrow> TaskModel list" where
  "sort_rows col ms =
     (case col of
        Col_created_at \<Rightarrow> sort_key m_created_at ms
      | Col_priority \<Rightarrow> sort_key m_priority ms
      | Col_status \<Rightarrow> sort_key m_status ms
      | Col_name \<Rightarrow> sort_key m_name ms)"

definition ref_select :: "task_select \<Rightarrow> World \<Rightarrow> TaskModel list" where
  "ref_select q w =
     (let ms = sort_rows (s_column q) (matching (s_status q) (s_name_ilike q) w)
      in take (nat (s_limit q)) (drop (nat (s_offset q)) (if s_desc q then rev ms else ms)))"

text \<open>A read: the value is computed from the world, which stays.\<close>

definition reading :: "(World \<Rightarrow> 'a) \<Rightarrow> (World, 'a) prog" where
  "reading f w = (Inr (f w), w)"

definition ref_restart :: "World \<Rightarrow> World" where
  "ref_restart w = w\<lparr>row_list := durable_rows w, event_list := durable_events w,
     worker_rows := durable_workers w, user_rows := durable_users w, staged := No_change\<rparr>"

definition ref_stale :: "int \<Rightarrow> string \<Rightarrow> WorkerModel \<Rightarrow> bool" where
  "ref_stale threshold s x = (wm_last_seen_at x < threshold \<and> wm_status x \<noteq> s)"

definition ref_sql :: "World SqlSession" where
  "ref_sql =
     \<lparr>sq_get_task = (\<lambda>i. reading (\<lambda>w. row_of (row_list w) i)),
      sq_add_task = (\<lambda>m w. w\<lparr>staged := Put_task m\<rparr>),
      sq_set_task = (\<lambda>m w. w\<lparr>staged := Put_task m\<rparr>),
      sq_flush = ref_flush,
      sq_task_by_key = (\<lambda>k. reading (\<lambda>w. find (\<lambda>m. m_idempotency_key m = Some k) (visible w))),
      sq_select_tasks = (\<lambda>q. reading (ref_select q)),
      sq_count_tasks = (\<lambda>s n. reading (\<lambda>w. int (length (matching s n w)))),
      sq_count_by_status = reading (\<lambda>w.
        map (\<lambda>s. (s, int (length (filter (\<lambda>m. m_status m = s) (visible w)))))
          (remdups (map m_status (visible w)))),
      sq_add_event = (\<lambda>e w. w\<lparr>staged := Put_event e\<rparr>),
      sq_event_created_at = (\<lambda>i. reading (\<lambda>w.
        case find (\<lambda>e. em_id e = i) (rev (event_list w)) of None \<Rightarrow> 0 | Some e \<Rightarrow> em_created_at e)),
      sq_select_events = (\<lambda>i. reading (\<lambda>w.
        sort_key em_created_at (filter (\<lambda>e. em_task_id e = i) (event_list w)))),
      sq_get_worker = (\<lambda>u. reading (\<lambda>w. find (\<lambda>x. wm_id x = u) (worker_rows w))),
      sq_add_worker = (\<lambda>x w. w\<lparr>staged := Put_worker x\<rparr>),
      sq_set_worker = (\<lambda>x w. w\<lparr>staged := Put_worker x\<rparr>),
      sq_select_workers = (\<lambda>n. reading (\<lambda>w. take (nat n) (rev (sort_key wm_last_seen_at (worker_rows w))))),
      sq_update_stale_workers = (\<lambda>threshold s w.
        (Inr (int (length (filter (ref_stale threshold s) (worker_rows w)))),
         w\<lparr>worker_rows := map (\<lambda>x. if ref_stale threshold s x then x\<lparr>wm_status := s\<rparr> else x) (worker_rows w)\<rparr>)),
      sq_user_by_name = (\<lambda>n. reading (\<lambda>w. find (\<lambda>u. um_username u = n) (user_rows w))),
      sq_add_user = (\<lambda>n h r w. w\<lparr>next_uuid := next_uuid w + 1, staged := Put_user
        \<lparr>um_id = next_uuid w, um_username = n, um_password_hash = h, um_role = r, um_created_at = 0\<rparr>\<rparr>),
      sq_begin = ref_restart,
      sq_commit = (\<lambda>w. (Inr (), w\<lparr>durable_rows := row_list w, durable_events := event_list w,
        durable_workers := worker_rows w, durable_users := user_rows w\<rparr>)),
      sq_rollback = (\<lambda>w. (Inr (), ref_restart w)),
      sq_close = (\<lambda>w. (Inr (), ref_restart w))\<rparr>"

section \<open>Redis\<close>

text \<open>
  A sorted set is finite, and the schedule holds the texts of identifiers only. The view of a
  server in any other state is the empty server, a state that no command leaves.
\<close>

definition sane :: "redis_data \<Rightarrow> bool" where
  "sane d \<longleftrightarrow> (\<forall>k. finite (dom (zsets d k))) \<and> dom (zsets d SCHEDULED_KEY) \<subseteq> range TaskId_str"

definition empty_redis :: redis_data where
  "empty_redis = \<lparr>rlists = (\<lambda>_. []), zsets = (\<lambda>_. Map.empty), rsets = (\<lambda>_. {})\<rparr>"

definition ref_rv :: "World \<Rightarrow> redis_data" where
  "ref_rv w = (if sane (redis w) then redis w else empty_redis)"

definition command :: "(redis_data \<Rightarrow> 'a) \<Rightarrow> (redis_data \<Rightarrow> redis_data) \<Rightarrow> (World, 'a) prog" where
  "command g f w = (Inr (g (ref_rv w)), w\<lparr>redis := f (ref_rv w)\<rparr>)"

definition ref_zrange :: "redis_data \<Rightarrow> string \<Rightarrow> int \<Rightarrow> int \<Rightarrow> int \<Rightarrow> int \<Rightarrow> string list" where
  "ref_zrange d k lo hi off cnt =
     (let xs = sort_key (\<lambda>m. the (zsets d k m)) (sorted_list_of_set {m. in_range d k lo hi m})
      in if cnt < 0 then drop (nat off) xs else take (nat cnt) (drop (nat off) xs))"

definition ref_hset :: "string \<Rightarrow> (string \<times> string) list \<Rightarrow> World \<Rightarrow> World" where
  "ref_hset k fs w =
     w\<lparr>hashes := AList.update k
         (fold (\<lambda>(f, v). AList.update f v) fs (case map_of (hashes w) k of None \<Rightarrow> [] | Some h \<Rightarrow> h))
         (hashes w)\<rparr>"

definition ref_redis :: "World RedisClient" where
  "ref_redis =
     \<lparr>rc_lpush = (\<lambda>k v. command (\<lambda>d. int (length (rlists d k)) + 1) (d_push k v)),
      rc_rpop = (\<lambda>k. command (\<lambda>d. if rlists d k = [] then None else Some (last (rlists d k))) (d_pop k)),
      rc_brpop = (\<lambda>ks _. command (brpop_result ks) (d_brpop ks)),
      rc_llen = (\<lambda>k. command (\<lambda>d. int (length (rlists d k))) (\<lambda>d. d)),
      rc_zadd = (\<lambda>k m s. command (\<lambda>d. if zsets d k m = None then 1 else 0) (d_zset k m (Some s))),
      rc_zrem = (\<lambda>k m. command (\<lambda>d. if zsets d k m = None then 0 else 1) (d_zset k m None)),
      rc_zrangebyscore = (\<lambda>k lo hi off cnt. command (\<lambda>d. ref_zrange d k lo hi off cnt) (\<lambda>d. d)),
      rc_zcard = (\<lambda>k. command (\<lambda>d. int (card (dom (zsets d k)))) (\<lambda>d. d)),
      rc_sadd = (\<lambda>k m. command (\<lambda>d. if m \<in> rsets d k then 0 else 1) (d_set k (insert m))),
      rc_srem = (\<lambda>k m. command (\<lambda>d. if m \<in> rsets d k then 1 else 0) (d_set k (\<lambda>x. x - {m}))),
      rc_sismember = (\<lambda>k m. command (\<lambda>d. m \<in> rsets d k) (\<lambda>d. d)),
      rc_hset = (\<lambda>k fs w. (Inr (int (length fs)), ref_hset k fs w)),
      rc_expire = (\<lambda>k _. reading (\<lambda>w. k \<in> fst ` set (hashes w) \<or> k \<in> fst ` set (strings w))),
      rc_delete = (\<lambda>k w. case command (\<lambda>_. 1) (d_delete k) w of (r, w') \<Rightarrow>
        (r, w'\<lparr>hashes := AList.delete k (hashes w), strings := AList.delete k (strings w)\<rparr>)),
      rc_scan = (\<lambda>_ pat _. reading (\<lambda>w.
        (0, filter (\<lambda>k. starts_with k (butlast pat)) (map fst (hashes w))))),
      rc_set_nx_ex = (\<lambda>k v _ w. if map_of (strings w) k = None
        then (Inr True, w\<lparr>strings := (k, v) # strings w\<rparr>) else (Inr False, w)),
      rc_get = (\<lambda>k. reading (\<lambda>w. map_of (strings w) k)),
      rc_close = ret (),
      rc_script = (\<lambda>s. command (\<lambda>d. fst (s d)) (\<lambda>d. snd (s d))),
      rs_zrangebyscore = ref_zrange,
      rs_zrem = (\<lambda>k m. d_zset k m None)\<rparr>"

section \<open>The laws of the database\<close>

lemma row_of_Some: "row_of ms i = Some m \<Longrightarrow> m \<in> set ms \<and> m_id m = i \<and> sound_row m"
  by (auto simp: row_of_def find_Some_iff)

lemma row_of_Cons: "sound_row m \<Longrightarrow> row_of (m # ms) = (row_of ms)(m_id m \<mapsto> m)"
  by (auto simp: row_of_def fun_eq_iff)

lemma ref_sv_unchanged [simp]:
  "ref_sv (w\<lparr>staged := c\<rparr>) = ref_sv w"
  "ref_sv (w\<lparr>redis := d\<rparr>) = ref_sv w"
  "ref_sv (w\<lparr>hashes := hs\<rparr>) = ref_sv w"
  "ref_sv (w\<lparr>strings := ss\<rparr>) = ref_sv w"
  "ref_sv (w\<lparr>clock := n\<rparr>) = ref_sv w"
  "ref_sv (w\<lparr>next_uuid := u\<rparr>) = ref_sv w"
  "ref_sv (w\<lparr>observed := os\<rparr>) = ref_sv w"
  "ref_sv (w\<lparr>worker_rows := xs\<rparr>) = ref_sv w"
  "ref_sv (w\<lparr>user_rows := us\<rparr>) = ref_sv w"
  "ref_sv (w\<lparr>sent := qs\<rparr>) = ref_sv w"
  "ref_sv (w\<lparr>durable_users := us\<rparr>) = ref_sv w"
  by (simp_all add: ref_sv_def)

lemma ref_rv_unchanged [simp]:
  "ref_rv (w\<lparr>staged := c\<rparr>) = ref_rv w"
  "ref_rv (w\<lparr>hashes := hs\<rparr>) = ref_rv w"
  "ref_rv (w\<lparr>strings := ss\<rparr>) = ref_rv w"
  "ref_rv (w\<lparr>clock := n\<rparr>) = ref_rv w"
  "ref_rv (w\<lparr>next_uuid := u\<rparr>) = ref_rv w"
  "ref_rv (w\<lparr>observed := os\<rparr>) = ref_rv w"
  "ref_rv (w\<lparr>worker_rows := xs\<rparr>) = ref_rv w"
  "ref_rv (w\<lparr>user_rows := us\<rparr>) = ref_rv w"
  "ref_rv (w\<lparr>sent := qs\<rparr>) = ref_rv w"
  "ref_rv (w\<lparr>durable_users := us\<rparr>) = ref_rv w"
  "ref_rv (w\<lparr>row_list := ms\<rparr>) = ref_rv w"
  "ref_rv (w\<lparr>event_list := es\<rparr>) = ref_rv w"
  "ref_rv (w\<lparr>durable_rows := ms\<rparr>) = ref_rv w"
  "ref_rv (w\<lparr>durable_events := es\<rparr>) = ref_rv w"
  "ref_rv (w\<lparr>durable_workers := xs\<rparr>) = ref_rv w"
  by (simp_all add: ref_rv_def)

lemma reading_contract:
  assumes "\<And>w. S w (f w) w"
  shows "contract (reading f) S F"
  using assms by (simp add: contract_def wp_def reading_def)

lemma visible_row: "m \<in> set (visible w) \<longleftrightarrow> row_of (row_list w) (m_id m) = Some m"
  unfolding visible_def using row_of_Some by auto

lemma set_sort_rows [simp]: "set (sort_rows c ms) = set ms"
  by (simp add: sort_rows_def split: sort_column.split)

lemma ref_select_visible:
  assumes "m \<in> set (ref_select q w)"
  shows "row_of (row_list w) (m_id m) = Some m \<and>
    (case s_status q of None \<Rightarrow> True | Some s \<Rightarrow> m_status m = s)"
proof -
  from assms have "m \<in> set (matching (s_status q) (s_name_ilike q) w)"
    unfolding ref_select_def Let_def
    by (auto dest!: in_set_takeD in_set_dropD split: if_splits)
  then show ?thesis by (simp add: matching_def visible_row)
qed

lemma key_taken_visible:
  assumes "row_of ms i = Some m'" and "m_idempotency_key m' = Some k"
    and "m_idempotency_key m = Some k" and "i \<noteq> m_id m"
  shows "key_taken m ms"
  using row_of_Some [OF assms(1)] assms(2-4) by (auto simp: key_taken_def list_ex_iff)

lemma find_key:
  "case find (\<lambda>m. m_idempotency_key m = Some k) (visible w) of
     None \<Rightarrow> \<forall>i m. trows (ref_sv w) i = Some m \<longrightarrow> m_idempotency_key m \<noteq> Some k
   | Some m \<Rightarrow> m_idempotency_key m = Some k \<and> trows (ref_sv w) (m_id m) = Some m"
proof (cases "find (\<lambda>m. m_idempotency_key m = Some k) (visible w)")
  case None
  then have "\<forall>m \<in> set (visible w). m_idempotency_key m \<noteq> Some k"
    by (simp add: find_None_iff)
  moreover have "m \<in> set (visible w)" if "row_of (row_list w) i = Some m" for i m
    using that row_of_Some [OF that] by (simp add: visible_row)
  ultimately show ?thesis using None by (auto simp: ref_sv_def)
next
  case (Some m)
  then have "m \<in> set (visible w) \<and> m_idempotency_key m = Some k"
    by (auto simp: find_Some_iff dest: nth_mem)
  then show ?thesis using Some by (simp add: visible_row ref_sv_def)
qed

lemma last_event_created:
  assumes "erows (ref_sv w) = es @ [e]" and "em_id e = i"
  shows "(case find (\<lambda>e. em_id e = i) (rev (event_list w)) of None \<Rightarrow> 0 | Some e \<Rightarrow> em_created_at e) = em_created_at e"
  using assms by (simp add: ref_sv_def)

lemma flush_task_wp:
  "wp ref_flush
     (\<lambda>_ w'. ref_sv w' = (ref_sv w)\<lparr>trows := (trows (ref_sv w))(m_id m \<mapsto> m)\<rparr> \<and> ref_rv w' = ref_rv w)
     (\<lambda>e w'. driver_error e \<and> ref_sv w' = ref_sv w \<and> ref_rv w' = ref_rv w) (w\<lparr>staged := Put_task m\<rparr>)"
  by (cases "sound_row m"; cases "key_taken m (row_list w)")
    (simp_all add: wp_def ref_flush_def Let_def driver_error_def ref_sv_def row_of_Cons)

lemma flush_event_wp:
  "wp ref_flush
     (\<lambda>_ w'. ref_sv w' = (ref_sv w)\<lparr>erows := erows (ref_sv w) @ [e\<lparr>em_created_at := clock w\<rparr>]\<rparr> \<and>
        ref_rv w' = ref_rv w)
     (\<lambda>_ _. False) (w\<lparr>staged := Put_event e\<rparr>)"
  by (simp add: wp_def ref_flush_def ref_sv_def)

lemma flush_worker_wp:
  "wp ref_flush (\<lambda>_ w'. ref_sv w' = ref_sv w \<and> ref_rv w' = ref_rv w)
     (\<lambda>_ _. False) (w\<lparr>staged := Put_worker x\<rparr>)"
  by (simp add: wp_def ref_flush_def)

interpretation ref_sql_laws: sql_service ref_sql ref_sv "\<lambda>w. qview (ref_rv w)" driver_error
proof (unfold_locales, goal_cases)
  case (2 m w)
  show ?case by (simp add: ref_sql_def, rule wp_mono [OF flush_task_wp]) (auto simp: sql_failed_def)
next
  case (3 m w)
  show ?case by (simp add: ref_sql_def, rule wp_mono [OF flush_task_wp]) (auto simp: sql_failed_def)
next
  case (4 w i m' k m)
  then show ?case
    using key_taken_visible [of "row_list w" i m' k m]
    by (cases "sound_row m") (simp_all add: ref_sql_def ref_flush_def ref_sv_def)
next
  case (5 k)
  show ?case
    by (simp add: ref_sql_def, rule reading_contract) (simp add: keeps_def find_key)
next
  case (6 q)
  show ?case
    by (simp add: ref_sql_def, rule reading_contract)
      (auto simp: keeps_def ref_sv_def dest: ref_select_visible, auto simp: ref_select_def Let_def)
next
  case (7 e w)
  show ?case by (simp add: ref_sql_def, rule wp_mono [OF flush_event_wp]) auto
next
  case (8 i)
  show ?case
    by (simp add: ref_sql_def, rule reading_contract) (auto simp: keeps_def last_event_created)
next
  case (10 x w)
  show ?case by (simp add: ref_sql_def, rule wp_mono [OF flush_worker_wp]) auto
next
  case (11 x w)
  show ?case by (simp add: ref_sql_def, rule wp_mono [OF flush_worker_wp]) auto
next
  case (16 w i m)
  then show ?case
    using row_of_Some [of "row_list w" i m]
    by (auto simp: ref_sv_def sound_row_def split: sum.splits)
qed (simp_all add: ref_sql_def reading_contract keeps_def contract_def wp_def ref_restart_def
      sql_failed_def ref_sv_def reading_def)

section \<open>The laws of Redis\<close>

lemma saneI:
  assumes "\<And>k. finite (dom (zsets d k))" and "dom (zsets d SCHEDULED_KEY) \<subseteq> range TaskId_str"
  shows "sane d"
  using assms by (simp add: sane_def)

lemma sane_empty [simp]: "sane empty_redis"
  by (simp add: sane_def empty_redis_def)

lemma sane_rv [simp]: "sane (ref_rv w)"
  by (simp add: ref_rv_def)

lemma zsets_other [simp]:
  "zsets (d_push k v d) = zsets d"
  "zsets (d_pop k d) = zsets d"
  "zsets (d_set k f d) = zsets d"
  by (simp_all add: d_push_def d_pop_def d_set_def)

lemma zsets_brpop [simp]: "zsets (d_brpop ks d) = zsets d"
  by (simp add: d_brpop_def split: option.split)

lemma sane_other [simp]:
  "sane (d_push k v d) = sane d"
  "sane (d_pop k d) = sane d"
  "sane (d_set k f d) = sane d"
  "sane (d_brpop ks d) = sane d"
  by (simp_all add: sane_def)

lemma sane_remove: "sane d \<Longrightarrow> sane (d_zset k m None d)"
  unfolding sane_def d_zset_def by (auto simp: dom_def intro: finite_subset [rotated])

lemma sane_delete: "sane d \<Longrightarrow> sane (d_delete k d)"
  by (auto simp: sane_def d_delete_def)

lemma sane_schedule: "sane d \<Longrightarrow> sane (d_zset SCHEDULED_KEY (TaskId_str i) (Some s) d)"
  by (auto simp: sane_def d_zset_def)

lemma sane_zrem_all: "sane d \<Longrightarrow> sane (lua_zrem_all ref_redis k ms d)"
  by (induction ms arbitrary: d) (simp_all add: ref_redis_def sane_remove)

lemma rv_command [simp]: "sane (f (ref_rv w)) \<Longrightarrow> ref_rv (w\<lparr>redis := f (ref_rv w)\<rparr>) = f (ref_rv w)"
  by (simp add: ref_rv_def)

lemma command_effect:
  assumes "\<And>d. sane d \<Longrightarrow> sane (f d)" and "\<And>d. sane d \<Longrightarrow> R d (g d)"
  shows "redis_effect (\<lambda>w. dview (ref_sv w)) ref_rv driver_error (command g f) f R"
  unfolding redis_effect_def contract_def
  by (simp add: wp_def command_def assms)

lemma read_effect:
  assumes "\<And>w. R (ref_rv w) (f w)"
  shows "redis_effect (\<lambda>w. dview (ref_sv w)) ref_rv driver_error (reading f) (\<lambda>d. d) R"
  unfolding redis_effect_def by (rule reading_contract) (simp add: assms)

lemma zrange_ref:
  assumes "finite (dom (zsets d k))"
  shows "zrange_result d k lo hi off cnt (ref_zrange d k lo hi off cnt)"
proof -
  have "{m. in_range d k lo hi m} \<subseteq> dom (zsets d k)"
    by (auto simp: in_range_def split: option.splits)
  then have fin: "finite {m. in_range d k lo hi m}" using assms by (rule finite_subset)
  have "sorted_wrt (\<lambda>a b. the (zsets d k a) \<le> the (zsets d k b))
      (sort_key (\<lambda>m. the (zsets d k m)) (sorted_list_of_set {m. in_range d k lo hi m}))"
    using sorted_sort_key [of "\<lambda>m. the (zsets d k m)"] by (simp add: sorted_map)
  with fin show ?thesis
    unfolding zrange_result_def ref_zrange_def Let_def
    by (intro exI [of _ "sort_key (\<lambda>m. the (zsets d k m)) (sorted_list_of_set {m. in_range d k lo hi m})"])
      simp
qed

interpretation ref_redis_laws: redis_service ref_redis "\<lambda>w. dview (ref_sv w)" ref_rv driver_error
proof (unfold_locales, goal_cases)
  case (12 k fs)
  show ?case
    by (simp add: ref_redis_def redis_effect_def contract_def wp_def ref_hset_def)
next
  case (14 k)
  show ?case
    by (simp add: ref_redis_def redis_effect_def contract_def wp_def command_def sane_delete)
next
  case (16 k n cnt)
  have script: "rc_script ref_redis s = command (\<lambda>d. fst (s d)) (\<lambda>d. snd (s d))" for s
    by (simp add: ref_redis_def)
  show ?case
    unfolding script by (rule command_effect) (simp_all add: claim_due_script_def Let_def sane_zrem_all)
next
  case (19 w k)
  show ?case using sane_rv [of w] by (simp add: sane_def)
next
  case (20 m w)
  then show ?case using sane_rv [of w] by (auto simp: sane_def)
qed (auto simp: ref_redis_def sane_remove sane_schedule intro!: command_effect read_effect
      zrange_ref, auto simp: sane_def)

interpretation ref_lock: lock_service ref_redis "\<lambda>w. map_of (strings w) LEADER_LOCK_KEY" driver_error
proof (unfold_locales, goal_cases)
  case (4)
  show ?case by (simp add: ref_redis_def contract_def wp_def command_def delete_conv)
qed (simp_all add: ref_redis_def contract_def wp_def reading_def)

section \<open>The users and the libraries\<close>

definition user_of :: "UserModel list \<Rightarrow> string \<Rightarrow> UserModel option" where
  "user_of us n = find (\<lambda>u. um_username u = n) us"

definition ref_uv :: "World \<Rightarrow> user_view" where
  "ref_uv w = \<lparr>users = user_of (user_rows w), c_users = user_of (durable_users w)\<rparr>"

text \<open>
  A hash is the password behind a mark; a token holds the lengths of subject, role and key in
  unary, then these texts and the expiry.
\<close>

definition ref_encode :: "string \<Rightarrow> string \<Rightarrow> int \<Rightarrow> string \<Rightarrow> string" where
  "ref_encode s r e k = concat (map (\<lambda>x. replicate (length x) CHR ''1'' @ ''.'') [s, r, k]) @
     s @ r @ k @ (if 0 \<le> e then ''+'' else ''-'') @ show_nat (nat \<bar>e\<bar>)"

definition ref_claims :: "pydict \<Rightarrow> (string \<times> string \<times> int) option" where
  "ref_claims d = (case (dict_get d ''sub'' PNone, dict_get d ''role'' PNone, dict_get d ''exp'' PNone) of
     (PStr s, PStr r, PInt e) \<Rightarrow> Some (s, r, e) | _ \<Rightarrow> None)"

definition unary :: "string \<Rightarrow> nat \<times> string" where
  "unary t = (length (takeWhile (\<lambda>c. c = CHR ''1'') t), tl (dropWhile (\<lambda>c. c = CHR ''1'') t))"

definition ref_decode :: "string \<Rightarrow> string \<Rightarrow> (string \<times> string \<times> int) option" where
  "ref_decode t k =
     (case unary t of (ns, t) \<Rightarrow> case unary t of (nr, t) \<Rightarrow> case unary t of (nk, t) \<Rightarrow>
        let s = take ns t; r = take nr (drop ns t); k' = take nk (drop (ns + nr) t);
            rest = drop (ns + nr + nk) t; e = int (read_digits 0 (tl rest))
        in if k' \<noteq> k \<or> rest = [] then None else Some (s, r, if hd rest = CHR ''+'' then e else - e))"

definition ref_crypto :: "World Crypto" where
  "ref_crypto =
     \<lparr>cr_gensalt = (\<lambda>w. (''salt'', w)),
      cr_hashpw = (\<lambda>p s. Inr (CHR ''$'' # p)),
      cr_checkpw = (\<lambda>p h. Inr (h = CHR ''$'' # p)),
      cr_jwt_encode = (\<lambda>d k a. case ref_claims d of
        Some (s, r, e) \<Rightarrow> Inr (ref_encode s r e k) | None \<Rightarrow> Inl (TypeError ''claims'')),
      cr_jwt_decode = (\<lambda>w t k as. case ref_decode t k of
        None \<Rightarrow> Inl ''Signature verification failed''
      | Some (s, r, e) \<Rightarrow>
          if clock w div 1000000 < e then Inr [(''sub'', PStr s), (''role'', PStr r), (''exp'', PInt e)]
          else Inl ''Signature has expired'')\<rparr>"

lemma unary_length: "unary (replicate n CHR ''1'' @ CHR ''.'' # t) = (n, t)"
  by (induction n) (simp_all add: unary_def)

lemma ref_decode_encode: "ref_decode (ref_encode s r e k) k = Some (s, r, e)"
  by (simp add: ref_decode_def ref_encode_def unary_length Let_def read_digits_show_nat)

definition ref_http :: "World HttpClient" where
  "ref_http =
     \<lparr>hc_request = (\<lambda>q w. (Inr \<lparr>hr_status = 200, hr_json = Inr (PDict []), hr_text = []\<rparr>, w\<lparr>sent := q # sent w\<rparr>)),
      hc_raise_for_status = (\<lambda>r. if 200 \<le> hr_status r \<and> hr_status r < 300 then Inr ()
        else Inl (LibraryError ''HTTPStatusError''))\<rparr>"

interpretation ref_http_laws: http_client ref_http "\<lambda>w. (ref_sv w, ref_rv w)"
  by unfold_locales (auto simp: ref_http_def contract_def wp_def split: if_splits)

section \<open>The container, the services and the worker over this world\<close>

definition ref_container :: "World Container" where
  "ref_container = \<lparr>c_session = ref_sql, c_redis = ref_redis, c_runtime = ref_runtime,
     c_settings = default_Settings, c_scan_fuel = 1\<rparr>"

interpretation ref: container ref_container ref_sv ref_rv driver_error
proof -
  have "sql_store ref_sql ref_runtime ref_sv (\<lambda>w. qview (ref_rv w)) driver_error"
    by unfold_locales (simp_all add: ref_runtime_def keeps_def)
  moreover have "redis_backend ref_redis ref_runtime (\<lambda>w. dview (ref_sv w)) ref_rv driver_error"
    by unfold_locales (simp_all add: ref_runtime_def keeps_def)
  ultimately show "container ref_container ref_sv ref_rv driver_error"
    by (simp add: container_def ref_container_def)
qed

text \<open>Its clock runs forward.\<close>

interpretation ref_clock: ticking ref_container clock
proof unfold_locales
qed (auto simp: ref_container_def ref_runtime_def ref_sql_def ref_redis_def forward_def reading_def command_def
    ref_flush_def ref_restart_def Let_def split: change.split)

interpretation ref_timed: timed ref_container ref_sv ref_rv driver_error clock
  by unfold_locales

text \<open>The registry of the example tasks, and an executor without a timeout.\<close>

definition ref_executors :: "World TaskExecutors" where
  "ref_executors =
     \<lparr>te_registry = example_tasks (\<lambda>_ _. []) (\<lambda>_ _. Inl (OverflowError ''int too large to convert to float'')) [],
      te_webhook = webhook_execute ref_http default_Settings,
      te_wait_for = (\<lambda>m seconds. m)\<rparr>"

interpretation ref_worker: worker "container_services ref_container" "\<lambda>w. dview (ref_sv w)"
  "\<lambda>w. qview (ref_rv w)" driver_error ref_executors
proof unfold_locales
  show "contract (run_executor ref_executors t)
      (\<lambda>w r w'. keeps (\<lambda>w. dview (ref_sv w)) (\<lambda>w. qview (ref_rv w)) w w')
      (\<lambda>w e w'. keeps (\<lambda>w. dview (ref_sv w)) (\<lambda>w. qview (ref_rv w)) w w')" for t
  proof (cases "executor_type t")
    case PYTHON
    then show ?thesis
      by (intro contractI)
        (auto simp: run_executor_def ref_executors_def python_execute_def example_tasks_def register_task_def
          handler_of_def registry_empty wp_simps keeps_def split: option.splits sum.splits if_splits)
  next
    case WEBHOOK
    then have run: "run_executor ref_executors t = webhook_execute ref_http default_Settings t"
      by (simp add: run_executor_def ref_executors_def)
    show ?thesis
      unfolding run
      by (rule contractI, rule contract_wp [OF ref_http_laws.webhook_isolated]) (simp_all add: keeps_def)
  qed
qed

interpretation ref_deployment: deployment ref_container ref_executors ref_sv ref_rv driver_error
  by unfold_locales

lemma ref_uv_unchanged [simp]:
  "ref_uv (w\<lparr>clock := n\<rparr>) = ref_uv w"
  by (simp add: ref_uv_def)

interpretation ref_users: user_service ref_sql ref_uv driver_error
proof (unfold_locales, goal_cases)
  case (2 n h r w)
  show ?case
  proof (cases "list_ex (\<lambda>u. um_username u = n) (user_rows w)")
    case True
    then show ?thesis by (simp add: ref_sql_def wp_def ref_flush_def ref_uv_def driver_error_def)
  next
    case False
    let ?m = "\<lparr>um_id = next_uuid w, um_username = n, um_password_hash = h, um_role = r, um_created_at = clock w\<rparr>"
    have "user_of (?m # user_rows w) = (user_of (user_rows w))(n \<mapsto> ?m)"
      by (auto simp: user_of_def fun_eq_iff)
    with False show ?thesis
      by (auto simp: ref_sql_def wp_def ref_flush_def ref_uv_def intro!: exI [of _ ?m])
  qed
next
  case (7 w n m)
  then show ?case by (auto simp: ref_uv_def user_of_def find_Some_iff)
qed (simp_all add: ref_sql_def contract_def wp_def reading_def ref_restart_def ref_uv_def user_of_def)

interpretation ref_accounts: accounts ref_container ref_crypto ref_uv "\<lambda>w. clock w div 1000000" driver_error
proof -
  have "crypto_service ref_crypto ref_uv (\<lambda>w. clock w div 1000000) ref_runtime"
  proof (unfold_locales, goal_cases)
    case (1 p salt h)
    then show ?case by (simp add: ref_crypto_def)
  next
    case (2 s r expires k a token w)
    then have "token = ref_encode s r (expires div 1000000) k"
      by (simp add: ref_crypto_def ref_claims_def token_payload_def dict_get_def)
    then show ?case by (simp add: ref_crypto_def ref_decode_encode token_payload_def)
  next
    case (3 d k a token)
    then show ?case by (auto simp: ref_crypto_def ref_encode_def split: option.splits)
  qed (simp_all add: ref_crypto_def ref_runtime_def)
  then show "accounts ref_container ref_crypto ref_uv (\<lambda>w. clock w div 1000000) driver_error"
    using ref_users.user_service_axioms by (simp add: accounts_def ref_container_def)
qed

text \<open>The application over this world, with a limiter that never refuses.\<close>

definition ref_app :: "World Application" where
  "ref_app = \<lparr>ap_container = ref_container, ap_crypto = ref_crypto, ap_hit = (\<lambda>w. (True, w)),
     ap_report = map PStr, ap_ping = ret (), ap_select_one = ret (), ap_generate_latest = (\<lambda>w. [])\<rparr>"

lemma ref_app_simps [simp]:
  "ap_container ref_app = ref_container" "ap_crypto ref_app = ref_crypto" "ap_hit ref_app = (\<lambda>w. (True, w))"
  by (simp_all add: ref_app_def)

section \<open>States to start from\<close>

definition ref_task :: "TaskId \<Rightarrow> TaskStatus \<Rightarrow> Task" where
  "ref_task i s =
     \<lparr>task_id = i, task_name = ''echo'', executor_type = PYTHON, payload = [(''n'', PInt 1)],
      task_status = s, priority = 2, max_retries = 3, attempts = 0, scheduled_at = None,
      timeout_seconds = 300, backoff_policy = default_BackoffPolicy, worker_id = None,
      task_result = None, task_error = None, idempotency_key = Some ''key'',
      created_at = Some 0, updated_at = Some 0, started_at = None, finished_at = None\<rparr>"

lemma ref_task_simps [simp]:
  "task_id (ref_task i s) = i" "task_status (ref_task i s) = s" "priority (ref_task i s) = 2"
  "idempotency_key (ref_task i s) = Some ''key''" "attempts (ref_task i s) = 0"
  "max_retries (ref_task i s) = 3" "executor_type (ref_task i s) = PYTHON"
  "task_name (ref_task i s) = ''echo''" "scheduled_at (ref_task i s) = None"
  "started_at (ref_task i s) = None" "timeout_seconds (ref_task i s) = 300"
  "backoff_policy (ref_task i s) = default_BackoffPolicy"
  by (simp_all add: ref_task_def)

text \<open>A world whose tables hold the given tasks, committed.\<close>

definition ref_world :: "Task list \<Rightarrow> redis_data \<Rightarrow> World" where
  "ref_world ts d =
     (let rows = map (task_model 0 0) ts in
      \<lparr>clock = 1000000, next_uuid = 1, observed = [], row_list = rows, event_list = [], worker_rows = [],
       durable_rows = rows, durable_events = [], durable_workers = [], user_rows = [], durable_users = [], staged = No_change,
       redis = d, hashes = [], strings = [], sent = []\<rparr>)"

abbreviation ref_dbv :: "World \<Rightarrow> db_view" where "ref_dbv \<equiv> \<lambda>w. dview (ref_sv w)"
abbreviation ref_qv :: "World \<Rightarrow> queue_view" where "ref_qv \<equiv> \<lambda>w. qview (ref_rv w)"

lemma sound_model: "0 \<le> priority t \<Longrightarrow> sound_row (task_model c u t)"
  by (simp add: sound_row_def to_domain_task_model)

lemma ref_world_none [simp]:
  "tasks (ref_dbv (ref_world [] d)) = Map.empty" "committed (ref_dbv (ref_world [] d)) = Map.empty"
  by (simp_all add: dview_def ref_sv_def ref_world_def row_of_def Let_def)

lemma ref_world_users [simp]: "c_users (ref_uv (ref_world ts d)) = Map.empty"
  by (simp add: ref_uv_def ref_world_def user_of_def Let_def fun_eq_iff)

lemma ref_world_one [simp]:
  "tasks (ref_dbv (ref_world [ref_task i s] d)) = [i \<mapsto> ref_task i s]"
  "committed (ref_dbv (ref_world [ref_task i s] d)) = [i \<mapsto> ref_task i s]"
proof -
  have row: "row_of [task_model 0 0 (ref_task i s)] = [i \<mapsto> task_model 0 0 (ref_task i s)]"
    by (auto simp: fun_eq_iff row_of_def sound_model)
  have "(ref_task i s)\<lparr>created_at := Some 0, updated_at := Some 0\<rparr> = ref_task i s"
    by (simp add: ref_task_def)
  then have "decode_task (task_model 0 0 (ref_task i s)) = Some (ref_task i s)"
    by (simp add: decode_task_def to_domain_task_model)
  with row show "tasks (ref_dbv (ref_world [ref_task i s] d)) = [i \<mapsto> ref_task i s]"
    "committed (ref_dbv (ref_world [ref_task i s] d)) = [i \<mapsto> ref_task i s]"
    by (simp_all add: dview_def ref_sv_def ref_world_def Let_def fun_eq_iff)
qed

lemma ref_world_queues [simp]:
  "ref_qv (ref_world ts empty_redis) =
     \<lparr>ready = (\<lambda>_. []), scheduled = Map.empty, dlq = [], cancelled = {}\<rparr>"
  by (simp add: ref_rv_def ref_world_def qview_def empty_redis_def Let_def)

lemma ref_services_simps [simp]:
  "svc_st (container_services ref_container) = default_Settings"
  "svc_rt (container_services ref_container) = ref_runtime"
  "c_settings ref_container = default_Settings"
  "c_runtime ref_container = ref_runtime"
  by (simp_all add: container_services_def ref_container_def)

lemma default_Settings_simps [simp]:
  "max_payload_bytes default_Settings = 1048576" "priority_levels default_Settings = 4"
  "scheduler_batch_size default_Settings = 100"
  by (simp_all add: default_Settings_def)

text \<open>A request for the handler \<open>echo\<close>.\<close>

definition ref_request :: SubmitTaskRequest where
  "ref_request = \<lparr>r_name = ''echo'', r_executor_type = ''python'', r_payload = [(''n'', PInt 1)],
     r_priority = 2, r_scheduled_at = None, r_max_retries = 3, r_timeout_seconds = 300,
     r_backoff_policy = None, r_idempotency_key = None\<rparr>"

end
