(* ===== verification/Queue_Theorems.thy ===== *)
theory Queue_Theorems
  imports Reference
begin

text \<open>
  What the queue manager, the cancellation service, the scheduler service and the failure
  handler do, stated of the services as the container wires them, over any database and any
  Redis that behave as documented.
\<close>

abbreviation db_of :: "('w \<Rightarrow> sql_view) \<Rightarrow> 'w \<Rightarrow> db_view" where
  "db_of sv \<equiv> \<lambda>w. dview (sv w)"

abbreviation queue_of :: "('w \<Rightarrow> redis_data) \<Rightarrow> 'w \<Rightarrow> queue_view" where
  "queue_of rv \<equiv> \<lambda>w. qview (rv w)"

text \<open>No task in the table has the idempotency key of the request.\<close>

definition unused_key :: "SubmitTaskRequest \<Rightarrow> (TaskId \<Rightarrow> Task option) \<Rightarrow> bool" where
  "unused_key r ts \<longleftrightarrow>
     (\<forall>k i t. r_idempotency_key r = Some k \<longrightarrow> k \<noteq> [] \<longrightarrow> ts i = Some t \<longrightarrow> idempotency_key t \<noteq> Some k)"

lemma unused_keyD:
  "unused_key r ts \<Longrightarrow> r_idempotency_key r = Some k \<Longrightarrow> k \<noteq> [] \<Longrightarrow> ts i = Some t \<Longrightarrow>
     idempotency_key t \<noteq> Some k"
  by (auto simp: unused_key_def)

text \<open>The wired services meet the contract that the services are proved under.\<close>

lemma wired: "container c sv rv pe \<Longrightarrow> services (container_services c) (db_of sv) (queue_of rv) pe"
  by (rule container.services_wired)

lemma container_settings [simp]: "svc_st (container_services c) = c_settings c"
  by (simp add: container_services_def)

text \<open>Queues that agree on every identifier are the same.\<close>

lemma queue_only_none: "queue_only {} v v' \<Longrightarrow> v' = v"
  by (auto simp: queue_only_def fun_eq_iff set_eq_iff intro!: queue_view.equality)

lemma frame_queue: "frame dbv qv {} w w' \<Longrightarrow> qv w' = qv w"
  by (auto simp: frame_def dest: queue_only_none)

text \<open>The reference container under other settings.\<close>

lemma ref_container_settings: "container (ref_container\<lparr>c_settings := st\<rparr>) ref_sv ref_rv driver_error"
proof -
  have "redis_backend ref_redis ref_runtime (\<lambda>w. dview (ref_sv w)) ref_rv driver_error"
    by unfold_locales (simp_all add: ref_runtime_def keeps_def driver_error_def)
  then show ?thesis
    using ref.container_axioms by (simp add: container_def ref_container_def)
qed

section \<open>Submission\<close>

text \<open>
  What a submission under identifier \<open>i\<close> makes durable: one row with the fields of the request,
  and its two events.
\<close>

definition submitted :: "SubmitTaskRequest \<Rightarrow> TaskId \<Rightarrow> db_view \<Rightarrow> db_view \<Rightarrow> bool" where
  "submitted r i d d' \<longleftrightarrow>
     adds_submission r i (committed d) (committed_events d) (committed d') (committed_events d')"

text \<open>
  What holds when a submission for now has returned the task \<open>t\<close>. A key that no task has: the
  task is new, committed and at the tail of the ready list of its (clamped) priority. A key that
  a committed task has: this task is \<open>t\<close>, and nothing has changed.
\<close>

definition accepted :: "SubmitTaskRequest \<Rightarrow> int \<Rightarrow> db_view \<Rightarrow> queue_view \<Rightarrow> Task \<Rightarrow> db_view \<Rightarrow> queue_view \<Rightarrow> bool" where
  "accepted r levels d v t d' v' \<longleftrightarrow>
     (if unused_key r (committed d)
      then queued_as r t \<and> submitted r (task_id t) d d' \<and> v' = push_ready levels (task_id t) (r_priority r) v
      else idempotency_key t = r_idempotency_key r \<and> committed d (task_id t) = Some t \<and>
        committed d' = committed d \<and> committed_events d' = committed_events d \<and> v' = v)"

text \<open>
  What holds when a submission has raised: nothing is durable, unless the answer to the commit of
  a new task, or to the closing of its session, was lost.
\<close>

definition refused :: "'w Container \<Rightarrow> ('w \<Rightarrow> db_view) \<Rightarrow> SubmitTaskRequest \<Rightarrow> db_view \<Rightarrow> db_view \<Rightarrow> bool" where
  "refused c dbv r d d' \<longleftrightarrow>
     committed d' = committed d \<and> committed_events d' = committed_events d \<or>
     commit_lost c dbv d' \<and> unused_key r (committed d) \<and> (\<exists>i. submitted r i d d')"

text \<open>A submission in its own session; what raises is ruled out later by the reason it raised for.\<close>

lemma framed_submission:
  "container c sv rv pe \<Longrightarrow>
     framed (db_of sv) (queue_of rv) UNIV (submit (container_services c) r) (\<lambda>_. True) (\<lambda>_. True)"
  by (rule services.framed_submit [OF wired]) simp_all

lemma session_submit_wp:
  assumes "container c sv rv pe"
    and "unused_key r (committed (db_of sv w))"
    and "payload_size (r_payload r) \<le> max_payload_bytes (c_settings c)"
    and "ExecutorType_of (r_executor_type r) = Inr ex" and "0 \<le> r_priority r"
    and "r_scheduled_at r = None"
  shows "wp (session c (submit (container_services c) r))
    (\<lambda>t w'. queued_as r t \<and> submitted r (task_id t) (db_of sv w) (db_of sv w') \<and>
       queue_of rv w' = push_ready (priority_levels (c_settings c)) (task_id t) (r_priority r) (queue_of rv w))
    (\<lambda>e w'. durable (db_of sv) w w' \<or>
       pe e \<and> commit_lost c (db_of sv) (db_of sv w') \<and> (\<exists>i. submitted r i (db_of sv w) (db_of sv w'))) w"
proof -
  note services = wired [OF assms(1)]
  have body: "wp (submit (container_services c) r)
      (\<lambda>t w'. queued_as r t \<and>
       adds_submission r (task_id t) (committed (db_of sv w)) (committed_events (db_of sv w))
         (tasks (db_of sv w')) (events (db_of sv w')) \<and>
       queue_of rv w' = push_ready (priority_levels (c_settings c)) (task_id t) (r_priority r) (queue_of rv w))
      (\<lambda>_ _. True) w0"
    if w0: "db_of sv w0 = fresh (db_of sv w)" "queue_of rv w0 = queue_of rv w" for w0
    by (rule wp_mono [OF services.submit_immediate_wp [OF services _ _ assms(4,5,6)]])
      (use assms(2,3) w0 in \<open>auto simp: fresh_def dest: unused_keyD\<close>)
  show ?thesis
  proof (rule container.session_commit_wp [OF assms(1) framed_submission [OF assms(1)] body], goal_cases)
    case (3 t w1 w')
    then show ?case by (simp add: saved_def submitted_def)
  next
    case (5 e t w1 w')
    then have "submitted r (task_id t) (db_of sv w) (db_of sv w')" by (simp add: saved_def submitted_def)
    with 5(1,4) show ?case by blast
  qed simp_all
qed

text \<open>
  C1. A request for an immediate task, handled in a session of its own: when it returns, the
  committed table has exactly one more row, for the returned task, QUEUED with every field of the
  request (the executor, the backoff policy and the key included) and no attempt made; exactly
  the two events of this task were recorded; and the identifier stands at the tail of the ready
  list of its (clamped) priority. When it raises, the committed tasks and events are as before,
  unless a driver lost the answer to the commit or to the closing of the session after it.
\<close>

theorem submission_is_atomic:
  assumes "container c sv rv pe"
    and "unused_key r (committed (db_of sv w))"
    and "payload_size (r_payload r) \<le> max_payload_bytes (c_settings c)"
    and "ExecutorType_of (r_executor_type r) = Inr ex" and "0 \<le> r_priority r"
    and "r_scheduled_at r = None"
  shows "wp (session c (submit (container_services c) r))
    (\<lambda>t w'. queued_as r t \<and> submitted r (task_id t) (db_of sv w) (db_of sv w') \<and>
       queue_of rv w' = push_ready (priority_levels (c_settings c)) (task_id t) (r_priority r) (queue_of rv w))
    (\<lambda>e w'. durable (db_of sv) w w' \<or>
       pe e \<and> commit_lost c (db_of sv) (db_of sv w') \<and> (\<exists>i. submitted r i (db_of sv w) (db_of sv w'))) w"
  by (rule session_submit_wp [OF assms])

text \<open>The container of the reference world never loses a commit: its sessions end as they should.\<close>

lemma ref_commit_kept: "\<not> commit_lost ref_container ref_dbv d"
  by (auto simp: commit_lost_def ref_container_def ref_sql_def)

lemma ref_world_events [simp]:
  "events (ref_dbv (ref_world ts d)) = []" "committed_events (ref_dbv (ref_world ts d)) = []"
  by (simp_all add: dview_def ref_sv_def ref_world_def Let_def)

theorem submission_is_atomic_witness:
  "wp (session ref_container (submit (container_services ref_container) ref_request))
    (\<lambda>t w'. queued_as ref_request t \<and>
       (\<exists>row e1 e2. committed (ref_dbv w') = [task_id t \<mapsto> row] \<and> queued_as ref_request row \<and>
         committed_events (ref_dbv w') = [e1, e2] \<and> event_type e2 = ''task.enqueued'' \<and> ev_task_id e2 = task_id t) \<and>
       ref_qv w' = push_ready 4 (task_id t) 2 (ref_qv (ref_world [] empty_redis)))
    (\<lambda>e w'. committed (ref_dbv w') = Map.empty \<and> committed_events (ref_dbv w') = [])
    (ref_world [] empty_redis)"
proof -
  have r: "r_executor_type ref_request = ''python''" "r_priority ref_request = 2"
    "r_scheduled_at ref_request = None" "r_payload ref_request = [(''n'', PInt 1)]"
    by (simp_all add: ref_request_def)
  have size: "payload_size [(''n'', PInt 1)] \<le> 1048576" by code_simp
  have ex: "ExecutorType_of ''python'' = Inr PYTHON" by code_simp
  have "wp (session ref_container (submit (container_services ref_container) ref_request))
    (\<lambda>t w'. queued_as ref_request t \<and>
       submitted ref_request (task_id t) (ref_dbv (ref_world [] empty_redis)) (ref_dbv w') \<and>
       ref_qv w' = push_ready 4 (task_id t) 2 (ref_qv (ref_world [] empty_redis)))
    (\<lambda>e w'. durable ref_dbv (ref_world [] empty_redis) w') (ref_world [] empty_redis)"
    using submission_is_atomic [OF ref.container_axioms, of ref_request "ref_world [] empty_redis" PYTHON]
    by (simp add: r size ex unused_key_def ref_commit_kept del: ref_world_queues)
  then show ?thesis
    by (rule wp_mono) (auto simp: submitted_def adds_submission_def durable_def del: split_paired_Ex)
qed

text \<open>A submission under a key that a committed task has.\<close>

lemma committed_task:
  assumes "container c sv rv pe" and "tasks (db_of sv w) i = Some t"
  shows "task_id t = i"
proof -
  have "task_store (svc_repo (container_services c)) (svc_evs (container_services c)) (db_of sv) (queue_of rv) pe"
    using wired [OF assms(1)] by (simp add: services_def task_ports_def)
  from task_store.stored_task [OF this assms(2)] show ?thesis by simp
qed

lemma session_known_key_wp:
  assumes "container c sv rv pe"
    and "r_idempotency_key r = Some k" and "k \<noteq> []"
    and "committed (db_of sv w) i = Some t" and "idempotency_key t = Some k"
  shows "wp (session c (submit (container_services c) r))
    (\<lambda>t' w'. idempotency_key t' = Some k \<and> committed (db_of sv w) (task_id t') = Some t' \<and>
       durable (db_of sv) w w' \<and> queue_of rv w' = queue_of rv w)
    (\<lambda>e w'. pe e \<and> durable (db_of sv) w w' \<and> queue_of rv w' = queue_of rv w) w"
proof -
  note services = wired [OF assms(1)]
  have body: "wp (submit (container_services c) r)
      (\<lambda>t' w'. idempotency_key t' = Some k \<and> committed (db_of sv w) (task_id t') = Some t' \<and>
        tasks (db_of sv w') = committed (db_of sv w) \<and> events (db_of sv w') = committed_events (db_of sv w) \<and>
        queue_of rv w' = queue_of rv w)
      (\<lambda>e w'. pe e \<and> queue_of rv w' = queue_of rv w) w0"
    if w0: "db_of sv w0 = fresh (db_of sv w)" "queue_of rv w0 = queue_of rv w" for w0
  proof -
    have keyed: "task_id t' = j" if "committed (db_of sv w) j = Some t'" for j t'
      using committed_task [OF assms(1), of w0 j t'] that by (simp add: w0 fresh_def)
    show ?thesis
      by (rule wp_mono [OF services.submit_known_key_wp [OF services assms(2,3) _ assms(5), where i = i]])
        (use assms(4) w0 in \<open>auto simp: fresh_def keeps_def dest: keyed dest!: frame_queue\<close>)
  qed
  show ?thesis
    by (rule wp_mono [OF container.session_wp [OF assms(1) framed_submission [OF assms(1)] body]])
      (auto simp: session_returned_def session_raised_def saved_def durable_def)
qed

text \<open>
  C7. Submitting again under an idempotency key that a committed task has creates nothing: the
  call returns a committed task with that key, and neither the committed tasks nor the committed
  events nor any queue change, whether it returns or raises.
\<close>

theorem repeated_key_changes_nothing:
  assumes "container c sv rv pe"
    and "r_idempotency_key r = Some k" and "k \<noteq> []"
    and "committed (db_of sv w) i = Some t" and "idempotency_key t = Some k"
  shows "wp (session c (submit (container_services c) r))
    (\<lambda>t' w'. idempotency_key t' = Some k \<and> committed (db_of sv w) (task_id t') = Some t' \<and>
       durable (db_of sv) w w' \<and> queue_of rv w' = queue_of rv w)
    (\<lambda>e w'. pe e \<and> durable (db_of sv) w w' \<and> queue_of rv w' = queue_of rv w) w"
  by (rule session_known_key_wp [OF assms])

theorem repeated_key_changes_nothing_witness:
  "wp (session ref_container (submit (container_services ref_container)
      (ref_request\<lparr>r_idempotency_key := Some ''key''\<rparr>)))
    (\<lambda>t' w'. t' = ref_task 7 COMPLETED \<and> committed (ref_dbv w') = [7 \<mapsto> ref_task 7 COMPLETED] \<and>
       committed_events (ref_dbv w') = [] \<and> ref_qv w' = ref_qv (ref_world [ref_task 7 COMPLETED] empty_redis))
    (\<lambda>e w'. driver_error e \<and> committed (ref_dbv w') = [7 \<mapsto> ref_task 7 COMPLETED] \<and>
       committed_events (ref_dbv w') = [] \<and> ref_qv w' = ref_qv (ref_world [ref_task 7 COMPLETED] empty_redis))
    (ref_world [ref_task 7 COMPLETED] empty_redis)"
  by (rule wp_mono [OF repeated_key_changes_nothing [OF ref.container_axioms,
        of "ref_request\<lparr>r_idempotency_key := Some ''key''\<rparr>" "''key''"
          "ref_world [ref_task 7 COMPLETED] empty_redis" 7 "ref_task 7 COMPLETED"]])
    (auto simp: durable_def simp del: ref_world_queues split: if_splits)

text \<open>
  A payload whose text is longer than the limit is refused before anything is written:
  the call never returns, nothing becomes durable and no queue changes, and the exception is
  \<^verbatim>\<open>PayloadTooLargeError\<close> with the limit unless the database failed.
\<close>

lemma session_oversized_wp:
  assumes "container c sv rv pe" and "unused_key r (committed (db_of sv w))"
    and "max_payload_bytes (c_settings c) < payload_size (r_payload r)"
  shows "wp (session c (submit (container_services c) r)) (\<lambda>_ _. False)
    (\<lambda>e w'. (pe e \<or> e = PayloadTooLargeError (max_payload_bytes (c_settings c))) \<and>
       durable (db_of sv) w w' \<and> queue_of rv w' = queue_of rv w) w"
proof -
  note services = wired [OF assms(1)]
  have body: "wp (submit (container_services c) r) (\<lambda>_ _. False)
      (\<lambda>e w'. (pe e \<or> e = PayloadTooLargeError (max_payload_bytes (c_settings c))) \<and>
        queue_of rv w' = queue_of rv w) w0"
    if w0: "db_of sv w0 = fresh (db_of sv w)" "queue_of rv w0 = queue_of rv w" for w0
    by (rule wp_mono [OF services.submit_too_large_wp [OF services]])
      (use assms w0 in \<open>auto simp: fresh_def keeps_def dest: unused_keyD dest!: frame_queue\<close>)
  show ?thesis
    by (rule wp_mono [OF container.session_wp [OF assms(1) framed_submission [OF assms(1)] body]])
      (auto simp: session_returned_def session_raised_def)
qed

text \<open>A submission for now, whatever its key and the size of its payload.\<close>

lemma session_accept_wp:
  assumes "container c sv rv pe" and "ExecutorType_of (r_executor_type r) = Inr ex" and "0 \<le> r_priority r"
    and "r_scheduled_at r = None"
  shows "wp (session c (submit (container_services c) r))
    (\<lambda>t w'. accepted r (priority_levels (c_settings c)) (db_of sv w) (queue_of rv w) t (db_of sv w') (queue_of rv w'))
    (\<lambda>e w'. refused c (db_of sv) r (db_of sv w) (db_of sv w')) w"
proof (cases "unused_key r (committed (db_of sv w))")
  case unused: True
  show ?thesis
  proof (cases "payload_size (r_payload r) \<le> max_payload_bytes (c_settings c)")
    case True
    from session_submit_wp [OF assms(1) unused True assms(2-4)] show ?thesis
      by (rule wp_mono) (auto simp: accepted_def refused_def durable_def unused)
  next
    case False
    have "wp (session c (submit (container_services c) r)) (\<lambda>_ _. False) (\<lambda>_ w'. durable (db_of sv) w w') w"
      by (rule wp_mono [OF session_oversized_wp [OF assms(1) unused]]) (use False in auto)
    then show ?thesis by (rule wp_mono) (auto simp: refused_def durable_def)
  qed
next
  case False
  then obtain k i t where "r_idempotency_key r = Some k" "k \<noteq> []" "committed (db_of sv w) i = Some t"
    "idempotency_key t = Some k" by (auto simp: unused_key_def)
  from session_known_key_wp [OF assms(1) this] show ?thesis
    by (rule wp_mono)
      (use False \<open>r_idempotency_key r = Some k\<close> in \<open>auto simp: accepted_def refused_def durable_def\<close>)
qed

text \<open>
  C19. A task for a later time is never accepted: \<^verbatim>\<open>Task.create\<close> already gives it the status
  SCHEDULED, and \<^verbatim>\<open>_enqueue\<close> asks for the transition to SCHEDULED again, which
  \<^verbatim>\<open>transition_to\<close> refuses. Over a clock that runs forward: when the call returns, the wanted
  time has come. When it raises before that time, the exception is \<^verbatim>\<open>EnqueueFailedError\<close>, or a
  driver's that a port raised, never the plain \<^verbatim>\<open>ValueError\<close> of the transition, and nothing
  of the task is durable.
\<close>

theorem future_submission_never_accepted:
  assumes "timed c sv rv pe clk" and "unused_key r (committed (db_of sv w))"
    and "payload_size (r_payload r) \<le> max_payload_bytes (c_settings c)"
    and "ExecutorType_of (r_executor_type r) = Inr ex" and "0 \<le> r_priority r"
    and "r_scheduled_at r = Some (Aware s)"
  shows "wp (session c (submit (container_services c) r)) (\<lambda>_ w'. s \<le> clk w')
    (\<lambda>e w'. s \<le> clk w' \<or> (pe e \<or> (\<exists>m. e = EnqueueFailedError m)) \<and> durable (db_of sv) w w') w"
proof -
  note cont = timed.axioms(1) [OF assms(1)]
  have body: "wp (submit (container_services c) r) (\<lambda>_ w'. s \<le> clk w')
      (\<lambda>e w'. s \<le> clk w' \<or> pe e \<or> (\<exists>m. e = EnqueueFailedError m)) w0"
    if w0: "db_of sv w0 = fresh (db_of sv w)" for w0
    by (rule timed.submit_later_wp [OF assms(1) _ assms(3-6)])
      (use assms(2) w0 in \<open>auto simp: fresh_def dest: unused_keyD\<close>)
  show ?thesis
    by (rule timed.session_later_wp [OF assms(1) framed_submission [OF cont] _ body]) simp_all
qed

theorem future_submission_never_accepted_witness:
  "wp (session ref_container (submit (container_services ref_container)
      (ref_request\<lparr>r_scheduled_at := Some (Aware 60000000)\<rparr>)))
    (\<lambda>_ w'. 60000000 \<le> clock w')
    (\<lambda>e w'. 60000000 \<le> clock w' \<or> (driver_error e \<or> (\<exists>m. e = EnqueueFailedError m)) \<and> committed (ref_dbv w') = Map.empty)
    (ref_world [] empty_redis)"
proof -
  let ?r = "ref_request\<lparr>r_scheduled_at := Some (Aware 60000000)\<rparr>"
  have "payload_size (r_payload ?r) \<le> 1048576"
    "ExecutorType_of (r_executor_type ?r) = Inr PYTHON"
    "0 \<le> r_priority ?r" "r_scheduled_at ?r = Some (Aware 60000000)" by code_simp+
  then show ?thesis
    by (intro wp_mono [OF future_submission_never_accepted [OF ref_timed.timed_axioms, of ?r _ PYTHON 60000000]])
      (auto simp: unused_key_def durable_def)
qed

section \<open>Retrying and cancelling\<close>

text \<open>A stored task that is saved again keeps its key and creation time, so the row is the task.\<close>

lemma put_again:
  assumes "container c sv rv pe" and "tasks (db_of sv w) i = Some t"
    and "db_of sv w' = put_event e (put_task k t' (db_of sv w))" and "task_id t' = task_id t"
    and "idempotency_key t' = idempotency_key t" and "created_at t' = created_at t" and "updated_at t' = Some n"
  shows "tasks (db_of sv w') = (tasks (db_of sv w))(i \<mapsto> t')"
    and "events (db_of sv w') = events (db_of sv w) @ [e]"
proof -
  have "stored k (Some t) t' = t'" using assms(5-7) by (simp add: stored_def)
  then show "tasks (db_of sv w') = (tasks (db_of sv w))(i \<mapsto> t')"
    using assms(2,4) committed_task [OF assms(1,2)] by (simp add: assms(3) put_event_def)
qed (simp add: assms(3) put_event_def)

text \<open>
  C24. The administrator's retry of a FAILED or DEAD\_LETTER task: the row of this task, and no
  other, is the same task made QUEUED with the attempts, error, worker and times of the earlier
  runs cleared; one event is added that records the status it came from; and the identifier
  enters the ready list of its priority, the dead letter list still holding it.
\<close>

theorem retry_requeues_dead_task:
  assumes "container c sv rv pe"
    and "tasks (db_of sv w) i = Some t" and "task_status t = DEAD_LETTER \<or> task_status t = FAILED"
  shows "wp (retry_task (container_services c) i)
    (\<lambda>t' w'. (\<exists>n. t' = t\<lparr>task_error := None, attempts := 0, worker_id := None, started_at := None,
         finished_at := None, task_status := QUEUED, updated_at := Some n\<rparr>) \<and>
       tasks (db_of sv w') = (tasks (db_of sv w))(i \<mapsto> t') \<and>
       (\<exists>e. events (db_of sv w') = events (db_of sv w) @ [e] \<and> event_type e = ''task.retried'' \<and> ev_task_id e = i \<and>
          from_status e = Some (task_status t) \<and> to_status e = Some QUEUED) \<and>
       queue_of rv w' = push_ready (priority_levels (c_settings c)) i (priority t) (queue_of rv w) \<and>
       dlq (queue_of rv w') = dlq (queue_of rv w))
    (\<lambda>e _. pe e) w"
proof -
  have "retriable (task_status t)" using assms(3) by (auto simp: retriable_def)
  from services.retry_task_wp [OF wired [OF assms(1)] assms(2) this] show ?thesis
  proof (rule wp_mono, goal_cases)
    case (1 t' w')
    then obtain n k e where t': "t' = t\<lparr>task_error := None, attempts := 0, worker_id := None, started_at := None,
        finished_at := None, task_status := QUEUED, updated_at := Some n\<rparr>"
      and d: "db_of sv w' = put_event e (put_task k t' (db_of sv w))"
      and rest: "event_type e = ''task.retried''" "ev_task_id e = i" "from_status e = Some (task_status t)"
        "to_status e = Some QUEUED"
        "queue_of rv w' = push_ready (priority_levels (c_settings c)) i (priority t) (queue_of rv w)" by auto
    have put: "tasks (db_of sv w') = (tasks (db_of sv w))(i \<mapsto> t')" "events (db_of sv w') = events (db_of sv w) @ [e]"
      by (rule put_again [OF assms(1,2) d]; simp add: t')+
    have "dlq (queue_of rv w') = dlq (queue_of rv w)" by (simp add: rest(5) push_ready_def Let_def)
    with put t' rest show ?case by blast
  qed simp
qed

theorem retry_requeues_dead_task_witness:
  "wp (retry_task (container_services ref_container) 7)
    (\<lambda>t' w'. tasks (ref_dbv w') = [7 \<mapsto> t'] \<and> task_status t' = QUEUED \<and> attempts t' = 0 \<and> payload t' = payload (ref_task 7 DEAD_LETTER) \<and>
       (\<exists>e. events (ref_dbv w') = [e] \<and> event_type e = ''task.retried'' \<and> from_status e = Some DEAD_LETTER) \<and>
       ref_qv w' = push_ready 4 7 2 (ref_qv (ref_world [ref_task 7 DEAD_LETTER] empty_redis)))
    (\<lambda>e _. driver_error e) (ref_world [ref_task 7 DEAD_LETTER] empty_redis)"
  by (rule wp_mono [OF retry_requeues_dead_task [OF ref.container_axioms,
      of "ref_world [ref_task 7 DEAD_LETTER] empty_redis" 7 "ref_task 7 DEAD_LETTER"]])
    (auto simp del: ref_world_queues)

text \<open>
  C20. Cancelling a task that has not finished: the row of this task, and no other, is the same
  task made CANCELLED with the finishing time set; one event is added; the identifier is marked in
  the set that the workers consult, and a SCHEDULED task leaves the schedule. The ready lists keep
  the identifier: a worker that takes it finds the status.
\<close>

theorem cancel_marks_and_stores:
  assumes "container c sv rv pe"
    and "tasks (db_of sv w) i = Some t" and "task_status t \<in> {PENDING, SCHEDULED, QUEUED, RUNNING}"
  shows "wp (cancel (container_services c) i)
    (\<lambda>t' w'. (\<exists>n f. t' = t\<lparr>task_status := CANCELLED, updated_at := Some n, finished_at := Some f\<rparr>) \<and>
       tasks (db_of sv w') = (tasks (db_of sv w))(i \<mapsto> t') \<and>
       (\<exists>e. events (db_of sv w') = events (db_of sv w) @ [e] \<and> event_type e = ''task.cancelled'' \<and> ev_task_id e = i \<and>
          from_status e = Some (task_status t) \<and> to_status e = Some CANCELLED) \<and>
       i \<in> cancelled (queue_of rv w') \<and> ready (queue_of rv w') = ready (queue_of rv w) \<and>
       (task_status t = SCHEDULED \<longrightarrow> scheduled (queue_of rv w') i = None))
    (\<lambda>e _. pe e) w"
proof (rule wp_mono [OF services.cancel_wp [OF wired [OF assms(1)] assms(2,3)]], goal_cases)
  case (1 t' w')
  then obtain n f k e where t': "t' = t\<lparr>task_status := CANCELLED, updated_at := Some n, finished_at := Some f\<rparr>"
    and d: "db_of sv w' = put_event e (put_task k t' (db_of sv w))"
    and rest: "event_type e = ''task.cancelled''" "ev_task_id e = i" "from_status e = Some (task_status t)"
      "to_status e = Some CANCELLED" "queue_of rv w' = cancel_queues i (task_status t) (queue_of rv w)" by blast
  have put: "tasks (db_of sv w') = (tasks (db_of sv w))(i \<mapsto> t')" "events (db_of sv w') = events (db_of sv w) @ [e]"
    by (rule put_again [OF assms(1,2) d]; simp add: t')+
  have "\<exists>n f. t' = t\<lparr>task_status := CANCELLED, updated_at := Some n, finished_at := Some f\<rparr>" using t' by blast
  moreover have "i \<in> cancelled (queue_of rv w')" "ready (queue_of rv w') = ready (queue_of rv w)"
    "task_status t = SCHEDULED \<longrightarrow> scheduled (queue_of rv w') i = None"
    by (simp_all add: rest(5) cancel_queues_def Let_def unschedule_def)
  ultimately show ?case using put rest(1-4) by blast
qed simp

theorem cancel_marks_and_stores_witness:
  "wp (cancel (container_services ref_container) 7)
    (\<lambda>t' w'. tasks (ref_dbv w') = [7 \<mapsto> t'] \<and> task_status t' = CANCELLED \<and> finished_at t' \<noteq> None \<and>
       (\<exists>e. events (ref_dbv w') = [e] \<and> event_type e = ''task.cancelled'' \<and> from_status e = Some SCHEDULED) \<and>
       7 \<in> cancelled (ref_qv w') \<and> ready (ref_qv w') = (\<lambda>_. []) \<and> scheduled (ref_qv w') 7 = None)
    (\<lambda>e _. driver_error e) (ref_world [ref_task 7 SCHEDULED] empty_redis)"
  by (rule wp_mono [OF cancel_marks_and_stores [OF ref.container_axioms,
      of "ref_world [ref_task 7 SCHEDULED] empty_redis" 7 "ref_task 7 SCHEDULED"]])
    auto

text \<open>
  A finished, cancelled or dead task is not cancelled and an unknown identifier neither:
  \<^verbatim>\<open>InvalidTaskStateError\<close> in the one case, \<^verbatim>\<open>TaskNotFoundError\<close> in the other, unless
  the database failed, and no row and no queue changes.
\<close>

theorem cancel_refused:
  assumes "container c sv rv pe"
    and "\<And>t. tasks (db_of sv w) i = Some t \<Longrightarrow> task_status t \<in> {COMPLETED, CANCELLED, DEAD_LETTER}"
  shows "wp (cancel (container_services c) i) (\<lambda>_ _. False)
    (\<lambda>e w'. pe e \<or> db_of sv w' = db_of sv w \<and> queue_of rv w' = queue_of rv w \<and>
       (case tasks (db_of sv w) i of
          None \<Rightarrow> e = TaskNotFoundError (TaskId_str i)
        | Some t \<Rightarrow> (\<exists>m. e = InvalidTaskStateError m))) w"
proof (cases "tasks (db_of sv w) i")
  case None
  from services.cancel_missing_wp [OF wired [OF assms(1)] None] show ?thesis
    by (rule wp_mono) (auto simp: keeps_def None)
next
  case (Some t)
  from services.cancel_rejects_wp [OF wired [OF assms(1)] Some assms(2) [OF Some]] show ?thesis
    by (rule wp_mono) (auto simp: keeps_def Some)
qed

theorem cancel_refused_witness:
  "wp (cancel (container_services ref_container) 7) (\<lambda>_ _. False)
    (\<lambda>e w'. driver_error e \<or> ref_dbv w' = ref_dbv (ref_world [ref_task 7 COMPLETED] empty_redis) \<and>
       ref_qv w' = ref_qv (ref_world [ref_task 7 COMPLETED] empty_redis) \<and> (\<exists>m. e = InvalidTaskStateError m))
    (ref_world [ref_task 7 COMPLETED] empty_redis)"
  using cancel_refused [OF ref.container_axioms, of "ref_world [ref_task 7 COMPLETED] empty_redis" 7]
  by (simp del: ref_world_queues)

text \<open>
  Only dead and failed tasks are retried: any other status is refused with
  \<^verbatim>\<open>InvalidTaskStateError\<close> and an unknown identifier with \<^verbatim>\<open>TaskNotFoundError\<close>, unless
  the database failed; no row and no queue changes.
\<close>

theorem retry_refused:
  assumes "container c sv rv pe"
    and "\<And>t. tasks (db_of sv w) i = Some t \<Longrightarrow> task_status t \<notin> {FAILED, DEAD_LETTER}"
  shows "wp (retry_task (container_services c) i) (\<lambda>_ _. False)
    (\<lambda>e w'. pe e \<or> db_of sv w' = db_of sv w \<and> queue_of rv w' = queue_of rv w \<and>
       (case tasks (db_of sv w) i of
          None \<Rightarrow> e = TaskNotFoundError (TaskId_str i)
        | Some t \<Rightarrow> (\<exists>m. e = InvalidTaskStateError m))) w"
proof -
  have "\<not> retriable (task_status t)" if "tasks (db_of sv w) i = Some t" for t
    using assms(2) [OF that] by (auto simp: retriable_def)
  from services.retry_task_rejects_wp [OF wired [OF assms(1)] this] show ?thesis
    by (rule wp_mono) (auto simp: keeps_def)
qed

theorem retry_refused_witness:
  "wp (retry_task (container_services ref_container) 7) (\<lambda>_ _. False)
    (\<lambda>e w'. driver_error e \<or> ref_dbv w' = ref_dbv (ref_world [ref_task 7 QUEUED] empty_redis) \<and>
       ref_qv w' = ref_qv (ref_world [ref_task 7 QUEUED] empty_redis) \<and> (\<exists>m. e = InvalidTaskStateError m))
    (ref_world [ref_task 7 QUEUED] empty_redis)"
  using retry_refused [OF ref.container_axioms, of "ref_world [ref_task 7 QUEUED] empty_redis" 7]
  by (simp del: ref_world_queues)

text \<open>
  C33. Cancelling a FAILED or an ENQUEUE\_FAILED task never succeeds: the guard lets it pass,
  the identifier is marked as cancelled in Redis, and then \<^verbatim>\<open>transition_to\<close> raises the
  \<^verbatim>\<open>ValueError\<close> that the API answers with an internal error. Where no driver raises a
  \<^verbatim>\<open>ValueError\<close>, whoever gets one finds the mark set and all else as it was; any other
  exception is a driver's.
\<close>

theorem cancel_failed_leaves_mark:
  assumes "container c sv rv pe" and "\<And>m. \<not> pe (ValueError m)"
    and "tasks (db_of sv w) i = Some t" and "task_status t \<in> {FAILED, ENQUEUE_FAILED}"
  shows "wp (cancel (container_services c) i) (\<lambda>_ _. False)
    (\<lambda>e w'. if \<exists>m. e = ValueError m
       then db_of sv w' = db_of sv w \<and>
         queue_of rv w' = (queue_of rv w)\<lparr>cancelled := insert i (cancelled (queue_of rv w))\<rparr>
       else pe e) w"
  by (rule wp_mono [OF services.cancel_failed_wp [OF wired [OF assms(1)] assms(3,4)]]) (use assms(2) in auto)

theorem cancel_failed_leaves_mark_witness:
  "wp (cancel (container_services ref_container) 7) (\<lambda>_ _. False)
    (\<lambda>e w'. if \<exists>m. e = ValueError m
       then ref_dbv w' = ref_dbv (ref_world [ref_task 7 FAILED] empty_redis) \<and> cancelled (ref_qv w') = {7}
       else driver_error e)
    (ref_world [ref_task 7 FAILED] empty_redis)"
  by (rule wp_mono [OF cancel_failed_leaves_mark [OF ref.container_axioms,
      of "ref_world [ref_task 7 FAILED] empty_redis" 7 "ref_task 7 FAILED"]])
    auto

section \<open>The scheduler\<close>

text \<open>
  C15. One pass over the schedule claims a set of due identifiers that meets the claim's
  contract (distinct, due, at most the batch size, none later than one left behind), removes
  them all from the schedule, makes exactly those whose row is SCHEDULED QUEUED, and pushes
  these, in order, to the ready lists of their priorities; the result counts them. Every other
  row is untouched, and a claimed identifier of any other status is dropped.
\<close>

theorem due_tasks_released:
  assumes "container c sv rv pe"
  shows "wp (process_due_tasks (container_services c))
    (\<lambda>r w'. \<exists>claimed n. claimable (scheduler_batch_size (c_settings c)) n (queue_of rv w) claimed \<and>
       released (tasks (db_of sv w)) claimed (tasks (db_of sv w')) \<and>
       queue_of rv w' = push_released (priority_levels (c_settings c)) (tasks (db_of sv w)) claimed
         (unschedule (set claimed) (queue_of rv w)) \<and>
       r = int (length (filter (releasable (tasks (db_of sv w))) claimed)))
    (\<lambda>e _. pe e) w"
  using services.process_due_tasks_wp [OF wired [OF assms(1)]] by simp

theorem due_tasks_released_witness:
  "wp (process_due_tasks (container_services ref_container))
    (\<lambda>r w'. \<exists>claimed n. claimable 100 n (ref_qv (ref_world [ref_task 7 SCHEDULED] empty_redis)) claimed \<and>
       released [7 \<mapsto> ref_task 7 SCHEDULED] claimed (tasks (ref_dbv w')) \<and>
       ref_qv w' = push_released 4 [7 \<mapsto> ref_task 7 SCHEDULED] claimed
         (unschedule (set claimed) (ref_qv (ref_world [ref_task 7 SCHEDULED] empty_redis))) \<and>
       r = int (length (filter (releasable [7 \<mapsto> ref_task 7 SCHEDULED]) claimed)))
    (\<lambda>e _. driver_error e) (ref_world [ref_task 7 SCHEDULED] empty_redis)"
  using due_tasks_released [OF ref.container_axioms, of "ref_world [ref_task 7 SCHEDULED] empty_redis"]
  by (simp del: ref_world_queues)

section \<open>Failures\<close>

text \<open>
  C5. A failed execution with an attempt left is put back: the row is QUEUED with the attempt
  counted and the error kept, the identifier is due in the schedule at the backoff's delay
  from a clock reading, and no ready list and no dead letter changes. Without one it is dead:
  the row is DEAD\_LETTER, the identifier heads the dead letter list and nothing is scheduled.
  With a limit of \<open>n\<close> a task runs \<open>n\<close> times at most, \<open>n\<close> counting the first run.
\<close>

theorem failure_retries_or_buries:
  assumes "container c sv rv pe" and "0 \<le> priority t" and "task_status t = RUNNING"
    and "t1 = t\<lparr>attempts := attempts t + 1, task_error := Some error\<rparr>"
  shows "wp (handle_execution_failure (container_services c) t error)
    (\<lambda>t' w'. if attempts t + 1 < max_retries t
       then retry_post (db_of sv) (queue_of rv) t1 RUNNING ''task.retry_scheduled'' w t' w' \<and>
         ready (queue_of rv w') = ready (queue_of rv w) \<and> dlq (queue_of rv w') = dlq (queue_of rv w)
       else dead_letter_post (db_of sv) (queue_of rv) t1 RUNNING error ''task.dead_letter'' w t' w' \<and>
         scheduled (queue_of rv w') = scheduled (queue_of rv w))
    (\<lambda>e _. pe e \<or> attempts t + 1 < max_retries t \<and> retry_overflow t1 e) w"
  by (rule wp_mono [OF services.handle_execution_failure_wp [OF wired [OF assms(1)] assms(2-4)]])
    (auto simp: assms(4) can_retry_def retry_post_def dead_letter_post_def split: if_splits)

theorem failure_retries_or_buries_witness:
  "wp (handle_execution_failure (container_services ref_container) (ref_task 7 RUNNING) ''failed'')
    (\<lambda>t' w'. retry_post ref_dbv ref_qv
         ((ref_task 7 RUNNING)\<lparr>attempts := 1, task_error := Some ''failed''\<rparr>) RUNNING
         ''task.retry_scheduled'' (ref_world [ref_task 7 RUNNING] empty_redis) t' w' \<and>
       ready (ref_qv w') = (\<lambda>_. []) \<and> dlq (ref_qv w') = [])
    (\<lambda>e _. driver_error e \<or>
       retry_overflow ((ref_task 7 RUNNING)\<lparr>attempts := 1, task_error := Some ''failed''\<rparr>) e)
    (ref_world [ref_task 7 RUNNING] empty_redis)"
  using failure_retries_or_buries [OF ref.container_axioms, of "ref_task 7 RUNNING"
      "(ref_task 7 RUNNING)\<lparr>attempts := 1, task_error := Some ''failed''\<rparr>" "''failed''"
      "ref_world [ref_task 7 RUNNING] empty_redis"]
  by simp

end
