(* ===== verification/System_Theorems.thy ===== *)
theory System_Theorems
  imports Queue_Theorems
begin

text \<open>
  What the workers do with a task, the bounds of the pool, the leader's lock, and what holds of
  the committed tables in every run of all the processes.
\<close>

section \<open>Executing a task\<close>

text \<open>
  C4. The execution of a QUEUED task that is not marked for cancellation, when it returns,
  has stored the RUNNING task with worker and start time and the event of the start, then run
  the task code once, and stored one of three ends: COMPLETED with the result and no error, a
  retry, or the dead letter. It raises only if a port failed, the task code raised what is no
  \<^verbatim>\<open>Exception\<close>, a retry's due time overflowed, or a port failed after completion.
\<close>

theorem execution_runs_to_an_end:
  assumes "deployment c te sv rv pe" and "task_status t = QUEUED" and "0 \<le> priority t"
    and "task_id t \<notin> cancelled (queue_of rv w)"
  shows "wp (execute_task (container_services c) te t wid)
    (\<lambda>_. executed (db_of sv) (queue_of rv) t wid w) (\<lambda>e _. execution_stopped pe e) w"
  by (rule worker.execute_task_wp [OF deployment.worker_wired [OF assms(1)] assms(2-4)])

theorem execution_runs_to_an_end_witness:
  "wp (execute_task (container_services ref_container) ref_executors (ref_task 7 QUEUED) ''w1'')
    (\<lambda>_. executed ref_dbv ref_qv (ref_task 7 QUEUED) ''w1'' (ref_world [ref_task 7 QUEUED] empty_redis))
    (\<lambda>e _. execution_stopped driver_error e) (ref_world [ref_task 7 QUEUED] empty_redis)"
  using execution_runs_to_an_end [OF ref_deployment.deployment_axioms, of "ref_task 7 QUEUED"
      "ref_world [ref_task 7 QUEUED] empty_redis" "''w1''"]
  by simp

text \<open>
  C21. The sample handlers end as they are written. An execution that returns leaves the row of a
  task named after one of them COMPLETED with the sum, or with the message, that its payload asks
  for, and \<^verbatim>\<open>fail_always\<close> never completed but waiting for a retry or dead with the handler's
  message. A task \<^verbatim>\<open>echo\<close> with the payload of the benchmark, whose key is no parameter of the
  handler, never completes either. The one other end is that of a task whose
  \<^verbatim>\<open>asyncio.wait_for\<close> can run out of time: it waits for a retry or is dead with the text of
  \<^verbatim>\<open>TimeoutError\<close>.
\<close>

theorem example_tasks_end:
  assumes "deployment c te sv rv pe" and "te_registry te = example_tasks suggest float_add reg" and "waits te"
    and "executor_type t = PYTHON" and "task_status t = QUEUED" and "0 \<le> priority t"
    and "task_id t \<notin> cancelled (queue_of rv w)"
    and "(task_name t, payload t, outcome) \<in>
      {(''add'', [(''a'', PInt a), (''b'', PInt b)], Inr [(''sum'', PInt (a + b))]),
       (''echo'', [(''message'', m)], Inr [(''message'', m)]),
       (''fail_always'', [], Inl (RuntimeError ''Intentional failure for DLQ testing'')),
       (''echo'', [(''i'', m)], Inl (TypeError (''echo() got an unexpected keyword argument '' @
          quoted ''i'' @ suggest ''i'' [''message''])))}"
  shows "wp (execute_task (container_services c) te t wid)
    (\<lambda>_ w'. ends_with (\<lambda>r. outcome = Inr r)
       (\<lambda>e. outcome = Inl e \<or> e = TimeoutError \<and> times_out te (timeout_seconds t)) (tasks (db_of sv w') (task_id t)))
    (\<lambda>_ _. True) w"
proof -
  have name: "task_name t \<in> {''echo'', ''add'', ''fail_always''}" using assms(8) by auto
  note run = worker.execute_example_wp [OF deployment.worker_wired [OF assms(1)] assms(2-4) name assms(5-7), of wid]
  show ?thesis by (rule wp_mono [OF run]) (use assms(8) in \<open>auto simp: example_calls ends_with_def\<close>)
qed

theorem example_tasks_end_witness:
  "wp (execute_task (container_services ref_container) ref_executors
      ((ref_task 7 QUEUED)\<lparr>task_name := ''add'', payload := [(''a'', PInt 2), (''b'', PInt 3)]\<rparr>) ''w1'')
    (\<lambda>_ w'. \<exists>t. tasks (ref_dbv w') 7 = Some t \<and> task_status t = COMPLETED \<and> task_result t = Some [(''sum'', PInt 5)])
    (\<lambda>_ _. True) (ref_world [] empty_redis)"
proof -
  let ?t = "(ref_task 7 QUEUED)\<lparr>task_name := ''add'', payload := [(''a'', PInt 2), (''b'', PInt 3)]\<rparr>"
  have wait: "waits ref_executors" by (simp add: waits_def ref_executors_def split: prod.split sum.split)
  have never: "\<not> times_out ref_executors s" for s by (auto simp: times_out_def ref_executors_def)
  have "wp (execute_task (container_services ref_container) ref_executors ?t ''w1'')
    (\<lambda>_ w'. ends_with (\<lambda>r. (Inr [(''sum'', PInt 5)] :: exn + pydict) = Inr r)
       (\<lambda>e. (Inr [(''sum'', PInt 5)] :: exn + pydict) = Inl e \<or> e = TimeoutError \<and> times_out ref_executors (timeout_seconds ?t))
       (tasks (ref_dbv w') (task_id ?t)))
    (\<lambda>_ _. True) (ref_world [] empty_redis)"
    by (rule example_tasks_end [OF ref_deployment.deployment_axioms _ wait, of "\<lambda>_ _. []"
      "\<lambda>_ _. Inl (OverflowError ''int too large to convert to float'')" "[]" ?t "ref_world [] empty_redis"
      "Inr [(''sum'', PInt 5)]" 2 3 PNone])
      (simp_all add: ref_executors_def)
  then show ?thesis by (rule wp_mono) (auto simp: ends_with_def never)
qed

text \<open>
  C22. A QUEUED task whose identifier is marked as cancelled is not run: its row becomes
  CANCELLED with a finishing time and the mark is taken away again.
\<close>

theorem cancelled_task_not_run:
  assumes "container c sv rv pe" and "task_status t = QUEUED" and "0 \<le> priority t"
    and "task_id t \<in> cancelled (queue_of rv w)"
  shows "wp (execute_task (container_services c) te t wid)
    (\<lambda>_ w'. \<exists>n f k e. db_of sv w' = put_event e (put_task k
         (t\<lparr>task_status := CANCELLED, updated_at := Some n, finished_at := Some f\<rparr>) (db_of sv w)) \<and>
       event_type e = ''task.cancelled'' \<and>
       queue_of rv w' = (queue_of rv w)\<lparr>cancelled := cancelled (queue_of rv w) - {task_id t}\<rparr>)
    (\<lambda>e _. pe e) w"
  (is "wp _ ?Q ?E w")
proof -
  note services = wired [OF assms(1)]
  have c: "CANCELLED \<in> set (allowed (task_status t))" using assms(2) by simp
  have run: "wp (execute_cancelled (container_services c) t) ?Q ?E w1"
    if "db_of sv w1 = db_of sv w" "queue_of rv w1 = queue_of rv w" for w1
    using services.execute_cancelled_wp [OF services assms(3) c, of w1] by (simp only: that)
  show ?thesis
    unfolding execute_task_def wp_andThen
    by (rule services.is_cancelled_rule [OF services]) (simp_all add: assms(4) run del: split_paired_Ex)
qed

theorem cancelled_task_not_run_witness:
  "wp (execute_task (container_services ref_container) ref_executors (ref_task 7 QUEUED) ''w1'')
    (\<lambda>_ w'. \<exists>n f k e. ref_dbv w' = put_event e (put_task k
         ((ref_task 7 QUEUED)\<lparr>task_status := CANCELLED, updated_at := Some n, finished_at := Some f\<rparr>)
         (ref_dbv (ref_world [ref_task 7 QUEUED] (empty_redis\<lparr>rsets := (\<lambda>_. {TaskId_str 7})\<rparr>)))) \<and>
       event_type e = ''task.cancelled'' \<and>
       ref_qv w' = (ref_qv (ref_world [ref_task 7 QUEUED] (empty_redis\<lparr>rsets := (\<lambda>_. {TaskId_str 7})\<rparr>)))
         \<lparr>cancelled := {}\<rparr>)
    (\<lambda>e _. driver_error e) (ref_world [ref_task 7 QUEUED] (empty_redis\<lparr>rsets := (\<lambda>_. {TaskId_str 7})\<rparr>))"
proof -
  let ?w = "ref_world [ref_task 7 QUEUED] (empty_redis\<lparr>rsets := (\<lambda>_. {TaskId_str 7})\<rparr>)"
  have "sane (empty_redis\<lparr>rsets := (\<lambda>_. {TaskId_str 7})\<rparr>)" by (simp add: sane_def empty_redis_def)
  then have c: "cancelled (ref_qv ?w) = {7}" by (simp add: qview_def ref_rv_def ref_world_def Let_def)
  show ?thesis
    using cancelled_task_not_run [OF ref.container_axioms, of "ref_task 7 QUEUED" ?w ref_executors "''w1''"]
    by (simp add: c)
qed

section \<open>The pool\<close>

text \<open>
  However the session and the task code end, processing a task gives the semaphore's slot
  back exactly once, and lets no \<^verbatim>\<open>Exception\<close> out.
\<close>

theorem slot_given_back_once:
  "wp (process_task c te wid i) (\<lambda>_ (w', s'). s' = s + 1)
     (\<lambda>e (w', s'). s' = s + 1 \<and> \<not> is_Exception e) (w, s)"
  by (rule process_task_slot)

text \<open>
  C28. In every state the pool can reach, the semaphore counts the free slots exactly and
  never goes below zero: no more than \<^verbatim>\<open>concurrency\<close> tasks run at once, and no more
  than twice as many have been taken off the queue and not finished.
\<close>

theorem pool_stays_within_concurrency:
  assumes "pool_reachable n p"
  shows "semaphore p = int n - int (length (active p)) \<and> length (active p) \<le> n \<and>
    length (active p) + length (waiting p) \<le> 2 * n"
  using pool_invariant [OF assms] by auto

theorem pool_stays_within_concurrency_witness:
  "\<exists>p. pool_reachable 1 p \<and> length (active p) = 1 \<and> length (waiting p) = 1 \<and>
     length (active p) + length (waiting p) \<le> 2 * 1"
proof -
  let ?p1 = "(WorkerPool 1)\<lparr>idle := 0, waiting := [3]\<rparr>"
  let ?p2 = "?p1\<lparr>semaphore := 0, waiting := [], active := [3], idle := 1\<rparr>"
  let ?p3 = "?p2\<lparr>idle := 0, waiting := [4]\<rparr>"
  have "pool_step (WorkerPool 1) ?p1"
    using pool_step.dequeued [of "WorkerPool 1" 3] by (simp add: WorkerPool_def)
  moreover have "pool_step ?p1 ?p2"
    using pool_step.acquired [of ?p1 3 "[]"] by (simp add: WorkerPool_def)
  moreover have "pool_step ?p2 ?p3"
    using pool_step.dequeued [of ?p2 4] by simp
  ultimately have "pool_reachable 1 ?p3"
    by (blast intro: pool_reachable.intros)
  with pool_stays_within_concurrency [OF this] show ?thesis by (intro exI [of _ ?p3]) simp
qed

section \<open>All processes together\<close>

text \<open>A run of one request that is served, in which every \<^verbatim>\<open>uuid4()\<close> draws the identifier 1.\<close>

definition ones :: "World \<Rightarrow> uuid" where
  "ones = (\<lambda>_. 1)"

lemma seven_not_drawn [simp]: "7 \<notin> range ones"
  by (simp add: ones_def)

definition after :: "request \<Rightarrow> World \<Rightarrow> World" where
  "after q w = snd (act (drawing ones ref_container) q w)"

lemma run_request: "sys_run ref_container ref_executors (w, h) [(ones, Request q)] (after q w, h)"
  unfolding sys_run_one after_def by (rule sys_step.serves) (rule surjective_pairing)

text \<open>A Redis where identifier 7 waits in the schedule only, past due.\<close>

definition retry_redis :: redis_data where
  "retry_redis = d_zset SCHEDULED_KEY (TaskId_str 7) (Some 0) empty_redis"

lemma retry_redis_ready [simp]: "ready (ref_qv (ref_world ts retry_redis)) l = []"
proof -
  have "sane retry_redis" unfolding retry_redis_def by (intro sane_schedule sane_empty)
  then show ?thesis by (simp add: ref_rv_def ref_world_def Let_def qview_def retry_redis_def d_zset_def empty_redis_def)
qed

text \<open>
  C3. The sessions commit whole executions: over any run of the API, the scheduler and the
  workers, with workers killed while they hold or process a task, from committed tables of QUEUED,
  COMPLETED, CANCELLED and DEAD\_LETTER tasks, the committed tables hold only such tasks. So no
  other process ever sees a RUNNING, SCHEDULED or ENQUEUE\_FAILED task, and the in-flight
  reconciler and \<^verbatim>\<open>reconcile_enqueue_failed\<close> never find anything to do.
\<close>

theorem committed_statuses:
  assumes "deployment c te sv rv pe" and "settled (committed (db_of sv w))" and "sys_run c te (w, h) as (w', h')"
    and "committed (db_of sv w') i = Some t"
  shows "task_status t \<in> {QUEUED, COMPLETED, CANCELLED, DEAD_LETTER}"
  using deployment.run_settles [OF assms(1,3)] assms(2,4) by (auto simp: settled_def)

theorem committed_statuses_witness:
  "task_status (the (committed (ref_dbv (after Tick (ref_world [ref_task 7 QUEUED] empty_redis))) 7))
     \<in> {QUEUED, COMPLETED, CANCELLED, DEAD_LETTER}"
proof -
  let ?w = "ref_world [ref_task 7 QUEUED] empty_redis"
  note run = run_request [of ?w "[]" Tick]
  have s: "settled (committed (ref_dbv ?w))" by (simp add: settled_def)
  have "ref_deployment.parked 7 (ref_task 7 QUEUED) ?w" using s by (simp add: ref_deployment.parked_def off_ready_def)
  then have "committed (ref_dbv (after Tick ?w)) 7 = Some (ref_task 7 QUEUED)"
    using ref_deployment.run_parked [OF run, of 7 "ref_task 7 QUEUED"] by (simp add: ref_deployment.parked_def)
  from committed_statuses [OF ref_deployment.deployment_axioms s run this] this show ?thesis by simp
qed

text \<open>
  C2. A retry is never run. Let a committed row be QUEUED and its identifier be in no ready list
  and in no worker's hands, which is how a retry leaves them, with the due time in the schedule.
  Then, over any run of all processes that does not cancel the task and in which
  \<^verbatim>\<open>uuid4()\<close> does not draw its identifier again, the row stays as it is, the identifier
  stays off the ready lists, and no worker ever takes it: the scheduler takes the due
  identifier off the schedule and drops it, since the row is not SCHEDULED.
\<close>

theorem retry_never_runs:
  assumes "deployment c te sv rv pe" and "settled (committed (db_of sv w))"
    and "committed (db_of sv w) i = Some t" and "task_status t = QUEUED"
    and "\<forall>l. i \<notin> set (ready (queue_of rv w) l)" and "i \<notin> snd ` set h"
    and "sys_run c te (w, h) as (w', h')" and "\<forall>(draws, a) \<in> set as. a \<noteq> Request (Cancel i) \<and> i \<notin> range draws"
  shows "committed (db_of sv w') i = Some t \<and> (\<forall>l. i \<notin> set (ready (queue_of rv w') l)) \<and> i \<notin> snd ` set h'"
proof -
  have "deployment.parked sv rv i t w"
    using assms(2,3,5) by (simp add: deployment.parked_def [OF assms(1)] off_ready_def)
  then show ?thesis
    using deployment.run_parked [OF assms(1,7) _ assms(4) assms(8)] assms(6)
    by (simp add: deployment.parked_def [OF assms(1)] off_ready_def holders_none [symmetric])
qed

theorem retry_never_runs_witness:
  "committed (ref_dbv (after Tick (ref_world [ref_task 7 QUEUED] retry_redis))) 7 = Some (ref_task 7 QUEUED)"
proof -
  let ?w = "ref_world [ref_task 7 QUEUED] retry_redis"
  have s: "settled (committed (ref_dbv ?w))" by (simp add: settled_def)
  have "\<forall>l. 7 \<notin> set (ready (ref_qv ?w) l)" by simp
  from retry_never_runs [OF ref_deployment.deployment_axioms s _ _ this _ run_request, of "ref_task 7 QUEUED" "[]"]
  show ?thesis by simp
qed

section \<open>Taking work off the queue\<close>

text \<open>A Redis where identifiers 7 and then 9 were pushed with the default priority.\<close>

definition queue_redis :: redis_data where
  "queue_redis = d_push (ready_key 2) (TaskId_str 9) (d_push (ready_key 2) (TaskId_str 7) empty_redis)"

lemma queue_redis_sane [simp]: "sane queue_redis"
  by (simp add: queue_redis_def)

lemma ref_rv_world: "sane d \<Longrightarrow> ref_rv (ref_world ts d) = d"
  by (simp add: ref_rv_def ref_world_def Let_def)

lemma queue_redis_lists:
  "rlists queue_redis (ready_key l) = (if l = 2 then [TaskId_str 9, TaskId_str 7] else [])"
  by (simp add: queue_redis_def d_push_def empty_redis_def)

lemma queue_redis_ready [simp]: "ready (ref_qv (ref_world ts queue_redis)) l = (if l = 2 then [9, 7] else [])"
  by (simp add: ref_rv_world qview_def queue_redis_lists)

lemma queue_redis_waiting: "waiting_ids 4 (ref_qv (ref_world ts queue_redis)) = [7, 9]"
  by (simp add: waiting_ids_def upto.simps)

lemma popped_lists:
  "rlists (d_pop (ready_key 2) queue_redis) (ready_key l) = (if l = 2 then [TaskId_str 9] else [])"
  by (simp add: d_pop_def queue_redis_lists)

lemma ref_rv_popped:
  "ref_rv (w\<lparr>redis := d_pop k queue_redis\<rparr>) = d_pop k queue_redis"
  "ref_rv (ref_restart (w\<lparr>redis := d_pop k queue_redis\<rparr>)) = d_pop k queue_redis"
  by (simp_all add: ref_rv_def ref_restart_def)

lemma pop_level_two:
  assumes "ref_rv w = d" and "rlists d (ready_key 0) = []" and "rlists d (ready_key 1) = []"
    and "rlists d (ready_key 2) = xs @ [TaskId_str i]"
  shows "qb_dequeue_ready (queue_backend ref_container) 5 w = (Inr (Some i), w\<lparr>redis := d_pop (ready_key 2) d\<rparr>)"
proof -
  have "first_nonempty (ready_keys default_Settings) d = Some (ready_key 2)"
    using assms by (simp add: ready_keys_def upto.simps)
  then show ?thesis
    using assms by (simp add: queue_backend_def RedisQueueBackend_def ref_container_def rq_dequeue_ready_def ref_redis_def command_def
        andThen_def ret_def from_sum_def brpop_result_def d_brpop_def)
qed

text \<open>
  C12. Work waits for its turn and no longer: if Redis answers the pop in each of \<^verbatim>\<open>n\<close> turns of
  any workers, whatever happens to the tasks in them, then the next answered pop returns the
  identifier that stood at place \<^verbatim>\<open>n\<close> in the order of levels and, within a level, of arrival, and
  nothing exactly if fewer were waiting. So every waiting identifier comes up.
\<close>

theorem answered_workers_drain_queue:
  assumes "deployment c te sv rv pe" and "answered_turns c te w wids w'"
    and "qb_dequeue_ready (queue_backend c) 5 w' = (Inr r, w'')"
    and "is = waiting_ids (priority_levels (c_settings c)) (queue_of rv w)"
  shows "r = (if length wids < length is then Some (is ! length wids) else None)"
  using deployment.pop_in_order [OF assms(1,3)] deployment.turns_in_order [OF assms(1,2)] assms(4)
  by (cases "length wids < length is") (simp_all add: Cons_nth_drop_Suc [symmetric])

lemma turn_on_missing_row:
  "worker_turn ref_container ref_executors wid (ref_world [] queue_redis) =
     (Inr (), ref_restart ((ref_world [] queue_redis)\<lparr>redis := d_pop (ready_key 2) queue_redis\<rparr>))"
proof -
  let ?w = "ref_world [] queue_redis"
  let ?w1 = "?w\<lparr>redis := d_pop (ready_key 2) queue_redis\<rparr>"
  have "qb_dequeue_ready (queue_backend ref_container) 5 ?w = (Inr (Some 7), ?w1)"
    by (rule pop_level_two [where xs = "[TaskId_str 9]"]) (simp_all add: ref_rv_world queue_redis_lists)
  then have pop: "consume_dequeue ref_container ?w = (Inr (Some 7), ?w1)"
    by (simp add: consume_dequeue_def try_except_def)
  have "session ref_container (process_body ref_container ref_executors wid 7) ?w1 = (Inr (), ref_restart ?w1)"
    by (simp add: session_def stage_def process_body_def Let_def get_task_def container_services_def
        SqlAlchemyTaskRepository_def repo_get_by_id_def opt_domain_def ref_container_def ref_sql_def ref_world_def
        andThen_def try_finally_def except_Exception_def try_except_def ret_def reading_def row_of_def ref_restart_def)
  with pop show ?thesis
    by (simp add: worker_turn_def process_turn_def andThen_def except_Exception_def try_except_def)
qed

theorem answered_workers_drain_queue_witness:
  "\<exists>w'. qb_dequeue_ready (queue_backend ref_container) 5
     (snd (worker_turn ref_container ref_executors ''w1'' (ref_world [] queue_redis))) = (Inr (Some 9), w')"
proof -
  let ?w = "ref_world [] queue_redis"
  let ?w1 = "?w\<lparr>redis := d_pop (ready_key 2) queue_redis\<rparr>"
  have pop: "qb_dequeue_ready (queue_backend ref_container) 5 ?w = (Inr (Some 7), ?w1)"
    by (rule pop_level_two [where xs = "[TaskId_str 9]"]) (simp_all add: ref_rv_world queue_redis_lists)
  have turns: "answered_turns ref_container ref_executors ?w [''w1''] (ref_restart ?w1)"
    using answered_turns.turn [OF answered_turns.none pop turn_on_missing_row] by simp
  obtain r w' where pop2: "qb_dequeue_ready (queue_backend ref_container) 5 (ref_restart ?w1) = (Inr r, w')"
    using pop_level_two [where xs = "[]" and i = 9, OF ref_rv_popped(2) [where w = ?w and k = "ready_key 2"]]
    by (simp add: popped_lists)
  have "r = Some 9"
    using answered_workers_drain_queue [OF ref_deployment.deployment_axioms turns pop2 refl]
    by (simp add: queue_redis_waiting)
  with pop2 show ?thesis by (simp add: turn_on_missing_row)
qed

text \<open>
  C13. A worker that dies between the pop and the commit loses the task. It has taken the
  identifier of a committed QUEUED task, which was queued once and is in no other worker's hands.
  Other processes act, then the worker, whose session is at any of its operations before the
  commit is sent, dies; and others act again. Unless one of them cancels the task or draws its
  identifier anew, the row is QUEUED as it was, the identifier is in no ready list and in no
  worker's hands: nobody will run the task.
\<close>

theorem taken_and_crashed_is_lost:
  assumes "deployment c te sv rv pe" and "settled (committed (db_of sv w))"
    and "committed (db_of sv w) i = Some t" and "task_status t = QUEUED"
    and "consume_dequeue c w = (Inr (Some i), w1)" and "\<forall>l. i \<notin> set (ready (queue_of rv w1) l)"
    and "i \<notin> snd ` set h"
    and "sys_run c te (w1, (wid, i) # h) (as @ (f, Die wid i n) # bs) (w', h')" and "\<forall>g v. (g, Work v i) \<notin> set as"
    and "\<forall>(draws, a) \<in> set (as @ (f, Die wid i n) # bs). a \<noteq> Request (Cancel i) \<and> i \<notin> range draws"
  shows "committed (db_of sv w') i = Some t \<and> (\<forall>l. i \<notin> set (ready (queue_of rv w') l)) \<and> i \<notin> snd ` set h'"
proof -
  have "deployment.parked sv rv i t w1"
    using deployment.taken_parked [OF assms(1,2,3,5)] assms(6) by (simp add: off_ready_def)
  from deployment.killed_parked [OF assms(1,8) this assms(4,7,9,10)] show ?thesis
    by (simp add: deployment.parked_def [OF assms(1)] off_ready_def holders_none)
qed

theorem taken_and_crashed_is_lost_witness:
  "\<exists>w1 r w' k. consume_dequeue ref_container (ref_world [ref_task 7 QUEUED] queue_redis) = (Inr (Some 7), w1) \<and>
     process_body (doomed (drawing ones ref_container)) (doomed_executors ref_executors) ''w1'' 7
       (sq_begin ref_sql w1, 3) = (r, (w', k)) \<and>
     committed (ref_dbv w') 7 = Some (ref_task 7 QUEUED)"
proof -
  let ?w = "ref_world [ref_task 7 QUEUED] queue_redis"
  let ?w1 = "?w\<lparr>redis := d_pop (ready_key 2) queue_redis\<rparr>"
  have "qb_dequeue_ready (queue_backend ref_container) 5 ?w = (Inr (Some 7), ?w1)"
    by (rule pop_level_two [where xs = "[TaskId_str 9]"]) (simp_all add: ref_rv_world queue_redis_lists)
  then have taken: "consume_dequeue ref_container ?w = (Inr (Some 7), ?w1)"
    by (simp add: consume_dequeue_def try_except_def)
  have off: "\<forall>l. 7 \<notin> set (ready (ref_qv ?w1) l)"
    by (simp add: ref_rv_popped qview_def popped_lists)
  have s: "settled (committed (ref_dbv ?w))" by (simp add: settled_def)
  obtain r w' k where die: "process_body (doomed (drawing ones ref_container)) (doomed_executors ref_executors) ''w1'' 7
      (sq_begin ref_sql ?w1, 3) = (r, (w', k))" by (metis prod.exhaust)
  then have "sys_step ref_container ref_executors (?w1, [(''w1'', 7)]) (ones, Die ''w1'' 7 3) (w', [])"
    using sys_step.dies [of "''w1''" 7 "[(''w1'', 7)]" ones ref_container ref_executors ?w1 3 r w' k]
    by (simp add: ref_container_def)
  then have run: "sys_run ref_container ref_executors (?w1, (''w1'', 7) # []) ([] @ (ones, Die ''w1'' 7 3) # []) (w', [])"
    by (simp add: sys_run_one)
  have "committed (ref_dbv w') 7 = Some (ref_task 7 QUEUED)"
    using taken_and_crashed_is_lost [OF ref_deployment.deployment_axioms s _ _ taken off _ run, of "ref_task 7 QUEUED"]
    by simp
  with taken die show ?thesis by blast
qed

end
