(* ===== verification/Adapter_Theorems.thy ===== *)
theory Adapter_Theorems
  imports System_Theorems
begin

text \<open>
  What the Redis backend, the leader lock and the SQLAlchemy repositories do, over a Redis
  and a database that behave as documented.
\<close>

section \<open>The queues\<close>

lemma pop_from_none: "(\<And>l. ready v l = []) \<Longrightarrow> pop_from ls v = None"
  by (induction ls) auto

text \<open>
  C16. The blocking pop refines the abstract queue: it returns an identifier exactly when some
  level holds one, that identifier is the last of the first non-empty level, and nothing else
  changes; when it raises, at most that pop has happened, and then its identifier is lost. The
  exception is a driver's, or the one that a malformed member is read with.
\<close>

theorem dequeue_refines_queue:
  assumes "container c sv rv pe"
  shows "wp (qb_dequeue_ready (queue_backend c) tmo)
    (\<lambda>r w'. db_of sv w' = db_of sv w \<and>
       (case r of None \<Rightarrow> queue_of rv w' = queue_of rv w \<and>
            pop_ready (priority_levels (c_settings c)) (queue_of rv w) = None
        | Some i \<Rightarrow> pop_ready (priority_levels (c_settings c)) (queue_of rv w) = Some (i, queue_of rv w')))
    (\<lambda>e w'. unreadable pe e \<and> db_of sv w' = db_of sv w \<and> (queue_of rv w' = queue_of rv w \<or>
       (\<exists>i. pop_ready (priority_levels (c_settings c)) (queue_of rv w) = Some (i, queue_of rv w')))) w"
  by (rule contractD [OF container.dequeue_contract [OF assms]])

theorem dequeue_refines_queue_witness:
  "wp (qb_dequeue_ready (queue_backend ref_container) 5)
    (\<lambda>r w'. ref_dbv w' = ref_dbv (ref_world [] empty_redis) \<and> r = None)
    (\<lambda>e w'. unreadable driver_error e \<and> ref_dbv w' = ref_dbv (ref_world [] empty_redis))
    (ref_world [] empty_redis)"
proof -
  have "pop_ready 4 (ref_qv (ref_world [] empty_redis)) = None"
    by (simp add: pop_ready_def pop_from_none)
  with dequeue_refines_queue [OF ref.container_axioms, of 5 "ref_world [] empty_redis"] show ?thesis
    by (elim wp_mono) (auto simp del: ref_world_queues split: option.splits)
qed

text \<open>
  C17. Over empty ready lists, of two identifiers enqueued one after the other the next
  dequeue returns the one with the smaller priority number, after both are clamped to the
  last level, and the first of the two when they share a level.
\<close>

theorem priority_then_first_in_first_out:
  assumes "container c sv rv pe" and "0 < priority_levels (c_settings c)" and "0 \<le> p" and "0 \<le> q"
    and "\<forall>l. ready (queue_of rv w) l = []"
  shows "wp (andThen (qb_enqueue_ready (queue_backend c) i p) (\<lambda>_.
      andThen (qb_enqueue_ready (queue_backend c) j q) (\<lambda>_. qb_dequeue_ready (queue_backend c) tmo)))
    (\<lambda>r _. r = Some (if min q (priority_levels (c_settings c) - 1) < min p (priority_levels (c_settings c) - 1)
       then j else i)) (\<lambda>e _. unreadable pe e) w"
proof -
  let ?L = "priority_levels (c_settings c)"
  note enqueue = container.enqueue_ready_wired [OF assms(1)]
  have pop: "pop_ready ?L (push_ready ?L j q (push_ready ?L i p (queue_of rv w))) = Some (k, v) \<Longrightarrow>
      k = (if min q (?L - 1) < min p (?L - 1) then j else i)"
    and some: "pop_ready ?L (push_ready ?L j q (push_ready ?L i p (queue_of rv w))) \<noteq> None" for k v
    using pop_two_pushed [OF assms(2,3,4) assms(5) [rule_format], of j i] by auto
  show ?thesis
    unfolding wp_andThen
    by (rule contract_wp [OF enqueue [unfolded queue_effect_def]],
        rule contract_wp [OF enqueue [unfolded queue_effect_def]],
        rule contract_wp [OF container.dequeue_contract [OF assms(1)]])
      (use pop some in \<open>auto split: option.splits\<close>)
qed

theorem priority_then_first_in_first_out_witness:
  "wp (andThen (qb_enqueue_ready (queue_backend ref_container) 7 9) (\<lambda>_.
      andThen (qb_enqueue_ready (queue_backend ref_container) 8 1) (\<lambda>_. qb_dequeue_ready (queue_backend ref_container) 5)))
    (\<lambda>r _. r = Some 8) (\<lambda>e _. unreadable driver_error e) (ref_world [] empty_redis)"
  using priority_then_first_in_first_out [OF ref.container_axioms, of 9 1 "ref_world [] empty_redis" 7 8 5]
  by simp

text \<open>
  C18. No due identifier is claimed twice: of two claims, one after the other, the second
  returns none that the first returned, as the script removes what it reads in one step.
\<close>

theorem due_claimed_once:
  assumes "container c sv rv pe"
  shows "wp (andThen (qb_claim_due_scheduled (queue_backend c) m) (\<lambda>first.
      andThen (qb_claim_due_scheduled (queue_backend c) n) (\<lambda>second. ret (first, second))))
    (\<lambda>(first, second) w'. set first \<inter> set second = {} \<and> distinct first \<and> distinct second \<and>
       queue_of rv w' = unschedule (set first \<union> set second) (queue_of rv w))
    (\<lambda>e _. pe e) w"
proof -
  note claim = container.claim_contract [OF assms]
  have dis: "set first \<inter> set second = {}"
    if "claimable k b (unschedule (set first) v) second" for k b v first second
  proof -
    have "due (unschedule (set first) v) b i" if "i \<in> set second" for i
      using \<open>claimable k b (unschedule (set first) v) second\<close> that by (simp add: claimable_def)
    then show ?thesis by (fastforce simp: due_def unschedule_def)
  qed
  have un: "unschedule xs (unschedule ys v) = unschedule (ys \<union> xs) v" for xs ys v
    by (auto simp: unschedule_def fun_eq_iff)
  show ?thesis
    unfolding wp_andThen wp_ret
  proof (rule contract_wp [OF claim], rule contract_wp [OF claim], goal_cases)
    case (1 first w1 second w2)
    then obtain a b where c: "claimable m a (queue_of rv w) first"
      "claimable n b (unschedule (set first) (queue_of rv w)) second" by auto
    then have "distinct first \<and> distinct second" by (simp add: claimable_def)
    with 1 dis [OF c(2)] show ?case by (simp add: un)
  qed auto
qed

theorem due_claimed_once_witness:
  "wp (andThen (qb_claim_due_scheduled (queue_backend ref_container) 10) (\<lambda>first.
      andThen (qb_claim_due_scheduled (queue_backend ref_container) 10) (\<lambda>second. ret (first, second))))
    (\<lambda>(first, second) w'. set first \<inter> set second = {} \<and> distinct first \<and> distinct second \<and>
       ref_qv w' = unschedule (set first \<union> set second) (ref_qv (ref_world [] retry_redis)))
    (\<lambda>e _. driver_error e) (ref_world [] retry_redis)"
  by (rule due_claimed_once [OF ref.container_axioms])

section \<open>The leader's lock\<close>

lemma held_lock_wp:
  assumes "lock_service (c_redis c) lk pe" and "lk w = Some owner" and "other \<noteq> owner" and "other \<noteq> []"
  shows "wp (ll_acquire (leader_lock c other) ttl) (\<lambda>r w'. \<not> r \<and> lk w' = Some owner) (\<lambda>e w'. pe e \<and> lk w' = Some owner) w"
    and "wp (ll_renew (leader_lock c other) ttl) (\<lambda>r w'. \<not> r \<and> lk w' = Some owner) (\<lambda>e w'. pe e \<and> lk w' = Some owner) w"
    and "wp (ll_release (leader_lock c other)) (\<lambda>_ w'. lk w' = Some owner) (\<lambda>e w'. pe e \<and> lk w' = Some owner) w"
proof -
  have ops: "ll_acquire (leader_lock c other) = lock_acquire (c_redis c) other"
    "ll_renew (leader_lock c other) = lock_renew (c_redis c) other"
    "ll_release (leader_lock c other) = lock_release (c_redis c) other"
    by (simp_all add: leader_lock_def RedisLeaderLock_def)
  show "wp (ll_acquire (leader_lock c other) ttl) (\<lambda>r w'. \<not> r \<and> lk w' = Some owner) (\<lambda>e w'. pe e \<and> lk w' = Some owner) w"
    unfolding ops by (rule wp_mono [OF lock_service.acquire_wp [OF assms(1)]]) (use assms in auto)
  show "wp (ll_renew (leader_lock c other) ttl) (\<lambda>r w'. \<not> r \<and> lk w' = Some owner) (\<lambda>e w'. pe e \<and> lk w' = Some owner) w"
    unfolding ops by (rule wp_mono [OF lock_service.renew_wp [OF assms(1)]]) (use assms in auto)
  show "wp (ll_release (leader_lock c other)) (\<lambda>_ w'. lk w' = Some owner) (\<lambda>e w'. pe e \<and> lk w' = Some owner) w"
    unfolding ops by (rule wp_mono [OF lock_service.release_wp [OF assms(1,4)]]) (use assms in auto)
qed

text \<open>
  Of two scheduler processes only one leads: while the lock is held by a scheduler, and nothing
  else acts, the acquire and the renewal of a scheduler with another identifier return
  false, on whatever hosts the two run, and none of the other's three operations changes the
  owner.
\<close>

theorem lock_keeps_its_owner:
  assumes "lock_service (c_redis c) lk pe" and "lk w = Some (scheduler_owner host u)" and "u' \<noteq> u"
  shows "wp (ll_acquire (leader_lock c (scheduler_owner host' u')) ttl)
      (\<lambda>r w'. \<not> r \<and> lk w' = lk w) (\<lambda>e w'. pe e \<and> lk w' = lk w) w \<and>
    wp (ll_renew (leader_lock c (scheduler_owner host' u')) ttl)
      (\<lambda>r w'. \<not> r \<and> lk w' = lk w) (\<lambda>e w'. pe e \<and> lk w' = lk w) w \<and>
    wp (ll_release (leader_lock c (scheduler_owner host' u')))
      (\<lambda>_ w'. lk w' = lk w) (\<lambda>e w'. pe e \<and> lk w' = lk w) w"
  unfolding assms(2)
  by (intro conjI held_lock_wp [OF assms(1,2)]) (use assms(3) in \<open>simp_all add: scheduler_owner_inject\<close>)

theorem lock_keeps_its_owner_witness:
  "wp (ll_acquire (leader_lock ref_container (scheduler_owner ''b'' 2)) 30)
     (\<lambda>r w'. \<not> r \<and> map_of (strings w') LEADER_LOCK_KEY = Some (scheduler_owner ''a'' 1))
     (\<lambda>e w'. driver_error e \<and> map_of (strings w') LEADER_LOCK_KEY = Some (scheduler_owner ''a'' 1))
     ((ref_world [] empty_redis)\<lparr>strings := [(LEADER_LOCK_KEY, scheduler_owner ''a'' 1)]\<rparr>)"
proof -
  have "c_redis ref_container = ref_redis" by (simp add: ref_container_def)
  with lock_keeps_its_owner [of ref_container "\<lambda>w. map_of (strings w) LEADER_LOCK_KEY" driver_error
      "(ref_world [] empty_redis)\<lparr>strings := [(LEADER_LOCK_KEY, scheduler_owner ''a'' 1)]\<rparr>" "''a''" 1 2 "''b''" 30]
    ref_lock.lock_service_axioms show ?thesis by simp
qed

text \<open>
  C25. A turn of the scheduler's loop does not leave its lock behind. Over the lock in Redis, whose
  commands may fail at any point: a turn that was left, because the leader has lost the lock or
  because another holds it, leaves the key without this scheduler's name, if it was without it
  before. When an exception leaves the turn, whatever part of the tick raised it, the key is
  without the name too, unless the exception is that of a command of the acquire or of the
  release itself. A turn that is still leading has returned false and released nothing.
\<close>

theorem turn_releases_lock:
  assumes "lock_service (c_redis c) lk pe" and "owner \<noteq> []" and "lk w \<noteq> Some owner"
  shows "wp (scheduler_turn c (leader_lock c owner) turns) (\<lambda>left w'. left \<longrightarrow> lk w' \<noteq> Some owner)
    (\<lambda>e w'. lk w' \<noteq> Some owner \<or>
       ll_acquire (leader_lock c owner) (scheduler_lock_ttl (c_settings c)) w = (Inl e, w') \<or>
       (\<exists>w1. ll_release (leader_lock c owner) w1 = (Inl e, w'))) w"
  (is "wp _ ?Q ?E w")
proof -
  let ?lock = "leader_lock c owner"
  let ?ttl = "scheduler_lock_ttl (c_settings c)"
  have ops: "ll_acquire ?lock = lock_acquire (c_redis c) owner" "ll_release ?lock = lock_release (c_redis c) owner"
    by (simp_all add: leader_lock_def RedisLeaderLock_def)
  have release: "wp (ll_release ?lock) (\<lambda>_ w'. lk w' \<noteq> Some owner) ?E w1" for w1
  proof (rule wpI)
    fix u w' assume "ll_release ?lock w1 = (Inr u, w')"
    with lock_service.release_wp [OF assms(1,2), of w1] show "lk w' \<noteq> Some owner"
      by (simp add: ops wp_def split: if_splits)
  qed blast
  have led: "wp (finally_left (lead c ?lock turns) (ll_release ?lock)) ?Q ?E w1" for w1
    unfolding wp_finally_left
    by (rule wp_mono [OF wp_any]) (auto intro: wp_mono [OF release])
  have acquire: "wp (ll_acquire ?lock ?ttl) (\<lambda>r w'. \<not> r \<longrightarrow> lk w' \<noteq> Some owner) ?E w"
  proof (rule wpI)
    fix r w' assume "ll_acquire ?lock ?ttl w = (Inr r, w')"
    with lock_service.acquire_wp [OF assms(1), of owner ?ttl w] assms(3) show "\<not> r \<longrightarrow> lk w' \<noteq> Some owner"
      by (auto simp: ops wp_def)
  qed simp
  show ?thesis
    unfolding scheduler_turn_def wp_andThen
  proof (rule wp_mono [OF acquire], goal_cases)
    case (1 acquired w')
    with led [of w'] show ?case by (cases acquired) (simp_all only: if_True if_False wp_ret, simp)
  qed
qed

theorem turn_releases_lock_witness:
  "wp (scheduler_turn ref_container (leader_lock ref_container ''a'') 2)
     (\<lambda>left w'. left \<longrightarrow> map_of (strings w') LEADER_LOCK_KEY \<noteq> Some ''a'')
     (\<lambda>e w'. map_of (strings w') LEADER_LOCK_KEY \<noteq> Some ''a'') (ref_world [] empty_redis)"
proof -
  have redis: "c_redis ref_container = ref_redis" by (simp add: ref_container_def)
  have fine: "ll_acquire (leader_lock ref_container ''a'') ttl w1 \<noteq> (Inl e, w')"
    "ll_release (leader_lock ref_container ''a'') w1 \<noteq> (Inl e, w')" for ttl w1 e w'
    by (auto simp: leader_lock_def RedisLeaderLock_def redis lock_acquire_def lock_release_def unit_prog_def andThen_def
        ref_redis_def reading_def command_def ret_def split: option.splits if_splits prod.splits)
  show ?thesis
    by (rule wp_mono [OF turn_releases_lock [of ref_container "\<lambda>w. map_of (strings w) LEADER_LOCK_KEY" driver_error]])
      (use ref_lock.lock_service_axioms fine in \<open>auto simp: redis ref_world_def Let_def\<close>)
qed

section \<open>Scanning\<close>

text \<open>
  A server that answers a \<^verbatim>\<open>SCAN\<close> of a pattern, from a cursor on, with a number of
  batches, the last of which carries cursor 0.
\<close>

inductive scans :: "'w RedisClient \<Rightarrow> string \<Rightarrow> 'w \<Rightarrow> int \<Rightarrow> nat \<Rightarrow> string list \<Rightarrow> 'w \<Rightarrow> bool" for rc pat where
  last_batch: "rc_scan rc cursor pat 100 w = (Inr (0, batch), w') \<Longrightarrow> scans rc pat w cursor 1 batch w'"
| more_batches: "rc_scan rc cursor pat 100 w = (Inr (cursor', batch), w') \<Longrightarrow> cursor' \<noteq> 0 \<Longrightarrow>
    scans rc pat w' cursor' n keys w'' \<Longrightarrow> scans rc pat w cursor (Suc n) (batch @ keys) w''"

lemma scan_loop_scans:
  "scans rc pat w cursor n keys w' \<Longrightarrow> n \<le> fuel \<Longrightarrow>
     scan_loop rc pat fuel cursor seen w = (Inr (Some (seen @ keys)), w')"
proof (induction arbitrary: fuel seen rule: scans.induct)
  case (last_batch cursor w batch w')
  then show ?case by (cases fuel) (simp_all add: andThen_def ret_def)
next
  case (more_batches cursor w cursor' batch w' n keys w'')
  then show ?case by (cases fuel) (simp_all add: andThen_def)
qed

text \<open>
  C32. The cursor loop of \<^verbatim>\<open>_scan_keys\<close> ends when the server does: if the server answers
  with \<open>n\<close> batches, then \<open>n\<close> calls are enough, and with any larger bound the loop returns all
  keys of all batches in order, so the bound of the model is not seen.
\<close>

theorem scan_ends_with_the_cursor:
  assumes "scans rc pat w 0 n keys w'" and "n \<le> fuel"
  shows "scan_keys rc fuel pat w = (Inr keys, w')"
  using scan_loop_scans [OF assms, of "[]"] by (simp add: scan_keys_def andThen_def ret_def)

theorem scan_ends_with_the_cursor_witness:
  "scan_keys ref_redis 3 ''workers:*'' ((ref_world [] empty_redis)\<lparr>hashes := [(''workers:a'', []), (''x'', [])]\<rparr>) =
     (Inr [''workers:a''], (ref_world [] empty_redis)\<lparr>hashes := [(''workers:a'', []), (''x'', [])]\<rparr>)"
proof (rule scan_ends_with_the_cursor)
  show "scans ref_redis ''workers:*'' ((ref_world [] empty_redis)\<lparr>hashes := [(''workers:a'', []), (''x'', [])]\<rparr>) 0 1
      [''workers:a''] ((ref_world [] empty_redis)\<lparr>hashes := [(''workers:a'', []), (''x'', [])]\<rparr>)"
    by (rule scans.last_batch) (simp add: ref_redis_def reading_def starts_with_def)
qed simp

section \<open>The repositories\<close>

text \<open>
  C29. What is saved is what is read: reading a task back in the same session returns the task
  that was saved, except that missing timestamps are filled in and that a row that was there
  before keeps its idempotency key and its creation time.
\<close>

theorem saved_task_reads_back:
  assumes "container c sv rv pe" and "0 \<le> priority t"
  shows "wp (andThen (tr_save (SqlAlchemyTaskRepository (c_session c) (c_runtime c)) t) (\<lambda>_.
      tr_get_by_id (SqlAlchemyTaskRepository (c_session c) (c_runtime c)) (task_id t)))
    (\<lambda>r _. \<exists>n. r = Some (stored n (tasks (db_of sv w) (task_id t)) t)) (\<lambda>e _. pe e) w"
  unfolding wp_andThen
  by (rule contract_wp [OF container.save_contract [OF assms]],
      rule contract_wp [OF container.get_contract [OF assms(1)]]) (auto simp del: split_paired_Ex)

theorem saved_task_reads_back_witness:
  "wp (andThen (tr_save (SqlAlchemyTaskRepository (c_session ref_container) (c_runtime ref_container)) (ref_task 7 RUNNING)) (\<lambda>_.
      tr_get_by_id (SqlAlchemyTaskRepository (c_session ref_container) (c_runtime ref_container)) 7))
    (\<lambda>r _. r = Some (ref_task 7 RUNNING)) (\<lambda>e _. driver_error e) (ref_world [ref_task 7 QUEUED] empty_redis)"
proof -
  have p: "0 \<le> priority (ref_task 7 RUNNING)" by simp
  have st: "stored n (Some (ref_task 7 QUEUED)) (ref_task 7 RUNNING) = ref_task 7 RUNNING" for n
    by (simp add: stored_def ref_task_def)
  show ?thesis
    by (rule wp_mono [OF saved_task_reads_back [OF ref.container_axioms p, unfolded ref_task_simps(1)]])
      (auto simp: st)
qed

text \<open>
  C30. The unique index guards idempotency: saving a new task whose key another row has never
  returns.
\<close>

theorem duplicate_key_never_saved:
  assumes "container c sv rv pe" and "0 \<le> priority t"
    and "tasks (db_of sv w) (task_id t) = None" and "idempotency_key t = Some k"
    and "tasks (db_of sv w) i = Some t'" and "idempotency_key t' = Some k"
  shows "wp (tr_save (SqlAlchemyTaskRepository (c_session c) (c_runtime c)) t) (\<lambda>_ _. False) (\<lambda>e _. pe e) w"
  using container.duplicate_key_wp [OF assms] by (simp add: SqlAlchemyTaskRepository_def)

theorem duplicate_key_never_saved_witness:
  "wp (tr_save (SqlAlchemyTaskRepository (c_session ref_container) (c_runtime ref_container)) (ref_task 8 PENDING))
    (\<lambda>_ _. False) (\<lambda>e _. driver_error e) (ref_world [ref_task 7 COMPLETED] empty_redis)"
  using duplicate_key_never_saved [OF ref.container_axioms, of "ref_task 8 PENDING"
      "ref_world [ref_task 7 COMPLETED] empty_redis" "''key''" 7 "ref_task 7 COMPLETED"]
  by simp

text \<open>
  A listing returns no more tasks than its limit, only tasks of the table, and only tasks
  of the status asked for.
\<close>

theorem listing_respects_filter:
  assumes "container c sv rv pe"
  shows "wp (list_tasks (container_services c) q)
    (\<lambda>ts w'. int (length ts) \<le> max 0 (q_limit q) \<and> set ts \<subseteq> ran (tasks (db_of sv w)) \<and>
       (q_status q = None \<or> task_status ` set ts \<subseteq> {the (q_status q)}) \<and> db_of sv w' = db_of sv w)
    (\<lambda>e _. pe e) w"
  by (rule services.list_rule [OF wired [OF assms]])
    (auto simp: keeps_def ran_def split: option.splits)

theorem listing_respects_filter_witness:
  "wp (list_tasks (container_services ref_container) (default_task_query\<lparr>q_status := Some QUEUED\<rparr>))
    (\<lambda>ts w'. int (length ts) \<le> 50 \<and> set ts \<subseteq> {ref_task 7 COMPLETED} \<and> task_status ` set ts \<subseteq> {QUEUED} \<and>
       ref_dbv w' = ref_dbv (ref_world [ref_task 7 COMPLETED] empty_redis))
    (\<lambda>e _. driver_error e) (ref_world [ref_task 7 COMPLETED] empty_redis)"
  using listing_respects_filter [OF ref.container_axioms, of "default_task_query\<lparr>q_status := Some QUEUED\<rparr>"
      "ref_world [ref_task 7 COMPLETED] empty_redis"]
  by (simp add: default_task_query_def)

section \<open>Identifiers\<close>

text \<open>
  A task identifier survives its text: \<^verbatim>\<open>TaskId.from_string(str(i))\<close> is \<open>i\<close>, so that
  no two identifiers share a queue entry, a cancellation mark or an in-flight key.
\<close>

theorem identifier_text_roundtrip:
  "TaskId_from_string (TaskId_str i) = Inr i \<and> (TaskId_str i = TaskId_str j \<longleftrightarrow> i = j) \<and>
     (inflight_key i = inflight_key j \<longleftrightarrow> i = j)"
  by (simp add: TaskId_from_string_def TaskId_str_def inflight_key_def)

end
