(* ===== verification/Api_Theorems.thy ===== *)
theory Api_Theorems
  imports Queue_Theorems Schema
begin

text \<open>
  What a client of the HTTP API can rely on: who gets in, what a token stands for, what a
  login gives and to whom, and what the answer to a submission says of the database.
\<close>

section \<open>Answers\<close>

lemma serve_wp:
  assumes "wp (route a cred q) Q E w"
  shows "case serve a rid cred q w of
      (Success s b, w') \<Rightarrow> s = success_code q \<and> Q b w'
    | (Failure s d, w') \<Rightarrow> \<exists>e. exception_handler rid e = Some (s, d) \<and> E e w'
    | (Internal_error, w') \<Rightarrow> \<exists>e. exception_handler rid e = None \<and> E e w'"
  using assms
  by (auto simp: wp_def serve_def respond_def split: prod.splits sum.splits option.splits)

lemma wp_session_map:
  "wp (session c (andThen m (\<lambda>x. ret (f x)))) Q E = wp (session c m) (\<lambda>x. Q (f x)) E"
  by (simp add: session_def wp_simps cong: if_cong)

section \<open>Credentials\<close>

lemma decode_pure: "snd (decode_access_token cr st token w) = w"
  by (simp add: decode_access_token_def Let_def split: sum.split)

lemma resolve_auth_pure: "snd (resolve_auth cr st key bearer w) = w"
  by (auto simp: resolve_auth_def decode_pure andThen_def from_sum_def ret_def throw_def
      split: prod.split sum.split)

lemma auth_of_cases:
  obtains e where "auth_of a cred w = (Inl e, w)" | ctx where "auth_of a cred w = (Inr ctx, w)"
proof -
  have "snd (auth_of a cred w) = w" by (simp add: auth_of_def resolve_auth_pure)
  then show thesis using that by (cases "auth_of a cred w"; cases "fst (auth_of a cred w)") auto
qed

text \<open>The roles a route asks for; the other routes take any credentials.\<close>

fun allowed_roles :: "api_request \<Rightarrow> string list option" where
  "allowed_roles (Post_task r) = Some [''admin'', ''user'']"
| "allowed_roles (Post_cancel s) = Some [''admin'', ''user'']"
| "allowed_roles (Post_retry s) = Some [''admin'']"
| "allowed_roles (Post_worker h m) = Some [''admin'', ''worker'']"
| "allowed_roles Get_stats = Some [''admin'']"
| "allowed_roles _ = None"

lemma guard_refuses:
  assumes "auth_of a cred w = (Inl e, w)"
  shows "with_role a cred roles w = (Inl (App e), w)" "with_credentials a cred w = (Inl (App e), w)"
  using assms
  by (simp_all add: with_role_def with_credentials_def require_role_def verify_api_key_or_jwt_def
      app_def andThen_def try_except_def throw_def)

lemma role_refuses:
  assumes "auth_of a cred w = (Inr ctx, w)" and "au_role ctx \<notin> set roles"
  shows "\<exists>m. with_role a cred roles w = (Inl (App (AuthorizationError m)), w)"
  using assms
  by (simp add: with_role_def require_role_def app_def andThen_def try_except_def throw_def)

lemma role_admits:
  assumes "auth_of a cred w = (Inr ctx, w)" and "au_role ctx \<in> set roles"
  shows "with_role a cred roles w = (Inr (), w)"
  using assms
  by (simp add: with_role_def require_role_def app_def andThen_def try_except_def ret_def)

lemmas route_defs = with_body_def submit_task_def get_task_route_def list_tasks_route_def cancel_task_def
  retry_task_route_def get_task_events_route_def register_worker_route_def list_workers_route_def
  admin_stats_def

lemma route_unauthenticated:
  assumes "auth_of a cred w = (Inl e, w)"
  shows "route a cred q w = (Inl (App e), w)"
  by (cases q) (simp_all add: route_defs andThen_def guard_refuses [OF assms])

lemma route_wrong_role:
  assumes "auth_of a cred w = (Inr ctx, w)" and "allowed_roles q = Some roles" and "au_role ctx \<notin> set roles"
  shows "\<exists>m. route a cred q w = (Inl (App (AuthorizationError m)), w)"
proof -
  from role_refuses [OF assms(1,3)] obtain m where
    "with_role a cred roles w = (Inl (App (AuthorizationError m)), w)" by blast
  then show ?thesis
    using assms(2) by (cases q) (auto simp: route_defs andThen_def)
qed

text \<open>
  The one kind of credentials that are not refused but break the comparison: without a token, a
  key that has a character beyond ASCII, or any key where the configured one has such a character.
\<close>

definition badly_encoded :: "'w Application \<Rightarrow> Credentials \<Rightarrow> bool" where
  "badly_encoded a cred \<longleftrightarrow> \<not> given (cred_bearer cred) \<and> given (cred_api_key cred) \<and>
     \<not> (ascii (the (cred_api_key cred)) \<and> ascii (api_key (c_settings (ap_container a))))"

lemma auth_of_refuses:
  assumes "auth_of a cred w = (Inl e, w)"
  shows "if badly_encoded a cred then \<exists>m. e = TypeError m else \<exists>m. e = AuthenticationError m"
  using assms
  by (auto simp: auth_of_def resolve_auth_def badly_encoded_def compare_digest_def decode_access_token_def Let_def
      andThen_def from_sum_def ret_def throw_def split: if_splits sum.splits)

text \<open>
  C10. Every route asks for credentials before it does anything else. The answer to a request
  whose credentials stand for nobody is 401, or the framework's internal error if a key with a
  character beyond ASCII broke the comparison; to one whose credentials stand for somebody with a
  role that the route does not admit it is 403. In all these cases the state of database, queues
  and limiter is untouched. Only administrators retry dead tasks and read the statistics; a
  worker's role does not submit or cancel.
\<close>

theorem roles_enforced:
  "case fst (auth_of a cred w) of
     Inl e \<Rightarrow> if badly_encoded a cred then serve a rid cred q w = (Internal_error, w)
       else \<exists>d. serve a rid cred q w = (Failure 401 d, w)
   | Inr ctx \<Rightarrow> \<forall>roles. allowed_roles q = Some roles \<longrightarrow> au_role ctx \<notin> set roles \<longrightarrow>
       (\<exists>d. serve a rid cred q w = (Failure 403 d, w))"
proof (cases rule: auth_of_cases [of a cred w])
  case (1 e)
  note route = route_unauthenticated [OF 1, of q]
  show ?thesis
  proof (cases "badly_encoded a cred")
    case True
    with auth_of_refuses [OF 1] obtain m where "e = TypeError m" by auto
    with True 1 route show ?thesis by (simp add: serve_def respond_def del: route.simps)
  next
    case False
    with auth_of_refuses [OF 1] obtain m where "e = AuthenticationError m" by auto
    with False 1 route show ?thesis
      by (simp add: serve_def respond_def coded_error_def error_response_def del: route.simps)
  qed
next
  case (2 ctx)
  have "\<exists>d. serve a rid cred q w = (Failure 403 d, w)"
    if "allowed_roles q = Some roles" "au_role ctx \<notin> set roles" for roles
  proof -
    from route_wrong_role [OF 2 that] obtain m where "route a cred q w = (Inl (App (AuthorizationError m)), w)" by blast
    then show ?thesis by (simp add: serve_def respond_def coded_error_def error_response_def del: route.simps)
  qed
  then show ?thesis by (simp add: 2)
qed

text \<open>A user's token, valid for a hundred seconds.\<close>

definition user_token :: string where
  "user_token = ref_encode ''ann'' ''user'' 100 (jwt_secret default_Settings)"

lemma user_token_decodes:
  "fst (auth_of ref_app \<lparr>cred_api_key = None, cred_bearer = Some user_token\<rparr> (ref_world ts d)) =
     Inr \<lparr>au_subject = ''ann'', au_role = ''user'', au_type = ''jwt''\<rparr>"
proof -
  have "user_token \<noteq> []" by (simp add: user_token_def ref_encode_def)
  moreover have "cr_jwt_decode ref_crypto (ref_world ts d) user_token (jwt_secret default_Settings) as =
      Inr [(''sub'', PStr ''ann''), (''role'', PStr ''user''), (''exp'', PInt 100)]" for as
    by (simp add: ref_crypto_def user_token_def ref_decode_encode ref_world_def Let_def)
  ultimately show ?thesis
    by (simp add: auth_of_def resolve_auth_def given_def decode_access_token_def dict_get_def py_str_def)
qed

theorem roles_enforced_witness:
  "\<exists>d. serve ref_app None \<lparr>cred_api_key = None, cred_bearer = Some user_token\<rparr> (Post_retry ''7'')
      (ref_world [] empty_redis) = (Failure 403 d, ref_world [] empty_redis)"
  using roles_enforced [of ref_app "\<lparr>cred_api_key = None, cred_bearer = Some user_token\<rparr>"
      None "Post_retry ''7''" "ref_world [] empty_redis"]
  by (simp add: user_token_decodes)

text \<open>
  Without a bearer token a request gets in exactly when its key is the configured one,
  which must be non-empty and ASCII, and then as an administrator. With a bearer token the key
  is not looked at: a token that does not decode is refused whatever the key is.
\<close>

theorem key_or_token:
  "fst (resolve_auth cr st key bearer w) =
     (if given bearer then fst (resolve_auth cr st None bearer w)
      else if given key \<and> \<not> (ascii (the key) \<and> ascii (api_key st))
      then Inl (TypeError ''comparing strings with non-ASCII characters is not supported'')
      else if key = Some (api_key st) \<and> api_key st \<noteq> []
      then Inr \<lparr>au_subject = ''api-key'', au_role = ''admin'', au_type = ''api_key''\<rparr>
      else Inl (AuthenticationError ''Invalid or missing credentials''))"
  by (cases key)
    (auto simp: resolve_auth_def given_def compare_digest_def andThen_def from_sum_def ret_def throw_def)

section \<open>Tokens and logins\<close>

text \<open>
  C36. A token stands for the subject and the role it was issued for, until it expires
  \<^verbatim>\<open>jwt_expire_minutes\<close> after the clock reading at its creation (in whole seconds), and for
  nobody afterwards, whatever API key comes with it. Its creation fails only when the expiry
  overflows or the library refuses to encode it.
\<close>

theorem token_authenticates:
  assumes "accounts c cr uv seconds pe" and "s \<noteq> []" and "r \<noteq> []"
  shows "wp (create_access_token cr (c_runtime c) (c_settings c) s r)
    (\<lambda>token _. \<forall>key w'. resolve_auth cr (c_settings c) key (Some token) w' =
       ((if seconds w' < (fst (rt_now (c_runtime c) w) + 60000000 * jwt_expire_minutes (c_settings c)) div 1000000
         then Inr \<lparr>au_subject = s, au_role = r, au_type = ''jwt''\<rparr>
         else Inl (AuthenticationError ''Invalid or expired token'')), w'))
    (\<lambda>e _. (\<exists>m. e = OverflowError m) \<or>
       (\<exists>d. cr_jwt_encode cr d (jwt_secret (c_settings c)) (jwt_algorithm (c_settings c)) = Inl e)) w"
  by (rule accounts.token_wp [OF assms])

lemma ref_now [simp]: "rt_now ref_runtime w = (clock w, w\<lparr>clock := clock w + 1\<rparr>)"
  by (simp add: ref_runtime_def)

theorem token_authenticates_witness:
  "wp (create_access_token ref_crypto ref_runtime default_Settings ''ann'' ''user'')
    (\<lambda>token _. \<forall>key w'. resolve_auth ref_crypto default_Settings key (Some token) w' =
       ((if clock w' div 1000000 < 3601 then Inr \<lparr>au_subject = ''ann'', au_role = ''user'', au_type = ''jwt''\<rparr>
         else Inl (AuthenticationError ''Invalid or expired token'')), w'))
    (\<lambda>e _. (\<exists>m. e = OverflowError m) \<or>
       (\<exists>d. cr_jwt_encode ref_crypto d (jwt_secret default_Settings) (jwt_algorithm default_Settings) = Inl e))
    (ref_world [] empty_redis)"
proof -
  have t: "(clock (ref_world [] empty_redis) + 60000000 * jwt_expire_minutes default_Settings) div 1000000 = 3601"
    by (simp add: ref_world_def default_Settings_def)
  show ?thesis
    using token_authenticates [OF ref_accounts.accounts_axioms, of "''ann''" "''user''" "ref_world [] empty_redis"]
    by (simp only: ref_services_simps ref_now fst_conv t) simp
qed

text \<open>
  C37. A login that returns has checked the password against the hash of a user who is in
  the committed table, its token was issued for this user's name and role, and the table has the
  default administrator. A login that raises leaves the committed users as they were, unless the
  answer to the commit was lost.
\<close>

theorem login_requires_password:
  assumes "accounts c cr uv seconds pe"
  shows "wp (login c cr n p)
     (\<lambda>r w'. admin_ensured cr (c_settings c) (c_users (uv w)) (c_users (uv w')) \<and>
        (\<exists>u expires. c_users (uv w') n = Some u \<and> verify_password cr p (um_password_hash u) = Inr True \<and>
           token_role r = um_role u \<and>
           cr_jwt_encode cr (token_payload n (um_role u) expires) (jwt_secret (c_settings c))
             (jwt_algorithm (c_settings c)) = Inr (access_token r)))
     (\<lambda>e w'. c_users (uv w') = c_users (uv w) \<or>
        pe e \<and> admin_ensured cr (c_settings c) (c_users (uv w)) (c_users (uv w'))) w"
  by (rule wp_mono [OF accounts.login_wp [OF assms]])
    (auto simp: accounts.issued_def [OF assms])

theorem login_requires_password_witness:
  "wp (login ref_container ref_crypto ''admin'' ''admin-change-me'')
     (\<lambda>r w'. \<exists>u. c_users (ref_uv w') = [''admin'' \<mapsto> u] \<and>
        um_password_hash u = ''$admin-change-me'' \<and> token_role r = ''admin'')
     (\<lambda>_ _. True) (ref_world [] empty_redis)"
proof -
  have "admin_username default_Settings = ''admin''" by (simp add: default_Settings_def)
  then show ?thesis
    by (intro wp_mono [OF login_requires_password [OF ref_accounts.accounts_axioms]])
      (auto simp: ref_crypto_def verify_password_def admin_ensured_def)
qed

text \<open>
  Nobody logs in with a password that does not open an account: for a name without an
  account, or with a password that its hash does not verify, the login always raises,
  \<^verbatim>\<open>AuthenticationError\<close> unless the database or the hash library failed, and the committed
  users stay; the default administrator that the same session would add is rolled back too.
\<close>

theorem login_refused:
  assumes "accounts c cr uv seconds pe"
    and "n \<noteq> admin_username (c_settings c) \<or> c_users (uv w) n \<noteq> None"
    and "\<And>u. c_users (uv w) n = Some u \<Longrightarrow> verify_password cr p (um_password_hash u) \<noteq> Inr True"
  shows "wp (login c cr n p) (\<lambda>_ _. False)
     (\<lambda>e w'. (pe e \<or> (\<exists>q s. cr_hashpw cr q s = Inl e) \<or> (\<exists>q h. cr_checkpw cr q h = Inl e) \<or>
         e = AuthenticationError ''Invalid username or password'') \<and>
        c_users (uv w') = c_users (uv w)) w"
  by (rule wp_mono [OF accounts.login_refused_wp [OF assms]])
    (auto simp: accounts.library_raises_def [OF assms(1)])

theorem login_refused_witness:
  "wp (login ref_container ref_crypto ''eve'' ''password'') (\<lambda>_ _. False)
     (\<lambda>e w'. (driver_error e \<or> e = AuthenticationError ''Invalid username or password'') \<and>
       c_users (ref_uv w') = Map.empty) (ref_world [] empty_redis)"
proof -
  have "''eve'' \<noteq> admin_username default_Settings" by (simp add: default_Settings_def)
  then have "wp (login ref_container ref_crypto ''eve'' ''password'') (\<lambda>_ _. False)
     (\<lambda>e w'. (driver_error e \<or> (\<exists>q s. cr_hashpw ref_crypto q s = Inl e) \<or>
         (\<exists>q h. cr_checkpw ref_crypto q h = Inl e) \<or> e = AuthenticationError ''Invalid username or password'') \<and>
        c_users (ref_uv w') = c_users (ref_uv (ref_world [] empty_redis))) (ref_world [] empty_redis)"
    by (intro login_refused [OF ref_accounts.accounts_axioms]) (simp_all)
  then show ?thesis
    by (rule wp_mono) (auto simp: ref_crypto_def driver_error_def)
qed

text \<open>
  C38. Starting the application adds the default administrator when no user has its name:
  one row with the role of an administrator, whose hash verifies the configured password.
  Starting it again changes nothing, also when that start fails.
\<close>

theorem admin_created_once:
  assumes "accounts c cr uv seconds pe"
  shows "wp (startup c cr)
    (\<lambda>_ w1. admin_ensured cr (c_settings c) (c_users (uv w)) (c_users (uv w1)) \<and>
       wp (startup c cr) (\<lambda>_ w2. c_users (uv w2) = c_users (uv w1)) (\<lambda>_ w2. c_users (uv w2) = c_users (uv w1)) w1)
    (\<lambda>e w1. c_users (uv w1) = c_users (uv w) \<or>
       pe e \<and> admin_ensured cr (c_settings c) (c_users (uv w)) (c_users (uv w1))) w"
proof -
  note start = accounts.startup_wp [OF assms]
  have again: "wp (startup c cr) (\<lambda>_ w2. c_users (uv w2) = c_users (uv w1)) (\<lambda>_ w2. c_users (uv w2) = c_users (uv w1)) w1"
    if "admin_ensured cr (c_settings c) (c_users (uv w)) (c_users (uv w1))" for w1
    by (rule wp_mono [OF start]) (use that admin_ensured_twice in blast)+
  show ?thesis
    by (rule wp_mono [OF start]) (use again in auto)
qed

theorem admin_created_once_witness:
  "wp (startup ref_container ref_crypto)
    (\<lambda>_ w1. (\<exists>m. c_users (ref_uv w1) = [''admin'' \<mapsto> m] \<and> um_role m = ''admin'') \<and>
       wp (startup ref_container ref_crypto) (\<lambda>_ w2. c_users (ref_uv w2) = c_users (ref_uv w1))
         (\<lambda>_ w2. c_users (ref_uv w2) = c_users (ref_uv w1)) w1)
    (\<lambda>_ _. True) (ref_world [] empty_redis)"
proof -
  have "admin_username default_Settings = ''admin''" by (simp add: default_Settings_def)
  then show ?thesis
    by (intro wp_mono [OF admin_created_once [OF ref_accounts.accounts_axioms]])
      (auto simp: admin_ensured_def)
qed

section \<open>Submitting over HTTP\<close>

text \<open>The limiter's account is apart from the tables and the queues.\<close>

lemma limited_keeps:
  assumes "\<And>v. dbv (snd (ap_hit a v)) = dbv v \<and> qv (snd (ap_hit a v)) = qv v"
    and "\<And>w'. dbv w' = dbv w \<Longrightarrow> qv w' = qv w \<Longrightarrow> Q () w'"
    and "\<And>e w'. dbv w' = dbv w \<Longrightarrow> E e w'"
  shows "wp (limited a) Q E w"
  using assms(1) [of w] by (cases "ap_hit a w") (simp add: wp_def limited_def assms(2,3))

lemma submit_route_wp:
  assumes "container (ap_container a) sv rv pe"
    and "auth_of a cred w = (Inr ctx, w)" and "au_role ctx \<in> {''admin'', ''user''}"
    and "\<And>v. db_of sv (snd (ap_hit a v)) = db_of sv v \<and> queue_of rv (snd (ap_hit a v)) = queue_of rv v"
    and "SubmitTaskRequest_broken r = []" and "r_scheduled_at r = None"
  shows "wp (route a cred (Post_task r))
    (\<lambda>b w'. \<exists>t. b = Task_body (task_to_response t) \<and>
       accepted r (priority_levels (c_settings (ap_container a))) (db_of sv w) (queue_of rv w) t (db_of sv w') (queue_of rv w'))
    (\<lambda>e w'. refused (ap_container a) (db_of sv) r (db_of sv w) (db_of sv w')) w"
proof -
  have role: "wp (with_role a cred [''admin'', ''user'']) Q E w \<longleftrightarrow> Q () w" for Q E
    using role_admits [OF assms(2), of "[''admin'', ''user'']"] assms(3) by (simp add: wp_def)
  obtain ex where ex: "ExecutorType_of (r_executor_type r) = Inr ex" "0 \<le> r_priority r"
    using valid_request [OF assms(5)] by blast
  have fields: "validated a (SubmitTaskRequest_broken r) = ret ()" by (simp add: validated_def assms(5))
  show ?thesis
    unfolding route.simps with_body_def submit_task_def fields wp_simps role in_session_def wp_session_map
  proof (rule limited_keeps [where dbv = "db_of sv" and qv = "queue_of rv", OF assms(4)], goal_cases)
    case (1 w')
    show ?case
      by (rule wp_mono [OF session_accept_wp [OF assms(1) ex assms(6)]]) (use 1 in auto)
  qed (simp add: refused_def)
qed

text \<open>
  C9. What the answer to a submission for now says. The answer 202 to a key that no committed
  task has means that the task is in the database and in the queue: the table has exactly one
  more row, QUEUED with the request's fields, under the identifier in the answer, the journal its
  two events, and the identifier stands at the tail of the ready list of its priority. The answer
  202 to a key that a committed task has carries this task, and nothing has changed. Any other
  answer (429, a payload over the limit, an internal error) means that neither the committed
  tasks nor the events have changed, unless the answer to the commit itself, or to the closing of
  the session after it, was lost. The request must pass the declared constraints.
\<close>

theorem accepted_submission:
  assumes "container (ap_container a) sv rv pe"
    and "fst (auth_of a cred w) = Inr ctx" and "au_role ctx \<in> {''admin'', ''user''}"
    and "\<And>v. db_of sv (snd (ap_hit a v)) = db_of sv v \<and> queue_of rv (snd (ap_hit a v)) = queue_of rv v"
    and "SubmitTaskRequest_broken r = []" and "r_scheduled_at r = None"
  shows "case serve a rid cred (Post_task r) w of
      (Success s b, w') \<Rightarrow> s = 202 \<and> (\<exists>t. b = Task_body (task_to_response t) \<and>
        accepted r (priority_levels (c_settings (ap_container a))) (db_of sv w) (queue_of rv w) t (db_of sv w') (queue_of rv w'))
    | (_, w') \<Rightarrow> refused (ap_container a) (db_of sv) r (db_of sv w) (db_of sv w')"
proof -
  have "auth_of a cred w = (Inr ctx, w)"
    by (cases rule: auth_of_cases [of a cred w]) (use assms(2) in simp_all)
  from serve_wp [OF submit_route_wp [OF assms(1) this assms(3-6)], of rid]
  show ?thesis by (auto split: prod.splits response.splits)
qed

theorem accepted_submission_witness:
  "case serve ref_app None \<lparr>cred_api_key = None, cred_bearer = Some user_token\<rparr> (Post_task ref_request)
      (ref_world [] empty_redis) of
      (Success s b, w') \<Rightarrow> s = 202 \<and> (\<exists>t row. b = Task_body (task_to_response t) \<and> queued_as ref_request row \<and>
        committed (ref_dbv w') = [task_id t \<mapsto> row])
    | (_, w') \<Rightarrow> committed (ref_dbv w') = Map.empty \<and> committed_events (ref_dbv w') = []"
proof -
  have "SubmitTaskRequest_broken ref_request = []" "r_scheduled_at ref_request = None"
    "r_idempotency_key ref_request = None" by code_simp+
  then show ?thesis
    using accepted_submission [of ref_app ref_sv ref_rv driver_error
        "\<lparr>cred_api_key = None, cred_bearer = Some user_token\<rparr>" "ref_world [] empty_redis"
        "\<lparr>au_subject = ''ann'', au_role = ''user'', au_type = ''jwt''\<rparr>" ref_request None]
    by (auto simp: user_token_decodes ref.container_axioms unused_key_def accepted_def refused_def submitted_def
        adds_submission_def ref_commit_kept split: prod.splits response.splits simp del: split_paired_Ex)
qed

section \<open>Rows of accepted requests\<close>

text \<open>
  C14. The row that a submission builds from a request which its model accepts fits the columns
  of \<^verbatim>\<open>tasks\<close> one by one (the types, the declared lengths, four-byte integers, a value wherever
  null is not allowed, a zone in every time) exactly if the request holds no zero character,
  no infinity and no not-a-number. Those are accepted by the model and refused by the database.
\<close>

theorem accepted_rows_fit:
  assumes "SubmitTaskRequest_broken r = []" and "Priority (r_priority r) = Inr prio"
  shows "wp (andThen (create_task x r ex prio) (to_model_task rt))
    (\<lambda>m _. row_fits tasks_table (task_cells m) \<longleftrightarrow> storable_request r) (\<lambda>_ _. True) w"
proof -
  have "prio = r_priority r" using assms(2) by (simp add: Priority_def split: if_splits)
  then show ?thesis
    unfolding create_task_def
    by (auto simp: wp_simps wp_now wp_uuid4 created_row_fits [OF assms(1)] split: sum.split intro!: to_model_task_wp)
qed

text \<open>A request whose backoff multiplier is infinite.\<close>

definition infinite_request :: SubmitTaskRequest where
  "infinite_request = ref_request\<lparr>r_backoff_policy := Some (default_BackoffPolicy\<lparr>multiplier := PosInf\<rparr>)\<rparr>"

theorem accepted_rows_fit_witness:
  "\<exists>m w'. andThen (create_task (container_services ref_container) infinite_request PYTHON 2) (to_model_task ref_runtime)
       (ref_world [] empty_redis) = (Inr m, w') \<and> \<not> row_fits tasks_table (task_cells m)"
proof -
  have "SubmitTaskRequest_broken infinite_request = []" "Priority (r_priority infinite_request) = Inr 2"
    "\<not> storable_request infinite_request"
    by code_simp+
  then have "wp (andThen (create_task (container_services ref_container) infinite_request PYTHON 2) (to_model_task ref_runtime))
      (\<lambda>m _. \<not> row_fits tasks_table (task_cells m)) (\<lambda>_ _. True) (ref_world [] empty_redis)"
    by (intro wp_mono [OF accepted_rows_fit]) simp_all
  then show ?thesis
    by (simp add: wp_def create_task_def andThen_def now_def uuid4_def in_future_def Task_create_def
        to_model_task_def or_now_def ret_def from_sum_def ref_runtime_def ref_request_def infinite_request_def)
qed

end
