(* ===== verification/App.thy ===== *)
theory App
  imports Api "HOL-Library.AList"
begin

text \<open>
  \<^verbatim>\<open>api/main.py\<close>: the application that \<^verbatim>\<open>create_app\<close> puts together, its routes in the order in
  which they are added, and the middlewares \<^verbatim>\<open>api/middleware/request_id.py\<close> and
  \<^verbatim>\<open>observability/metrics.py\<close> around them. Starlette tries the routes in this order; a path that
  matches with another method only is answered with 405. The middlewares of the libraries (CORS
  and the limiter's) are one parameter, and so is what the framework reads from a body or a query.
\<close>

section \<open>The routes\<close>

datatype endpoint =
    Openapi | Docs | Docs_redirect | Redoc
  | Login
  | Health | Ready | Metrics
  | Submit_one | Get_one | List_all | Cancel_one | Retry_one | Events_of
  | Register_worker | List_workers | Stats
  | Protected_metrics

record route_entry =
  re_verbs :: "string list"
  re_path :: string
  re_endpoint :: endpoint

definition Get_route :: "string \<Rightarrow> endpoint \<Rightarrow> route_entry" where
  "Get_route p e = \<lparr>re_verbs = [''GET''], re_path = p, re_endpoint = e\<rparr>"

definition Post_route :: "string \<Rightarrow> endpoint \<Rightarrow> route_entry" where
  "Post_route p e = \<lparr>re_verbs = [''POST''], re_path = p, re_endpoint = e\<rparr>"

definition Page_route :: "string \<Rightarrow> endpoint \<Rightarrow> route_entry" where
  "Page_route p e = \<lparr>re_verbs = [''GET'', ''HEAD''], re_path = p, re_endpoint = e\<rparr>"

text \<open>The routers, in the order of their files, without the prefix of the version.\<close>

definition auth_router :: "route_entry list" where
  "auth_router = [Post_route ''/auth/login'' Login]"

definition v1_router :: "route_entry list" where
  "v1_router =
     [Get_route ''/health'' Health,
      Get_route ''/ready'' Ready,
      Get_route ''/metrics'' Metrics,
      Post_route ''/tasks'' Submit_one,
      Get_route ''/tasks/{task_id}'' Get_one,
      Get_route ''/tasks'' List_all,
      Post_route ''/tasks/{task_id}/cancel'' Cancel_one,
      Post_route ''/tasks/{task_id}/retry'' Retry_one,
      Get_route ''/tasks/{task_id}/events'' Events_of,
      Post_route ''/workers/register'' Register_worker,
      Get_route ''/workers'' List_workers,
      Get_route ''/admin/stats'' Stats]"

definition include_router :: "string \<Rightarrow> route_entry list \<Rightarrow> route_entry list" where
  "include_router prefix rs = map (\<lambda>r. r\<lparr>re_path := prefix @ re_path r\<rparr>) rs"

text \<open>
  The constructor adds the pages of the documentation, then come the two routers and, when
  the setting asks for it, the route with credentials for the metrics.
\<close>

definition app_routes :: "Settings \<Rightarrow> route_entry list" where
  "app_routes st =
     (if enable_docs st
      then [Page_route ''/openapi.json'' Openapi, Page_route ''/docs'' Docs,
            Page_route ''/docs/oauth2-redirect'' Docs_redirect, Page_route ''/redoc'' Redoc]
      else []) @
     include_router ''/v1'' auth_router @ include_router ''/v1'' v1_router @
     (if metrics_require_auth st then [Get_route ''/v1/metrics'' Protected_metrics] else [])"

section \<open>Matching\<close>

text \<open>
  A parameter takes a non-empty piece without a slash. The pattern ends with \<^verbatim>\<open>$\<close>, which also
  matches before a line end that ends the path.
\<close>

definition is_param :: "string \<Rightarrow> bool" where
  "is_param t \<longleftrightarrow> starts_with t ''{''"

fun match_pieces :: "string list \<Rightarrow> string list \<Rightarrow> string list option" where
  "match_pieces [] [] = Some []"
| "match_pieces (t # ts) (p # ps) =
     (if is_param t
      then (if p = [] then None else map_option ((#) p) (match_pieces ts ps))
      else (if p = t then match_pieces ts ps else None))"
| "match_pieces _ _ = None"

definition match_path :: "string \<Rightarrow> string \<Rightarrow> string list option" where
  "match_path template path =
     (case match_pieces (split_on CHR ''/'' template) (split_on CHR ''/'' path) of
        Some ps \<Rightarrow> Some ps
      | None \<Rightarrow>
          if path \<noteq> [] \<and> last path = CHR 0x0A
          then match_pieces (split_on CHR ''/'' template) (split_on CHR ''/'' (butlast path)) else None)"

datatype found =
    Found endpoint string "string list"
  | Wrong_method endpoint string
  | Redirect
  | Not_found

fun full_match :: "route_entry list \<Rightarrow> string \<Rightarrow> string \<Rightarrow> found option" where
  "full_match [] verb path = None"
| "full_match (r # rs) verb path =
     (case match_path (re_path r) path of
        Some ps \<Rightarrow> if verb \<in> set (re_verbs r) then Some (Found (re_endpoint r) (re_path r) ps)
                 else full_match rs verb path
      | None \<Rightarrow> full_match rs verb path)"

definition partial_match :: "route_entry list \<Rightarrow> string \<Rightarrow> route_entry option" where
  "partial_match rs path = find (\<lambda>r. match_path (re_path r) path \<noteq> None) rs"

text \<open>The other spelling of a path, with or without a slash at its end.\<close>

definition toggle_slash :: "string \<Rightarrow> string" where
  "toggle_slash path =
     (if path \<noteq> [] \<and> last path = CHR ''/'' then rev (dropWhile (\<lambda>c. c = CHR ''/'') (rev path))
      else path @ ''/'')"

definition find_route :: "route_entry list \<Rightarrow> string \<Rightarrow> string \<Rightarrow> found" where
  "find_route rs verb path =
     (case full_match rs verb path of
        Some f \<Rightarrow> f
      | None \<Rightarrow> (case partial_match rs path of
          Some r \<Rightarrow> Wrong_method (re_endpoint r) (re_path r)
        | None \<Rightarrow> if path \<noteq> ''/'' \<and> partial_match rs (toggle_slash path) \<noteq> None then Redirect else Not_found))"

section \<open>Requests\<close>

text \<open>
  What the framework makes of a request: for every kind of argument either the errors to
  report or the value, and the errors of a body that is no JSON, which it finds first.
\<close>

record arguments =
  arg_unreadable :: "pyval list option"
  arg_task :: "pyval list + SubmitTaskRequest"
  arg_login :: "pyval list + string \<times> string"
  arg_worker :: "pyval list + string \<times> (string \<times> string) list"
  arg_query :: "pyval list + task_query"

record incoming =
  in_verb :: string
  in_path :: string
  in_credentials :: Credentials
  in_request_id :: "string option"
  in_arguments :: arguments

datatype app_body =
    Api_body api_body
  | Token_body TokenResponse
  | Health_body HealthResponse
  | Text_body string
  | Page_body endpoint

definition readable :: "arguments \<Rightarrow> ('w, api_exn, 'a) program \<Rightarrow> ('w, api_exn, 'a) program" where
  "readable args m = (case arg_unreadable args of None \<Rightarrow> m | Some es \<Rightarrow> throw (RequestValidationError es))"

text \<open>The dependencies of an endpoint run before the errors of its arguments are reported.\<close>

definition with_argument ::
  "('w, api_exn, unit) program \<Rightarrow> (pyval list + 'x) \<Rightarrow> ('x \<Rightarrow> ('w, api_exn, 'a) program) \<Rightarrow> ('w, api_exn, 'a) program" where
  "with_argument guard x m =
     (case x of Inl es \<Rightarrow> andThen guard (\<lambda>_. throw (RequestValidationError es)) | Inr v \<Rightarrow> m v)"

definition protected_metrics :: "'w Application \<Rightarrow> Credentials \<Rightarrow> ('w, api_exn, string) program" where
  "protected_metrics a cred = andThen (with_credentials a cred) (\<lambda>_. metrics_text a)"

definition call_endpoint ::
  "'w Application \<Rightarrow> incoming \<Rightarrow> endpoint \<Rightarrow> string list \<Rightarrow> ('w, api_exn, app_body) program" where
  "call_endpoint a q e ps =
     (let cred = in_credentials q; args = in_arguments q; api = (\<lambda>r. with_body Api_body (route a cred r));
          i = hd (ps @ [[]])
      in case e of
        Login \<Rightarrow> readable args (with_argument (ret ()) (arg_login args)
          (\<lambda>(u, p). with_body Token_body (login_route a u p)))
      | Health \<Rightarrow> ret (Health_body health)
      | Ready \<Rightarrow> with_body Health_body (readiness a)
      | Metrics \<Rightarrow> with_body Text_body (metrics_text a)
      | Protected_metrics \<Rightarrow> with_body Text_body (protected_metrics a cred)
      | Submit_one \<Rightarrow> readable args (with_argument (with_role a cred [''admin'', ''user'']) (arg_task args)
          (\<lambda>r. api (Post_task r)))
      | Get_one \<Rightarrow> api (Get_task i)
      | List_all \<Rightarrow> with_argument (with_credentials a cred) (arg_query args) (\<lambda>query. api (Get_tasks query))
      | Cancel_one \<Rightarrow> api (Post_cancel i)
      | Retry_one \<Rightarrow> api (Post_retry i)
      | Events_of \<Rightarrow> api (Get_events i)
      | Register_worker \<Rightarrow> readable args (with_argument (with_role a cred [''admin'', ''worker'']) (arg_worker args)
          (\<lambda>(h, m). api (Post_worker h m)))
      | List_workers \<Rightarrow> api Get_workers
      | Stats \<Rightarrow> api Get_stats
      | page \<Rightarrow> ret (Page_body page))"

fun endpoint_code :: "endpoint \<Rightarrow> int" where
  "endpoint_code Submit_one = 202"
| "endpoint_code Register_worker = 201"
| "endpoint_code _ = 200"

section \<open>The application\<close>

text \<open>A response with the template of its route and the header that the middleware adds.\<close>

record reply =
  rp_response :: "app_body response"
  rp_template :: "string option"
  rp_request_id :: "string option"

definition plain_reply :: "app_body response \<Rightarrow> string option \<Rightarrow> reply" where
  "plain_reply r t = \<lparr>rp_response = r, rp_template = t, rp_request_id = None\<rparr>"

definition framework_error :: "int \<Rightarrow> string \<Rightarrow> app_body response" where
  "framework_error status d = Failure status [(''detail'', PStr d)]"

text \<open>The route of a page leaves no template in the scope.\<close>

definition template_of :: "endpoint \<Rightarrow> string \<Rightarrow> string option" where
  "template_of e t = (if e \<in> {Openapi, Docs, Docs_redirect, Redoc} then None else Some t)"

definition router :: "'w Application \<Rightarrow> incoming \<Rightarrow> string \<Rightarrow> 'w \<Rightarrow> reply \<times> 'w" where
  "router a q rid w =
     (case find_route (app_routes (c_settings (ap_container a))) (in_verb q) (in_path q) of
        Found e t ps \<Rightarrow>
          (case respond (Some rid) (endpoint_code e) (call_endpoint a q e ps) w of
             (r, w') \<Rightarrow> (plain_reply r (template_of e t), w'))
      | Wrong_method e t \<Rightarrow> (plain_reply (framework_error 405 ''Method Not Allowed'') (template_of e t), w)
      | Redirect \<Rightarrow> (plain_reply (Failure 307 []) None, w)
      | Not_found \<Rightarrow> (plain_reply (framework_error 404 ''Not Found'') None, w))"

text \<open>
  \<^verbatim>\<open>RequestIdMiddleware\<close>: the default of \<^verbatim>\<open>headers.get\<close> is computed in every case. An
  unhandled exception passes through, so its answer has no header.
\<close>

definition request_id_dispatch ::
  "'w runtime \<Rightarrow> string option \<Rightarrow> (string \<Rightarrow> 'w \<Rightarrow> reply \<times> 'w) \<Rightarrow> 'w \<Rightarrow> reply \<times> 'w" where
  "request_id_dispatch rt header call_next w =
     (case rt_uuid4 rt w of (u, w1) \<Rightarrow>
        let rid = (case header of None \<Rightarrow> uuid_str u | Some h \<Rightarrow> h) in
        case call_next rid w1 of (r, w2) \<Rightarrow>
          (if rp_response r = Internal_error then r else r\<lparr>rp_request_id := Some rid\<rparr>, w2))"

definition ends_with :: "string \<Rightarrow> string \<Rightarrow> bool" where
  "ends_with s p \<longleftrightarrow> starts_with (rev s) (rev p)"

definition prometheus_dispatch ::
  "'w runtime \<Rightarrow> string \<Rightarrow> string \<Rightarrow> ('w \<Rightarrow> reply \<times> 'w) \<Rightarrow> 'w \<Rightarrow> reply \<times> 'w" where
  "prometheus_dispatch rt path verb call_next w =
     (if ends_with path ''/metrics'' then call_next w
      else
        case rt_now rt w of (start, w1) \<Rightarrow>
        case call_next w1 of (r, w2) \<Rightarrow>
          (if rp_response r = Internal_error then (r, w2)
           else
             case rt_now rt w2 of (stop, w3) \<Rightarrow>
             let endpoint = (case rp_template r of None \<Rightarrow> path | Some p \<Rightarrow> p) in
             (r, rt_metric rt (HTTP_LATENCY verb endpoint (stop - start))
                   (rt_metric rt (HTTP_REQUESTS verb endpoint (show_int (response_status (rp_response r)))) w3))))"

text \<open>The last middleware that is added is the outermost.\<close>

type_synonym 'w middleware = "incoming \<Rightarrow> ('w \<Rightarrow> reply \<times> 'w) \<Rightarrow> 'w \<Rightarrow> reply \<times> 'w"

definition app_serve :: "'w Application \<Rightarrow> 'w middleware \<Rightarrow> incoming \<Rightarrow> 'w \<Rightarrow> reply \<times> 'w" where
  "app_serve a cors_and_limits q =
     (let rt = c_runtime (ap_container a) in
      prometheus_dispatch rt (in_path q) (in_verb q)
        (request_id_dispatch rt (in_request_id q)
          (\<lambda>rid. cors_and_limits q (router a q rid))))"

section \<open>The OpenAPI document\<close>

text \<open>
  \<^verbatim>\<open>custom_openapi\<close> over the document that the framework makes of the routes: the two ways to
  authenticate are added, and the document is made once.
\<close>

definition sub_dict :: "pydict \<Rightarrow> string \<Rightarrow> pydict" where
  "sub_dict d k = (case dict_get d k (PDict []) of PDict x \<Rightarrow> x | _ \<Rightarrow> [])"

definition with_security :: "pydict \<Rightarrow> pydict" where
  "with_security d =
     (let components = sub_dict d ''components''; schemes = sub_dict components ''securitySchemes'';
          schemes = AList.update ''ApiKeyAuth''
            (PDict [(''type'', PStr ''apiKey''), (''in'', PStr ''header''), (''name'', PStr ''X-API-Key'')]) schemes;
          schemes = AList.update ''BearerAuth''
            (PDict [(''type'', PStr ''http''), (''scheme'', PStr ''bearer''), (''bearerFormat'', PStr ''JWT'')]) schemes
      in AList.update ''components'' (PDict (AList.update ''securitySchemes'' (PDict schemes) components)) d)"

definition custom_openapi :: "pydict \<Rightarrow> pydict option \<Rightarrow> pydict \<times> pydict option" where
  "custom_openapi generated cached =
     (case cached of
        Some d \<Rightarrow> if d \<noteq> [] then (d, cached) else (with_security generated, Some (with_security generated))
      | None \<Rightarrow> (with_security generated, Some (with_security generated)))"

lemma openapi_made_once:
  "custom_openapi g' (snd (custom_openapi g None)) = custom_openapi g None"
  by (simp add: custom_openapi_def with_security_def Let_def)

text \<open>The schemes are there, and the rest of the document is as the framework made it.\<close>

lemma with_security_adds:
  "map_of (sub_dict (sub_dict (with_security d) ''components'') ''securitySchemes'') k =
     ((map_of (sub_dict (sub_dict d ''components'') ''securitySchemes''))
       (''ApiKeyAuth'' \<mapsto> PDict [(''type'', PStr ''apiKey''), (''in'', PStr ''header''), (''name'', PStr ''X-API-Key'')],
        ''BearerAuth'' \<mapsto> PDict [(''type'', PStr ''http''), (''scheme'', PStr ''bearer''), (''bearerFormat'', PStr ''JWT'')])) k"
  by (simp add: with_security_def Let_def sub_dict_def dict_get_def update_conv')

lemma with_security_keeps:
  "k \<noteq> ''components'' \<Longrightarrow> map_of (with_security d) k = map_of d k"
  "k \<noteq> ''securitySchemes'' \<Longrightarrow>
     map_of (sub_dict (with_security d) ''components'') k = map_of (sub_dict d ''components'') k"
  by (simp_all add: with_security_def Let_def sub_dict_def dict_get_def update_conv')

end
