(* ===== verification/Client.thy ===== *)
theory Client
  imports App Webhook Schema
begin

text \<open>
  \<^verbatim>\<open>sdk/client.py\<close>: the client library, over the HTTP client that the webhooks use too, and
  the interface between it and a transport that hands its requests to the application. How
  a request becomes JSON and a response a Python value is the libraries' and a parameter.
\<close>

section \<open>The client\<close>

record SdkClient =
  sdk_base_url :: string
  sdk_headers :: pyval
  sdk_timeout :: int

definition rstrip_slash :: "string \<Rightarrow> string" where
  "rstrip_slash s = rev (dropWhile (\<lambda>c. c = CHR ''/'') (rev s))"

text \<open>With a client of the caller's own, its headers and its timeout are used, and no key is added.\<close>

definition AtlasQueueClient :: "string \<Rightarrow> string \<Rightarrow> (pyval \<times> int) option \<Rightarrow> SdkClient" where
  "AtlasQueueClient base_url key own =
     (case own of
        None \<Rightarrow> \<lparr>sdk_base_url = rstrip_slash base_url, sdk_headers = PDict [(''X-API-Key'', PStr key)], sdk_timeout = 30\<rparr>
      | Some (headers, timeout) \<Rightarrow>
          \<lparr>sdk_base_url = rstrip_slash base_url, sdk_headers = headers, sdk_timeout = timeout\<rparr>)"

definition sdk_request :: "SdkClient \<Rightarrow> string \<Rightarrow> string \<Rightarrow> pydict option \<Rightarrow> HttpRequest" where
  "sdk_request k verb path json =
     \<lparr>hq_method = verb, hq_url = sdk_base_url k @ path, hq_headers = sdk_headers k, hq_json = json,
      hq_content = None, hq_timeout = sdk_timeout k\<rparr>"

definition sdk_call :: "'w HttpClient \<Rightarrow> HttpRequest \<Rightarrow> ('w, pyval) prog" where
  "sdk_call hc q =
     andThen (hc_request hc q) (\<lambda>response.
     andThen (from_sum (hc_raise_for_status hc response)) (\<lambda>_.
     from_sum (hr_json response)))"

text \<open>The request model checks its fields as it is built, before anything is sent.\<close>

definition sdk_submit_task ::
  "'w HttpClient \<Rightarrow> (SubmitTaskRequest \<Rightarrow> pydict) \<Rightarrow> SdkClient \<Rightarrow> SubmitTaskRequest \<Rightarrow> ('w, pyval) prog" where
  "sdk_submit_task hc model_dump k r =
     (if SubmitTaskRequest_broken r \<noteq> [] then throw (LibraryError ''ValidationError'')
      else sdk_call hc (sdk_request k ''POST'' ''/v1/tasks'' (Some (model_dump r))))"

definition sdk_get_task :: "'w HttpClient \<Rightarrow> SdkClient \<Rightarrow> string \<Rightarrow> ('w, pyval) prog" where
  "sdk_get_task hc k i = sdk_call hc (sdk_request k ''GET'' (''/v1/tasks/'' @ i) None)"

definition sdk_cancel_task :: "'w HttpClient \<Rightarrow> SdkClient \<Rightarrow> string \<Rightarrow> ('w, pyval) prog" where
  "sdk_cancel_task hc k i = sdk_call hc (sdk_request k ''POST'' (''/v1/tasks/'' @ i @ ''/cancel'') None)"

section \<open>A transport to the application\<close>

text \<open>
  The HTTP client whose requests are served by the application in the same world; \<open>parse\<close> is what
  the server makes of a request and \<open>render\<close> what the client makes of a reply.
\<close>

definition served_by ::
  "'w Application \<Rightarrow> 'w middleware \<Rightarrow> (HttpRequest \<Rightarrow> incoming) \<Rightarrow> (reply \<Rightarrow> HttpResponse) \<Rightarrow>
   (HttpResponse \<Rightarrow> exn + unit) \<Rightarrow> 'w HttpClient" where
  "served_by a cors_and_limits parse render check =
     \<lparr>hc_request = (\<lambda>q w. case app_serve a cors_and_limits (parse q) w of (r, w') \<Rightarrow> (Inr (render r), w')),
      hc_raise_for_status = check\<rparr>"

text \<open>A key that a header carries as it is: visible ASCII characters.\<close>

definition header_text :: "string \<Rightarrow> bool" where
  "header_text s \<longleftrightarrow> s \<noteq> [] \<and> (\<forall>c \<in> set s. (of_char c :: nat) \<in> {33..126})"

text \<open>
  What the client library relies on: the path after the server's address, the key's header and
  the body arrive, an answer's status and body come back, and a status that is no success raises.
\<close>

locale transport =
  fixes base :: string
    and model_dump :: "SubmitTaskRequest \<Rightarrow> pydict"
    and to_json :: "TaskResponse \<Rightarrow> pyval"
    and parse :: "HttpRequest \<Rightarrow> incoming"
    and render :: "reply \<Rightarrow> HttpResponse"
    and check :: "HttpResponse \<Rightarrow> exn + unit"
  assumes path_arrives: "hq_url q = base @ p \<Longrightarrow> p \<noteq> [] \<Longrightarrow> hd p = CHR ''/'' \<Longrightarrow> CHR ''?'' \<notin> set p \<Longrightarrow> CHR ''#'' \<notin> set p \<Longrightarrow>
      CHR ''%'' \<notin> set p \<Longrightarrow> in_path (parse q) = p \<and> in_verb (parse q) = hq_method q"
    and key_arrives: "header_text key \<Longrightarrow> hq_headers q = PDict [(''X-API-Key'', PStr key)] \<Longrightarrow>
      in_credentials (parse q) = \<lparr>cred_api_key = Some key, cred_bearer = None\<rparr>"
    and body_arrives: "hq_json q = Some (model_dump r) \<Longrightarrow> SubmitTaskRequest_broken r = [] \<Longrightarrow> storable_request r \<Longrightarrow>
      arg_unreadable (in_arguments (parse q)) = None \<and> arg_task (in_arguments (parse q)) = Inr r"
    and status_returns: "hr_status (render rep) = response_status (rp_response rep)"
    and task_returns: "rp_response rep = Success s (Api_body (Task_body t)) \<Longrightarrow> hr_json (render rep) = Inr (to_json t)"
    and success_passes: "check resp = Inr () \<longleftrightarrow> 200 \<le> hr_status resp \<and> hr_status resp < 300"

context transport
begin

text \<open>A call over the transport: what it returns or raises, in terms of the application's reply.\<close>

lemma sdk_call_wp:
  assumes "\<And>rep w'. app_serve a lib (parse q) w = (rep, w') \<Longrightarrow>
      (\<forall>v. 200 \<le> response_status (rp_response rep) \<longrightarrow> response_status (rp_response rep) < 300 \<longrightarrow>
         hr_json (render rep) = Inr v \<longrightarrow> Q v w') \<and>
      (\<forall>e. (hr_json (render rep) = Inl e \<or> \<not> (200 \<le> response_status (rp_response rep) \<and>
         response_status (rp_response rep) < 300)) \<longrightarrow> E e w')"
  shows "wp (sdk_call (served_by a lib parse render check) q) Q E w"
proof -
  obtain rep w' where s: "app_serve a lib (parse q) w = (rep, w')" by (metis prod.exhaust)
  have "check (render rep) = Inr () \<longleftrightarrow>
      200 \<le> response_status (rp_response rep) \<and> response_status (rp_response rep) < 300"
    by (simp add: success_passes status_returns)
  with assms [OF s] s show ?thesis
    by (cases "check (render rep)"; cases "hr_json (render rep)")
      (auto simp: wp_def sdk_call_def served_by_def andThen_def from_sum_def)
qed

end

end
