(* ===== verification/Loopback.thy ===== *)
theory Loopback
  imports Reference Client
begin

text \<open>
  A transport over which the laws of the client library's interface hold: requests are handed to
  the application of the theory Reference as they are, a request's JSON has one entry per field.
\<close>

section \<open>Requests as JSON\<close>

definition opt_json :: "('a \<Rightarrow> pyval) \<Rightarrow> 'a option \<Rightarrow> pyval" where
  "opt_json f x = (case x of None \<Rightarrow> PNone | Some v \<Rightarrow> f v)"

fun time_json :: "pydatetime \<Rightarrow> pyval" where
  "time_json (Aware t) = PInt t"
| "time_json (Naive t) = PList [PInt t]"

fun float_json :: "pyfloat \<Rightarrow> pyval" where
  "float_json (Finite q) = (case quotient_of q of (n, d) \<Rightarrow> PList [PInt n, PInt d])"
| "float_json _ = PNone"

definition policy_json :: "BackoffPolicy \<Rightarrow> pyval" where
  "policy_json p =
     PDict [(''strategy'', PStr (strategy p)), (''base_delay_seconds'', PInt (base_delay_seconds p)),
       (''max_delay_seconds'', PInt (max_delay_seconds p)), (''multiplier'', float_json (multiplier p))]"

definition ref_dump :: "SubmitTaskRequest \<Rightarrow> pydict" where
  "ref_dump r =
     [(''name'', PStr (r_name r)), (''executor_type'', PStr (r_executor_type r)), (''payload'', PDict (r_payload r)),
      (''priority'', PInt (r_priority r)), (''scheduled_at'', opt_json time_json (r_scheduled_at r)),
      (''max_retries'', PInt (r_max_retries r)), (''timeout_seconds'', PInt (r_timeout_seconds r)),
      (''backoff_policy'', opt_json policy_json (r_backoff_policy r)),
      (''idempotency_key'', opt_json PStr (r_idempotency_key r))]"

section \<open>Reading it back\<close>

fun json_str :: "pyval \<Rightarrow> string" where
  "json_str (PStr s) = s" | "json_str _ = []"

fun json_int :: "pyval \<Rightarrow> int" where
  "json_int (PInt n) = n" | "json_int _ = 0"

fun json_dict :: "pyval \<Rightarrow> pydict" where
  "json_dict (PDict d) = d" | "json_dict _ = []"

fun json_time :: "pyval \<Rightarrow> pydatetime" where
  "json_time (PList (v # vs)) = Naive (json_int v)" | "json_time v = Aware (json_int v)"

fun json_float :: "pyval \<Rightarrow> pyfloat" where
  "json_float (PList [n, d]) = Finite (Fract (json_int n) (json_int d))" | "json_float v = NaN"

definition json_opt :: "(pyval \<Rightarrow> 'a) \<Rightarrow> pyval \<Rightarrow> 'a option" where
  "json_opt f v = (if v = PNone then None else Some (f v))"

definition json_policy :: "pyval \<Rightarrow> BackoffPolicy" where
  "json_policy v =
     (let get = (\<lambda>k. dict_get (json_dict v) k PNone)
      in \<lparr>strategy = json_str (get ''strategy''), base_delay_seconds = json_int (get ''base_delay_seconds''),
          max_delay_seconds = json_int (get ''max_delay_seconds''), multiplier = json_float (get ''multiplier'')\<rparr>)"

definition ref_load :: "pydict \<Rightarrow> SubmitTaskRequest" where
  "ref_load d =
     (let get = (\<lambda>k. dict_get d k PNone)
      in \<lparr>r_name = json_str (get ''name''), r_executor_type = json_str (get ''executor_type''),
          r_payload = json_dict (get ''payload''), r_priority = json_int (get ''priority''),
          r_scheduled_at = json_opt json_time (get ''scheduled_at''),
          r_max_retries = json_int (get ''max_retries''), r_timeout_seconds = json_int (get ''timeout_seconds''),
          r_backoff_policy = json_opt json_policy (get ''backoff_policy''),
          r_idempotency_key = json_opt json_str (get ''idempotency_key'')\<rparr>)"

lemma json_time_read: "json_opt json_time (opt_json time_json x) = x"
  by (cases x; cases "the x") (simp_all add: json_opt_def opt_json_def)

lemma json_str_read: "json_opt json_str (opt_json PStr x) = x"
  by (cases x) (simp_all add: json_opt_def opt_json_def)

lemma json_float_read: "finite_float x \<Longrightarrow> json_float (float_json x) = x"
proof (cases x)
  case (Finite q)
  obtain n d where "quotient_of q = (n, d)" by fastforce
  with quotient_of_div [OF this] Finite show ?thesis by (simp add: Fract_of_int_quotient)
qed simp_all

lemma json_policy_read:
  "(case x of None \<Rightarrow> True | Some p \<Rightarrow> finite_float (multiplier p)) \<Longrightarrow> json_opt json_policy (opt_json policy_json x) = x"
  by (cases x) (simp_all add: json_opt_def opt_json_def policy_json_def json_policy_def dict_get_def json_float_read)

lemma ref_load_dump: "storable_request r \<Longrightarrow> ref_load (ref_dump r) = r"
  by (simp add: ref_load_def ref_dump_def dict_get_def json_time_read json_str_read json_policy_read storable_request_def)

section \<open>The transport\<close>

definition ref_base :: string where
  "ref_base = ''http://localhost:8000''"

definition ref_parse :: "HttpRequest \<Rightarrow> incoming" where
  "ref_parse q =
     \<lparr>in_verb = hq_method q, in_path = drop (length ref_base) (hq_url q),
      in_credentials = \<lparr>cred_api_key = json_opt json_str (dict_get (json_dict (hq_headers q)) ''X-API-Key'' PNone),
        cred_bearer = None\<rparr>,
      in_request_id = None,
      in_arguments = \<lparr>arg_unreadable = None, arg_task = (case hq_json q of None \<Rightarrow> Inl [] | Some d \<Rightarrow> Inr (ref_load d)),
        arg_login = Inl [], arg_worker = Inl [], arg_query = Inr default_task_query\<rparr>\<rparr>"

definition ref_task_json :: "TaskResponse \<Rightarrow> pyval" where
  "ref_task_json t = PDict [(''id'', PStr (resp_id t)), (''name'', PStr (resp_name t)), (''status'', PStr (resp_status t))]"

definition ref_render :: "reply \<Rightarrow> HttpResponse" where
  "ref_render rep =
     \<lparr>hr_status = response_status (rp_response rep),
      hr_json = Inr (case rp_response rep of Success s (Api_body (Task_body t)) \<Rightarrow> ref_task_json t | _ \<Rightarrow> PNone),
      hr_text = []\<rparr>"

definition ref_check :: "HttpResponse \<Rightarrow> exn + unit" where
  "ref_check resp = (if 200 \<le> hr_status resp \<and> hr_status resp < 300 then Inr () else Inl (LibraryError ''HTTPStatusError''))"

interpretation ref_transport: transport ref_base ref_dump ref_task_json ref_parse ref_render ref_check
  by unfold_locales
    (simp_all add: ref_parse_def ref_render_def ref_check_def ref_load_dump json_opt_def dict_get_def)

end
