(* ===== verification/App_Theorems.thy ===== *)
theory App_Theorems
  imports Api_Theorems Loopback
begin

text \<open>
  What the assembled application does before a route runs: which endpoints a request without
  credentials reaches, which route answers where two have the same path, and what a call of the
  client library leaves behind when the application serves it.
\<close>

section \<open>Routing\<close>

lemma full_match_append:
  "full_match (rs @ rs') verb path =
     (case full_match rs verb path of None \<Rightarrow> full_match rs' verb path | Some f \<Rightarrow> Some f)"
  by (induction rs) (auto split: option.split)

lemma full_match_hit:
  assumes "r \<in> set rs" and "match_path (re_path r) path \<noteq> None" and "verb \<in> set (re_verbs r)"
  shows "full_match rs verb path \<noteq> None"
  using assms by (induction rs) (auto split: option.split)

lemma full_match_from:
  "full_match rs verb path = Some (Found e t ps) \<Longrightarrow> \<exists>r \<in> set rs. re_endpoint r = e"
  by (induction rs) (auto split: option.splits if_splits)

definition public :: "endpoint set" where
  "public = {Openapi, Docs, Docs_redirect, Redoc, Login, Health, Ready, Metrics}"

lemma with_argument_refused:
  assumes "guard w = (Inl x, w)" and "\<And>v. m v w = (Inl x, w)"
  shows "with_argument guard y m w = (Inl x, w)"
  using assms by (cases y) (simp_all add: with_argument_def andThen_def)

text \<open>The endpoints that are not public and read a body.\<close>

definition reads_body :: "endpoint set" where
  "reads_body = {Submit_one, Register_worker}"

lemma call_unauthenticated:
  assumes "auth_of a (in_credentials q) w = (Inl x, w)" and "e \<notin> public"
  shows "call_endpoint a q e ps w =
    (case arg_unreadable (in_arguments q) of
       Some es \<Rightarrow> (Inl (if e \<in> reads_body then RequestValidationError es else App x), w)
     | None \<Rightarrow> (Inl (App x), w))"
proof -
  have api: "with_body f (route a (in_credentials q) r) w = (Inl (App x), w)" for f :: "api_body \<Rightarrow> app_body" and r
    by (simp add: with_body_def andThen_def route_unauthenticated [OF assms(1)] del: route.simps)
  have metrics: "with_body Text_body (protected_metrics a (in_credentials q)) w = (Inl (App x), w)"
    by (simp add: with_body_def protected_metrics_def andThen_def guard_refuses [OF assms(1)])
  note guard = guard_refuses [OF assms(1)]
  show ?thesis
    using assms(2)
    by (cases e)
      (simp_all add: call_endpoint_def Let_def readable_def reads_body_def api metrics public_def with_argument_refused guard
        throw_def split: prod.split option.split del: route.simps)
qed

text \<open>
  C11. Without credentials that stand for somebody a request reaches the documentation pages, the
  login, the two probes and the metrics, and nothing else that the application serves. Every other
  endpoint answers 401; or 422, where it takes a body and the body is no JSON, which the
  framework finds before it looks at the credentials; or with an internal error, where a key with a
  character beyond ASCII broke the comparison. A path that has no endpoint is answered with 404,
  405 or a redirection. Nothing changes then.
\<close>

theorem only_public_without_credentials:
  assumes "fst (auth_of a (in_credentials q) w) = Inl x"
  shows "case find_route (app_routes (c_settings (ap_container a))) (in_verb q) (in_path q) of
      Found e t ps \<Rightarrow> e \<in> public \<or>
        (\<exists>r. router a q rid w = (plain_reply r (Some t), w) \<and>
          (if e \<in> reads_body \<and> arg_unreadable (in_arguments q) \<noteq> None then \<exists>d. r = Failure 422 d
           else if badly_encoded a (in_credentials q) then r = Internal_error
           else \<exists>d. r = Failure 401 d))
    | _ \<Rightarrow> \<exists>s d t. router a q rid w = (plain_reply (Failure s d) t, w) \<and> s \<in> {307, 404, 405}"
proof (cases "find_route (app_routes (c_settings (ap_container a))) (in_verb q) (in_path q)")
  case (Found e t ps)
  have auth: "auth_of a (in_credentials q) w = (Inl x, w)"
    by (cases rule: auth_of_cases [of a "in_credentials q" w]) (use assms in simp_all)
  show ?thesis
  proof (cases "e \<in> public")
    case False
    then have t: "template_of e t = Some t" by (simp add: public_def template_of_def)
    have x: "if badly_encoded a (in_credentials q) then \<exists>m. x = TypeError m else \<exists>m. x = AuthenticationError m"
      by (rule auth_of_refuses [OF auth])
    show ?thesis
      using Found False x
      by (cases "e \<in> reads_body")
        (auto simp: router_def respond_def call_unauthenticated [OF auth False] t coded_error_def error_response_def
          validation_response_def split: option.splits if_splits)
  qed (simp add: Found)
qed (auto simp: router_def framework_error_def)

text \<open>A request with neither key nor token, and no arguments.\<close>

definition anonymous :: "string \<Rightarrow> string \<Rightarrow> incoming" where
  "anonymous verb path =
     \<lparr>in_verb = verb, in_path = path, in_credentials = \<lparr>cred_api_key = None, cred_bearer = None\<rparr>,
      in_request_id = None,
      in_arguments = \<lparr>arg_unreadable = None, arg_task = Inl [], arg_login = Inl [], arg_worker = Inl [],
        arg_query = Inl []\<rparr>\<rparr>"

lemma anonymous_auth:
  "fst (auth_of ref_app (in_credentials (anonymous verb path)) w) =
     Inl (AuthenticationError ''Invalid or missing credentials'')"
  by (simp add: auth_of_def anonymous_def resolve_auth_def given_def throw_def andThen_def ret_def)

theorem only_public_without_credentials_witness:
  "\<exists>d. router ref_app (anonymous ''GET'' ''/v1/admin/stats'') [] (ref_world [] empty_redis) =
     (plain_reply (Failure 401 d) (Some ''/v1/admin/stats''), ref_world [] empty_redis)"
proof -
  have "find_route (app_routes default_Settings) ''GET'' ''/v1/admin/stats'' = Found Stats ''/v1/admin/stats'' []"
    by code_simp
  then show ?thesis
    using only_public_without_credentials [OF anonymous_auth, where verb1 = "''GET''"
        and path1 = "''/v1/admin/stats''" and w = "ref_world [] empty_redis" and rid = "[]"]
    by (auto simp: anonymous_def public_def reads_body_def badly_encoded_def given_def)
qed

text \<open>
  C39. The metrics are open whatever \<^verbatim>\<open>METRICS_REQUIRE_AUTH\<close> says. The route with
  credentials is added after the router that already has a route of the same path and method,
  and no request ever reaches it; every request for the metrics, whatever credentials and arguments
  come with it, is answered with their text, and changes nothing.
\<close>

theorem metrics_never_protected:
  "find_route (app_routes st) verb path \<noteq> Found Protected_metrics t ps \<and>
   (in_verb q = ''GET'' \<and> in_path q = ''/v1/metrics'' \<longrightarrow>
     router a q rid w = (plain_reply (Success 200 (Text_body (ap_generate_latest a w))) (Some ''/v1/metrics''), w))"
proof
  show "find_route (app_routes st) verb path \<noteq> Found Protected_metrics t ps"
  proof
    let ?protected = "[Get_route ''/v1/metrics'' Protected_metrics]"
    define rs where "rs = (if enable_docs st
      then [Page_route ''/openapi.json'' Openapi, Page_route ''/docs'' Docs,
            Page_route ''/docs/oauth2-redirect'' Docs_redirect, Page_route ''/redoc'' Redoc]
      else []) @ include_router ''/v1'' auth_router @ include_router ''/v1'' v1_router"
    have routes: "app_routes st = rs @ (if metrics_require_auth st then ?protected else [])"
      by (simp add: app_routes_def rs_def)
    have metrics: "Get_route ''/v1/metrics'' Metrics \<in> set rs"
      by (simp add: rs_def include_router_def v1_router_def Get_route_def)
    have "\<forall>r \<in> set rs. re_endpoint r \<noteq> Protected_metrics"
      by (auto simp: rs_def include_router_def v1_router_def auth_router_def Get_route_def Post_route_def Page_route_def)
    then have first: "full_match rs verb path \<noteq> Some (Found Protected_metrics t ps)"
      using full_match_from by blast
    assume "find_route (app_routes st) verb path = Found Protected_metrics t ps"
    then have full: "full_match (app_routes st) verb path = Some (Found Protected_metrics t ps)"
      by (auto simp: find_route_def split: option.splits if_splits)
    then have "full_match rs verb path = None" and "full_match ?protected verb path \<noteq> None"
      using first by (auto simp: routes full_match_append split: option.splits if_splits)
    then have "match_path ''/v1/metrics'' path \<noteq> None" and "verb = ''GET''"
      by (auto simp: Get_route_def split: option.splits if_splits)
    with full_match_hit [OF metrics, of path verb] \<open>full_match rs verb path = None\<close> show False
      by (simp add: Get_route_def)
  qed
next
  have "find_route (app_routes st) ''GET'' ''/v1/metrics'' = Found Metrics ''/v1/metrics'' []" for st
    by (cases "enable_docs st"; cases "metrics_require_auth st"; simp only: app_routes_def if_True if_False; code_simp)
  then show "in_verb q = ''GET'' \<and> in_path q = ''/v1/metrics'' \<longrightarrow>
     router a q rid w = (plain_reply (Success 200 (Text_body (ap_generate_latest a w))) (Some ''/v1/metrics''), w)"
    by (simp add: router_def call_endpoint_def Let_def with_body_def metrics_text_def andThen_def ret_def
        respond_def template_of_def)
qed

text \<open>A request with a forged token, to an application that is set to protect its metrics.\<close>

theorem metrics_never_protected_witness:
  "router (ref_app\<lparr>ap_container := ref_container\<lparr>c_settings := default_Settings\<lparr>metrics_require_auth := True\<rparr>\<rparr>\<rparr>)
     ((anonymous ''GET'' ''/v1/metrics'')\<lparr>in_credentials := \<lparr>cred_api_key = None, cred_bearer = Some ''forged''\<rparr>\<rparr>)
     [] (ref_world [] empty_redis) =
   (plain_reply (Success 200 (Text_body [])) (Some ''/v1/metrics''), ref_world [] empty_redis)"
  using metrics_never_protected [where a = "ref_app\<lparr>ap_container := ref_container\<lparr>c_settings :=
        default_Settings\<lparr>metrics_require_auth := True\<rparr>\<rparr>\<rparr>" and w = "ref_world [] empty_redis"
      and q = "(anonymous ''GET'' ''/v1/metrics'')\<lparr>in_credentials := \<lparr>cred_api_key = None, cred_bearer = Some ''forged''\<rparr>\<rparr>"
      and rid = "[]"]
  by (simp add: anonymous_def ref_app_def)

section \<open>A call of the client library\<close>










end
