(* ===== verification/Leader.thy ===== *)
theory Leader
  imports Scheduler
begin

text \<open>
  Several scheduler processes over one Redis. A process is interrupted between any two commands
  of \<^verbatim>\<open>RedisLeaderLock\<close>, the key expires, a command raises with its effect done or not, and a
  process is killed at any time. The operations of the lock are written once more as the
  commands they issue; issued through a client, these are the operations of Redis\_Backend.
\<close>

section \<open>The commands of the lock\<close>

text \<open>The rest of an operation: the next command on the key of the lock, or the result.\<close>

datatype 'a lock_cmd =
    Done 'a
  | Set_nx_ex string int "bool \<Rightarrow> 'a lock_cmd"
  | Get "string option \<Rightarrow> 'a lock_cmd"
  | Expire int "'a lock_cmd"
  | Delete "'a lock_cmd"

definition acquire_cmd :: "string \<Rightarrow> int \<Rightarrow> bool lock_cmd" where
  "acquire_cmd owner_id ttl = Set_nx_ex owner_id ttl Done"

definition renew_cmd :: "string \<Rightarrow> int \<Rightarrow> bool lock_cmd" where
  "renew_cmd owner_id ttl =
     Get (\<lambda>current. case current of
         None \<Rightarrow> Done False
       | Some owner \<Rightarrow> if owner \<noteq> owner_id then Done False else Expire ttl (Done True))"

definition release_cmd :: "string \<Rightarrow> unit lock_cmd" where
  "release_cmd owner_id =
     Get (\<lambda>current. case current of
         None \<Rightarrow> Done ()
       | Some owner \<Rightarrow> if owner \<noteq> [] \<and> owner = owner_id then Delete (Done ()) else Done ())"

primrec issue :: "'w RedisClient \<Rightarrow> 'a lock_cmd \<Rightarrow> ('w, 'a) prog" where
  "issue rc (Done x) = ret x"
| "issue rc (Set_nx_ex v ttl k) = andThen (rc_set_nx_ex rc LEADER_LOCK_KEY v ttl) (\<lambda>b. issue rc (k b))"
| "issue rc (Get k) = andThen (rc_get rc LEADER_LOCK_KEY) (\<lambda>v. issue rc (k v))"
| "issue rc (Expire ttl k) = andThen (rc_expire rc LEADER_LOCK_KEY ttl) (\<lambda>_. issue rc k)"
| "issue rc (Delete k) = andThen (rc_delete rc LEADER_LOCK_KEY) (\<lambda>_. issue rc k)"

lemma andThen_ret: "andThen m ret = m"
  by (rule ext) (simp add: andThen_def ret_def split: prod.split sum.split)

text \<open>The commands are those of the modelled operations.\<close>

lemma issue_acquire: "issue rc (acquire_cmd owner ttl) = lock_acquire rc owner ttl"
  by (simp add: acquire_cmd_def lock_acquire_def andThen_ret)

lemma issue_renew: "issue rc (renew_cmd owner ttl) = lock_renew rc owner ttl"
  unfolding renew_cmd_def lock_renew_def issue.simps
  by (rule arg_cong [of _ _ "andThen _"]) (rule ext, simp split: option.split)

lemma issue_release: "issue rc (release_cmd owner) = lock_release rc owner"
  unfolding release_cmd_def lock_release_def issue.simps unit_prog_def
  by (rule arg_cong [of _ _ "andThen _"]) (rule ext, simp split: option.split)

text \<open>One command on the value under the key, which is all that the lock's commands see.\<close>

fun perform :: "'a lock_cmd \<Rightarrow> string option \<Rightarrow> 'a lock_cmd \<times> string option" where
  "perform (Done x) l = (Done x, l)"
| "perform (Set_nx_ex v ttl k) l = (case l of None \<Rightarrow> (k True, Some v) | Some v' \<Rightarrow> (k False, l))"
| "perform (Get k) l = (k l, l)"
| "perform (Expire ttl k) l = (k, l)"
| "perform (Delete k) l = (k, None)"

section \<open>Processes\<close>

text \<open>
  Where a process of \<^verbatim>\<open>run_scheduler\<close> is: in \<^verbatim>\<open>acquire\<close>, in \<^verbatim>\<open>renew\<close>, in the body of the
  inner loop, in the \<^verbatim>\<open>release\<close> of the \<^verbatim>\<open>finally\<close> block (with the flag that an exception
  is on its way), or ended. \<^verbatim>\<open>asyncio.sleep\<close> belongs to the state before the next command.
\<close>

datatype control =
    Acquiring "bool lock_cmd"
  | Renewing "bool lock_cmd"
  | Ticking
  | Releasing bool "unit lock_cmd"
  | Ended

text \<open>What a process does when the operation it is in has returned, or its tick is over.\<close>

fun proceed :: "string \<Rightarrow> int \<Rightarrow> control \<Rightarrow> control" where
  "proceed owner ttl (Acquiring (Done acquired)) =
     (if acquired then Renewing (renew_cmd owner ttl) else Acquiring (acquire_cmd owner ttl))"
| "proceed owner ttl (Renewing (Done renewed)) =
     (if renewed then Ticking else Releasing False (release_cmd owner))"
| "proceed owner ttl Ticking = Renewing (renew_cmd owner ttl)"
| "proceed owner ttl (Releasing raised (Done u)) =
     (if raised then Ended else Acquiring (acquire_cmd owner ttl))"
| "proceed owner ttl c = c"

text \<open>The next command of a process, with the value under the key.\<close>

fun command :: "control \<Rightarrow> string option \<Rightarrow> control \<times> string option" where
  "command (Acquiring k) l = (case perform k l of (k', l') \<Rightarrow> (Acquiring k', l'))"
| "command (Renewing k) l = (case perform k l of (k', l') \<Rightarrow> (Renewing k', l'))"
| "command (Releasing raised k) l = (case perform k l of (k', l') \<Rightarrow> (Releasing raised k', l'))"
| "command c l = (c, l)"

text \<open>Where an exception leads: through the \<^verbatim>\<open>finally\<close> block, if the lock was acquired.\<close>

fun unwind :: "string \<Rightarrow> control \<Rightarrow> control" where
  "unwind owner (Acquiring k) = Ended"
| "unwind owner (Renewing k) = Releasing True (release_cmd owner)"
| "unwind owner Ticking = Releasing True (release_cmd owner)"
| "unwind owner (Releasing raised k) = Ended"
| "unwind owner Ended = Ended"

record 'p Cluster =
  lock_value :: "string option"
  control :: "'p \<Rightarrow> control"

text \<open>
  What happens next: a process issues a command or goes on after one, a command or a tick
  raises (the flag says if the command took effect), a process is killed, the key expires.
\<close>

datatype 'p lock_event = Issues 'p | Proceeds 'p | Raises bool 'p | Killed 'p | Expires

fun happens :: "('p \<Rightarrow> string) \<Rightarrow> int \<Rightarrow> 'p lock_event \<Rightarrow> 'p Cluster \<Rightarrow> 'p Cluster" where
  "happens owner ttl (Issues p) s =
     (case command (control s p) (lock_value s) of (c, l) \<Rightarrow>
        s\<lparr>lock_value := l, control := (control s)(p := c)\<rparr>)"
| "happens owner ttl (Proceeds p) s =
     s\<lparr>control := (control s)(p := proceed (owner p) ttl (control s p))\<rparr>"
| "happens owner ttl (Raises took p) s =
     s\<lparr>lock_value := (if took then snd (command (control s p) (lock_value s)) else lock_value s),
       control := (control s)(p := unwind (owner p) (control s p))\<rparr>"
| "happens owner ttl (Killed p) s = s\<lparr>control := (control s)(p := Ended)\<rparr>"
| "happens owner ttl Expires s = s\<lparr>lock_value := None\<rparr>"

text \<open>Every process starts with its first \<^verbatim>\<open>acquire\<close>; the key is free.\<close>

definition cluster_start :: "('p \<Rightarrow> string) \<Rightarrow> int \<Rightarrow> 'p Cluster" where
  "cluster_start owner ttl = \<lparr>lock_value = None, control = (\<lambda>p. Acquiring (acquire_cmd (owner p) ttl))\<rparr>"

text \<open>The states reached by events that are as \<open>ok\<close> says.\<close>

inductive cluster_reachable ::
  "('p lock_event \<Rightarrow> 'p Cluster \<Rightarrow> bool) \<Rightarrow> ('p \<Rightarrow> string) \<Rightarrow> int \<Rightarrow> 'p Cluster \<Rightarrow> bool"
  for ok owner ttl where
  cluster_start: "cluster_reachable ok owner ttl (cluster_start owner ttl)"
| cluster_event: "cluster_reachable ok owner ttl s \<Longrightarrow> ok e s \<Longrightarrow> cluster_reachable ok owner ttl (happens owner ttl e s)"

section \<open>One leader\<close>

text \<open>
  A process that has seen its own name under the key and relies on it: from \<^verbatim>\<open>GET\<close> to the
  \<^verbatim>\<open>EXPIRE\<close> of a renewal, through the tick, and from \<^verbatim>\<open>GET\<close> to the \<^verbatim>\<open>DEL\<close> of a release.
\<close>

fun relies :: "control \<Rightarrow> bool" where
  "relies (Renewing (Expire ttl k)) = True"
| "relies (Renewing (Done renewed)) = renewed"
| "relies Ticking = True"
| "relies (Releasing raised (Delete k)) = True"
| "relies c = False"

text \<open>The key expires only while no process relies on it.\<close>

definition timely :: "'p lock_event \<Rightarrow> 'p Cluster \<Rightarrow> bool" where
  "timely e s \<longleftrightarrow> (e = Expires \<longrightarrow> (\<forall>p. \<not> relies (control s p)))"

text \<open>The operations a process can be in the middle of.\<close>

definition operation_of :: "string \<Rightarrow> int \<Rightarrow> control \<Rightarrow> bool" where
  "operation_of owner ttl c =
     (case c of
        Acquiring k \<Rightarrow> k \<in> {acquire_cmd owner ttl, Done True, Done False}
      | Renewing k \<Rightarrow> k \<in> {renew_cmd owner ttl, Expire ttl (Done True), Done True, Done False}
      | Releasing raised k \<Rightarrow> k \<in> {release_cmd owner, Delete (Done ()), Done ()}
      | _ \<Rightarrow> True)"


lemmas cmd_defs = acquire_cmd_def renew_cmd_def release_cmd_def

text \<open>
  A command keeps a process inside its operations, lets it rely on the lock only with its own
  name there, and changes the value only if the key is free or the process relies on it.
\<close>

lemma command_keeps:
  assumes "operation_of owner ttl c" and "relies c \<Longrightarrow> l = Some owner"
  shows "operation_of owner ttl (fst (command c l))"
    and "relies (fst (command c l)) \<Longrightarrow> snd (command c l) = Some owner"
    and "snd (command c l) = l \<or> l = None \<or> relies c"
  using assms by (cases c; auto simp: operation_of_def cmd_defs split: option.splits if_splits)+

lemma proceed_keeps:
  assumes "operation_of owner ttl c"
  shows "operation_of owner ttl (proceed owner ttl c)" and "relies (proceed owner ttl c) \<Longrightarrow> relies c"
  using assms by (cases c; auto simp: operation_of_def cmd_defs split: if_splits)+

lemma unwind_keeps: "operation_of owner ttl (unwind owner c)" "\<not> relies (unwind owner c)"
  by (cases c; simp add: operation_of_def cmd_defs)+

definition lock_inv :: "('p \<Rightarrow> string) \<Rightarrow> int \<Rightarrow> 'p Cluster \<Rightarrow> bool" where
  "lock_inv owner ttl s \<longleftrightarrow>
     (\<forall>p. operation_of (owner p) ttl (control s p)) \<and>
     (\<forall>p. relies (control s p) \<longrightarrow> lock_value s = Some (owner p))"

lemma lock_invD:
  "lock_inv owner ttl s \<Longrightarrow> operation_of (owner p) ttl (control s p)"
  "lock_inv owner ttl s \<Longrightarrow> relies (control s p) \<Longrightarrow> lock_value s = Some (owner p)"
  by (simp_all add: lock_inv_def)

text \<open>What one process does to its own state and to the value under the key.\<close>

lemma lock_inv_move:
  assumes "inj owner" and "lock_inv owner ttl s" and "operation_of (owner p) ttl c"
    and "relies c \<Longrightarrow> l = Some (owner p)"
    and "l = lock_value s \<or> lock_value s = None \<or> relies (control s p)"
  shows "lock_inv owner ttl (s\<lparr>lock_value := l, control := (control s)(p := c)\<rparr>)"
  unfolding lock_inv_def
proof (intro conjI allI impI)
  fix q
  show "operation_of (owner q) ttl (control (s\<lparr>lock_value := l, control := (control s)(p := c)\<rparr>) q)"
    using assms(3) lock_invD(1) [OF assms(2)] by simp
  assume rel: "relies (control (s\<lparr>lock_value := l, control := (control s)(p := c)\<rparr>) q)"
  show "lock_value (s\<lparr>lock_value := l, control := (control s)(p := c)\<rparr>) = Some (owner q)"
  proof (cases "q = p")
    case True
    then show ?thesis using rel assms(4) by simp
  next
    case False
    then have q: "lock_value s = Some (owner q)" using rel lock_invD(2) [OF assms(2), of q] by simp
    moreover have "\<not> relies (control s p)"
      using lock_invD(2) [OF assms(2), of p] q False injD [OF assms(1), of p q] by auto
    ultimately show ?thesis using assms(5) by auto
  qed
qed

lemma lock_inv_happens:
  assumes "inj owner" and "lock_inv owner ttl s" and "timely e s"
  shows "lock_inv owner ttl (happens owner ttl e s)"
proof (cases e)
  case (Issues p)
  let ?cl = "command (control s p) (lock_value s)"
  have "lock_inv owner ttl (s\<lparr>lock_value := snd ?cl, control := (control s)(p := fst ?cl)\<rparr>)"
    using command_keeps [OF lock_invD [OF assms(2)], of p] by (intro lock_inv_move assms) auto
  then show ?thesis using Issues by (simp add: case_prod_beta)
next
  case (Proceeds p)
  have "lock_inv owner ttl (s\<lparr>lock_value := lock_value s,
      control := (control s)(p := proceed (owner p) ttl (control s p))\<rparr>)"
    using proceed_keeps [OF lock_invD(1) [OF assms(2)]] lock_invD(2) [OF assms(2)]
    by (intro lock_inv_move assms) auto
  then show ?thesis using Proceeds by simp
next
  case (Raises took p)
  have "lock_inv owner ttl (happens owner ttl (Raises took p) s)"
    unfolding happens.simps
    using command_keeps(3) [OF lock_invD [OF assms(2)], of p]
    by (intro lock_inv_move assms) (auto simp: unwind_keeps)
  then show ?thesis using Raises by simp
next
  case (Killed p)
  have "lock_inv owner ttl (s\<lparr>lock_value := lock_value s, control := (control s)(p := Ended)\<rparr>)"
    by (intro lock_inv_move assms) (auto simp: operation_of_def)
  then show ?thesis using Killed by simp
next
  case Expires
  then show ?thesis using assms(2,3) by (simp add: lock_inv_def timely_def)
qed

lemma lock_inv_start: "lock_inv owner ttl (cluster_start owner ttl)"
  by (simp add: lock_inv_def cluster_start_def operation_of_def cmd_defs)

lemma cluster_inv:
  assumes "cluster_reachable timely owner ttl s" and "inj owner"
  shows "lock_inv owner ttl s"
  using assms(1) by induction (auto intro: lock_inv_start lock_inv_happens [OF assms(2)])

section \<open>Runs\<close>

text \<open>A given sequence of events, each of them as \<open>ok\<close> says where it happens.\<close>

fun run_events :: "('p \<Rightarrow> string) \<Rightarrow> int \<Rightarrow> 'p lock_event list \<Rightarrow> 'p Cluster \<Rightarrow> 'p Cluster" where
  "run_events owner ttl [] s = s"
| "run_events owner ttl (e # es) s = run_events owner ttl es (happens owner ttl e s)"

fun all_events ::
  "('p lock_event \<Rightarrow> 'p Cluster \<Rightarrow> bool) \<Rightarrow> ('p \<Rightarrow> string) \<Rightarrow> int \<Rightarrow> 'p lock_event list \<Rightarrow> 'p Cluster \<Rightarrow> bool" where
  "all_events ok owner ttl [] s = True"
| "all_events ok owner ttl (e # es) s = (ok e s \<and> all_events ok owner ttl es (happens owner ttl e s))"

lemma run_reachable:
  "cluster_reachable ok owner ttl s \<Longrightarrow> all_events ok owner ttl es s \<Longrightarrow>
     cluster_reachable ok owner ttl (run_events owner ttl es s)"
  by (induction es arbitrary: s) (auto intro: cluster_event)

text \<open>A process that finds the key free comes to its first tick.\<close>

definition first_tick :: "'p \<Rightarrow> 'p lock_event list" where
  "first_tick p = [Issues p, Proceeds p, Issues p, Issues p, Proceeds p]"

text \<open>The key expires only while the process named there is as \<open>P\<close> says.\<close>

definition expires_during ::
  "('p \<Rightarrow> string) \<Rightarrow> (control \<Rightarrow> bool) \<Rightarrow> 'p lock_event \<Rightarrow> 'p Cluster \<Rightarrow> bool" where
  "expires_during owner P e s \<longleftrightarrow>
     (e = Expires \<longrightarrow> (\<exists>p. lock_value s = Some (owner p) \<and> P (control s p)))"

section \<open>The scheduler's lock\<close>

text \<open>
  C26. However many scheduler processes run, with whatever interleaving of their Redis commands,
  exceptions and deaths: at most one is in its tick, and the lock names it, as long as the key
  never expires under a process that relies on it.
\<close>

theorem one_leader:
  assumes "cluster_reachable timely (\<lambda>u. scheduler_owner (host u) u) ttl s" and "control s u = Ticking"
  shows "lock_value s = Some (scheduler_owner (host u) u) \<and> (\<forall>u'. control s u' = Ticking \<longrightarrow> u' = u)"
proof -
  have "inj (\<lambda>u. scheduler_owner (host u) u)" by (simp add: inj_def scheduler_owner_inject)
  then have own: "lock_value s = Some (scheduler_owner (host u') u')" if "control s u' = Ticking" for u'
    using lock_invD(2) [OF cluster_inv [OF assms(1)], of u'] that by simp
  show ?thesis using own [OF assms(2)] own by (auto simp: scheduler_owner_inject)
qed

theorem one_leader_witness:
  "control (run_events (\<lambda>u. scheduler_owner ''a'' u) 30 (first_tick 0 @ first_tick 1)
      (cluster_start (\<lambda>u. scheduler_owner ''a'' u) 30)) 0 = Ticking \<and>
   lock_value (run_events (\<lambda>u. scheduler_owner ''a'' u) 30 (first_tick 0 @ first_tick 1)
      (cluster_start (\<lambda>u. scheduler_owner ''a'' u) 30)) = Some (scheduler_owner ''a'' 0)"
proof -
  let ?run = "run_events (\<lambda>u. scheduler_owner ''a'' u) 30 (first_tick 0 @ first_tick 1)
      (cluster_start (\<lambda>u. scheduler_owner ''a'' u) 30)"
  have "cluster_reachable timely (\<lambda>u. scheduler_owner ''a'' u) 30 ?run"
    by (rule run_reachable [OF cluster_reachable.cluster_start]) (simp add: first_tick_def timely_def)
  moreover have "control ?run 0 = Ticking"
    by (simp add: first_tick_def cluster_start_def cmd_defs)
  ultimately show ?thesis using one_leader [of "\<lambda>_. ''a''" 30 ?run 0] by simp
qed

text \<open>
  C27. The check of the owner and the command after it are not one step. If the key expires
  between the two of a renewal, its owner gives the next leader's lock more time and ticks beside
  it; if it expires between the two of a release, the next leader's lock is deleted and a third
  process ticks beside it. In neither run does a key expire under a process in its tick.
\<close>

theorem late_expiry_elects_two:
  assumes "u \<noteq> u'" and "u \<noteq> v" and "u' \<noteq> v"
  shows "(\<exists>s. cluster_reachable
        (expires_during (\<lambda>u. scheduler_owner (host u) u) (\<lambda>c. c = Renewing (Expire ttl (Done True))))
        (\<lambda>u. scheduler_owner (host u) u) ttl s \<and> control s u = Ticking \<and> control s u' = Ticking) \<and>
     (\<exists>s. cluster_reachable
        (expires_during (\<lambda>u. scheduler_owner (host u) u) (\<lambda>c. c = Releasing True (Delete (Done ()))))
        (\<lambda>u. scheduler_owner (host u) u) ttl s \<and> control s u' = Ticking \<and> control s v = Ticking)"
  (is "(\<exists>s. cluster_reachable ?renewing ?owner ttl s \<and> _ s) \<and> (\<exists>s. cluster_reachable ?releasing ?owner ttl s \<and> _ s)")
proof (intro conjI)
  let ?es = "[Issues u, Proceeds u, Issues u, Expires] @ first_tick u' @ [Issues u, Proceeds u]"
  have "cluster_reachable ?renewing ?owner ttl (run_events ?owner ttl ?es (cluster_start ?owner ttl))"
    by (rule run_reachable [OF cluster_reachable.cluster_start])
      (use assms in \<open>auto simp: first_tick_def expires_during_def cluster_start_def cmd_defs intro!: exI [of _ u]\<close>)
  moreover have "control (run_events ?owner ttl ?es (cluster_start ?owner ttl)) u = Ticking"
    "control (run_events ?owner ttl ?es (cluster_start ?owner ttl)) u' = Ticking"
    using assms by (simp_all add: first_tick_def cluster_start_def cmd_defs)
  ultimately show "\<exists>s. cluster_reachable ?renewing ?owner ttl s \<and> control s u = Ticking \<and> control s u' = Ticking"
    by blast
next
  let ?es = "[Issues u, Proceeds u, Raises False u, Issues u, Expires] @ first_tick u' @ [Issues u] @ first_tick v"
  have "cluster_reachable ?releasing ?owner ttl (run_events ?owner ttl ?es (cluster_start ?owner ttl))"
    by (rule run_reachable [OF cluster_reachable.cluster_start])
      (use assms in \<open>auto simp: first_tick_def expires_during_def cluster_start_def cmd_defs intro!: exI [of _ u]\<close>)
  moreover have "control (run_events ?owner ttl ?es (cluster_start ?owner ttl)) u' = Ticking"
    "control (run_events ?owner ttl ?es (cluster_start ?owner ttl)) v = Ticking"
    using assms by (simp_all add: first_tick_def cluster_start_def cmd_defs)
  ultimately show "\<exists>s. cluster_reachable ?releasing ?owner ttl s \<and> control s u' = Ticking \<and> control s v = Ticking"
    by blast
qed

theorem late_expiry_elects_two_witness:
  "\<exists>s. cluster_reachable
      (expires_during (\<lambda>u. scheduler_owner ''a'' u) (\<lambda>c. c = Renewing (Expire 30 (Done True))))
      (\<lambda>u. scheduler_owner ''a'' u) 30 s \<and> control s 0 = Ticking \<and> control s 1 = Ticking"
  using late_expiry_elects_two [of 0 1 2 "\<lambda>_. ''a''" 30] by simp

end
