(* ===== verification/Logging.thy ===== *)
theory Logging
  imports Config Domain
begin

text \<open>
  \<^verbatim>\<open>shared/logging.py\<close>: what \<^verbatim>\<open>JsonFormatter\<close> makes of a record, with the part of
  \<^verbatim>\<open>json.dumps\<close> that writes an object of texts. The request's identifier, the message and the text
  of an exception come from outside; a line of the log is printable ASCII whatever they hold.
\<close>

section \<open>JSON texts\<close>

text \<open>\<^verbatim>\<open>ensure_ascii\<close>: all but the characters from the space to the tilde is escaped.\<close>

definition json_char :: "char \<Rightarrow> string" where
  "json_char c = (let n = of_char c :: nat in
     if n = 34 \<or> n = 92 then [CHR 0x5C, c]
     else if n = 10 then [CHR 0x5C, CHR ''n'']
     else if n = 13 then [CHR 0x5C, CHR ''r'']
     else if n = 9 then [CHR 0x5C, CHR ''t'']
     else if n = 12 then [CHR 0x5C, CHR ''f'']
     else if n = 8 then [CHR 0x5C, CHR ''b'']
     else if n < 32 \<or> 126 < n then [CHR 0x5C, CHR ''u'', CHR ''0'', CHR ''0''] @ hex2 c
     else [c])"

definition json_text :: "string \<Rightarrow> string" where
  "json_text s = [CHR 0x22] @ concat (map json_char s) @ [CHR 0x22]"

definition json_object :: "(string \<times> string) list \<Rightarrow> string" where
  "json_object d = ''{'' @ join '', '' (map (\<lambda>(k, v). json_text k @ '': '' @ json_text v) d) @ ''}''"

section \<open>Records\<close>

record LogRecord =
  levelname :: string
  logger_name :: string
  log_message :: string
  exc_text :: "string option"

definition log_payload :: "string \<Rightarrow> string option \<Rightarrow> LogRecord \<Rightarrow> (string \<times> string) list" where
  "log_payload timestamp request_id r =
     [(''timestamp'', timestamp), (''level'', levelname r), (''logger'', logger_name r), (''message'', log_message r)] @
     (case request_id of None \<Rightarrow> [] | Some i \<Rightarrow> if i = [] then [] else [(''request_id'', i)]) @
     (case exc_text r of None \<Rightarrow> [] | Some e \<Rightarrow> [(''exception'', e)])"

definition format_json :: "string \<Rightarrow> string option \<Rightarrow> LogRecord \<Rightarrow> string" where
  "format_json timestamp request_id r = json_object (log_payload timestamp request_id r)"

section \<open>One line\<close>

definition printable :: "string \<Rightarrow> bool" where
  "printable s \<longleftrightarrow> list_all (\<lambda>c. 32 \<le> (of_char c :: nat) \<and> (of_char c :: nat) \<le> 126) s"

lemma printable_simps [simp]:
  "printable []" "printable (c # s) \<longleftrightarrow> 32 \<le> (of_char c :: nat) \<and> (of_char c :: nat) \<le> 126 \<and> printable s"
  "printable (s @ t) \<longleftrightarrow> printable s \<and> printable t"
  by (simp_all add: printable_def)

lemma printable_hex2: "printable (hex2 c)"
proof -
  have digit: "32 \<le> (of_char (if k < 10 then char_of (48 + k) else char_of (87 + k)) :: nat) \<and>
      (of_char (if k < 10 then char_of (48 + k) else char_of (87 + k)) :: nat) \<le> 126" if "k < 16" for k :: nat
    using that by (simp add: of_char_mod_256)
  have "(of_char c :: nat) < 256"
    using mod_less_divisor [of 256 "of_char c :: nat"] by (simp only: of_char_mod_256 zero_less_numeral)
  then have "(of_char c :: nat) div 16 < 16" "(of_char c :: nat) mod 16 < 16" by linarith+
  from digit [OF this(1)] digit [OF this(2)] show ?thesis
    by (simp add: hex2_def Let_def)
qed

lemma printable_json_char: "printable (json_char c)"
  by (auto simp: json_char_def Let_def printable_hex2)

lemma printable_json_text: "printable (json_text s)"
  by (induction s) (simp_all add: json_text_def printable_json_char)

lemma printable_join: "printable sep \<Longrightarrow> list_all printable ss \<Longrightarrow> printable (join sep ss)"
  by (induction sep ss rule: join.induct) simp_all

text \<open>
  A record is one line of printable ASCII, whatever the client sent as the identifier of its
  request and whatever the message and the exception hold: nothing forges a second record.
\<close>

theorem log_line_printable: "printable (format_json timestamp request_id r)"
proof -
  have "list_all printable (map (\<lambda>(k, v). json_text k @ '': '' @ json_text v) d)" for d
    by (auto simp: list_all_iff printable_json_text)
  then show ?thesis
    unfolding format_json_def json_object_def by (simp add: printable_join)
qed

section \<open>The plain formatter\<close>

text \<open>
  \<^verbatim>\<open>%(asctime)s %(levelname)s [%(name)s] %(message)s\<close>, and the text of an exception on lines of
  its own.
\<close>

definition format_plain :: "string \<Rightarrow> LogRecord \<Rightarrow> string" where
  "format_plain asctime r =
     (let s = asctime @ '' '' @ levelname r @ '' ['' @ logger_name r @ ''] '' @ log_message r
      in case exc_text r of
           None \<Rightarrow> s
         | Some e \<Rightarrow> (if e = [] then s else if last s = CHR 0x0A then s @ e else s @ [CHR 0x0A] @ e))"

text \<open>Here a message with a line end makes a second line of the writer's choice.\<close>

lemma plain_line_forged:
  "\<exists>r. format_plain ''t'' r = format_plain ''t'' (r\<lparr>log_message := ''x''\<rparr>) @ [CHR 0x0A] @
     format_plain ''t'' \<lparr>levelname = ''INFO'', logger_name = ''app'', log_message = ''all is well'', exc_text = None\<rparr>"
  by (intro exI [of _ "\<lparr>levelname = ''INFO'', logger_name = ''app'',
      log_message = ''x'' @ [CHR 0x0A] @ ''t INFO [app] all is well'', exc_text = None\<rparr>"])
    (simp add: format_plain_def)

section \<open>The root logger\<close>

datatype formatter = Json_formatter | Plain_formatter

record Root_logger =
  root_handlers :: "formatter list"
  root_level :: int

text \<open>
  The attributes of the module \<^verbatim>\<open>logging\<close> that an upper-case name can be (those with an
  underscore in front left aside): the levels, and one text.
\<close>

definition logging_attributes :: pydict where
  "logging_attributes =
     [(''CRITICAL'', PInt 50), (''FATAL'', PInt 50), (''ERROR'', PInt 40), (''WARNING'', PInt 30),
      (''WARN'', PInt 30), (''INFO'', PInt 20), (''DEBUG'', PInt 10), (''NOTSET'', PInt 0),
      (''BASIC_FORMAT'', PStr ''%(levelname)s:%(name)s:%(message)s'')]"

text \<open>\<^verbatim>\<open>setLevel\<close> takes a number, or the name of a level.\<close>

definition check_level :: "pyval \<Rightarrow> exn + int" where
  "check_level v =
     (case v of
        PInt i \<Rightarrow> Inr i
      | PStr s \<Rightarrow>
          (case dict_get logging_attributes s PNone of
             PInt i \<Rightarrow> Inr i
           | _ \<Rightarrow> Inl (ValueError (''Unknown level: '' @ repr_str s)))
      | _ \<Rightarrow> Inl (TypeError (''Level not an integer or a valid string: '' @ py_repr v)))"

definition setup_logging :: "Settings \<Rightarrow> (Root_logger, unit) prog" where
  "setup_logging st r =
     (let r' = r\<lparr>root_handlers := [if log_json st then Json_formatter else Plain_formatter]\<rparr>
      in case check_level (dict_get logging_attributes (upper (log_level st)) (PInt 20)) of
           Inl e \<Rightarrow> (Inl e, r')
         | Inr l \<Rightarrow> (Inr (), r'\<lparr>root_level := l\<rparr>))"

text \<open>
  Whatever was there before, one handler is left, so that no record is written twice; a name
  that is no attribute of the module stands for INFO, and one attribute is no level.
\<close>

lemma one_handler:
  "root_handlers (snd (setup_logging st r)) = [if log_json st then Json_formatter else Plain_formatter]"
  by (simp add: setup_logging_def Let_def split: sum.split)

lemma setup_logging_again:
  "fst (setup_logging st r) = Inr () \<Longrightarrow>
     setup_logging st (snd (setup_logging st r)) = setup_logging st r"
  by (auto simp: setup_logging_def Let_def split: sum.splits)

lemma unknown_level_is_INFO:
  assumes "upper (log_level st) \<notin> fst ` set logging_attributes"
  shows "fst (setup_logging st r) = Inr () \<and> root_level (snd (setup_logging st r)) = 20"
proof -
  have "map_of logging_attributes (upper (log_level st)) = None"
    using assms by (simp add: map_of_eq_None_iff)
  then show ?thesis by (simp add: setup_logging_def dict_get_def check_level_def Let_def)
qed

lemma upper_names:
  "upper ''debug'' = ''DEBUG''" "upper ''Warn'' = ''WARN''" "upper ''INFO'' = ''INFO''"
  "upper ''basic_format'' = ''BASIC_FORMAT''"
  by code_simp+

lemma levels_by_name:
  "root_level (snd (setup_logging (default_Settings\<lparr>log_level := ''debug''\<rparr>) r)) = 10"
  "root_level (snd (setup_logging (default_Settings\<lparr>log_level := ''Warn''\<rparr>) r)) = 30"
  "root_level (snd (setup_logging default_Settings r)) = 20"
  "fst (setup_logging (default_Settings\<lparr>log_level := ''basic_format''\<rparr>) r) =
     Inl (ValueError (''Unknown level: '' @ repr_str ''%(levelname)s:%(name)s:%(message)s''))"
  by (simp_all add: setup_logging_def Let_def dict_get_def check_level_def logging_attributes_def
      upper_names default_Settings_def)

end
