(* ===== verification/Process.thy ===== *)
theory Process
  imports Worker_Pool Scheduler Auth Logging
begin

text \<open>
  The three processes from their first line to their last: \<^verbatim>\<open>run_worker\<close>, \<^verbatim>\<open>run_scheduler\<close>
  and the \<^verbatim>\<open>lifespan\<close> of the API, with \<^verbatim>\<open>observability/telemetry.py\<close> and the objects that
  \<^verbatim>\<open>di/container.py\<close> makes once. Parameters are the tracing library, the import of the module of
  the task handlers, the event loop that runs the pool, and the server.
\<close>

section \<open>Tracing\<close>

text \<open>
  Installing a provider for a service name and an endpoint, and instrumenting the application.
\<close>

record 'w Tracing =
  tr_install :: "string \<Rightarrow> string \<Rightarrow> ('w, unit) prog"
  tr_instrument :: "('w, unit) prog"

definition setup_telemetry :: "'w Tracing \<Rightarrow> Settings \<Rightarrow> string option \<Rightarrow> ('w, unit) prog" where
  "setup_telemetry tr st service_name =
     (if otel_exporter_otlp_endpoint st = [] then ret ()
      else tr_install tr
        (case service_name of None \<Rightarrow> otel_service_name st | Some n \<Rightarrow> if n = [] then otel_service_name st else n)
        (otel_exporter_otlp_endpoint st))"

definition instrument_fastapi :: "'w Tracing \<Rightarrow> ('w, unit) prog" where
  "instrument_fastapi tr = except_Exception (tr_instrument tr) (\<lambda>_. ret ())"

lemma telemetry_off: "otel_exporter_otlp_endpoint st = [] \<Longrightarrow> setup_telemetry tr st n = ret ()"
  by (simp add: setup_telemetry_def)

lemma instrument_never_fails:
  "wp (instrument_fastapi tr) (\<lambda>_ _. True) (\<lambda>e _. \<not> is_Exception e) w"
  unfolding instrument_fastapi_def wp_except_Exception
  by (rule wp_mono [OF wp_any]) (simp_all add: wp_simps)

section \<open>Objects made once\<close>

text \<open>
  The executors that a container keeps, and the container that the module keeps. A fresh object
  is passed for the case that there is none yet.
\<close>

record ('r, 'x) Container_cache =
  cached_python :: "'r option"
  cached_webhook :: "'x option"

definition new_cache :: "('r, 'x) Container_cache" where
  "new_cache = \<lparr>cached_python = None, cached_webhook = None\<rparr>"

definition python_executor :: "'r \<Rightarrow> ('r, 'x) Container_cache \<Rightarrow> 'r \<times> ('r, 'x) Container_cache" where
  "python_executor made s =
     (case cached_python s of None \<Rightarrow> (made, s\<lparr>cached_python := Some made\<rparr>) | Some r \<Rightarrow> (r, s))"

definition webhook_executor :: "'x \<Rightarrow> ('r, 'x) Container_cache \<Rightarrow> 'x \<times> ('r, 'x) Container_cache" where
  "webhook_executor made s =
     (case cached_webhook s of None \<Rightarrow> (made, s\<lparr>cached_webhook := Some made\<rparr>) | Some r \<Rightarrow> (r, s))"

definition get_container :: "'c \<Rightarrow> 'c option \<Rightarrow> 'c \<times> 'c option" where
  "get_container made s = (case s of None \<Rightarrow> (made, Some made) | Some c \<Rightarrow> (c, s))"

text \<open>A later call gives the first object again, and the two executors do not get in each other's way.\<close>

lemma made_once:
  "python_executor b (snd (python_executor a s)) = (fst (python_executor a s), snd (python_executor a s))"
  "webhook_executor y (snd (webhook_executor x s)) = (fst (webhook_executor x s), snd (webhook_executor x s))"
  "get_container d (snd (get_container c m)) = (fst (get_container c m), snd (get_container c m))"
  by (auto simp: python_executor_def webhook_executor_def get_container_def split: option.split)

lemma executors_independent:
  "snd (webhook_executor x (snd (python_executor a s))) = snd (python_executor a (snd (webhook_executor x s)))"
  by (simp add: python_executor_def webhook_executor_def split: option.split)

section \<open>The processes\<close>

text \<open>What every process starts with; the root logger is a part of the world.\<close>

record 'w Surroundings =
  on_root_logger :: "(Root_logger, unit) prog \<Rightarrow> ('w, unit) prog"
  tracing :: "'w Tracing"

definition set_up :: "'w Surroundings \<Rightarrow> Settings \<Rightarrow> string \<Rightarrow> ('w, unit) prog" where
  "set_up e st service =
     andThen (on_root_logger e (setup_logging st)) (\<lambda>_. setup_telemetry (tracing e) st (Some service))"

text \<open>\<^verbatim>\<open>try: await pool.run() finally: \<dots>\<close>\<close>

definition run_pool :: "'w Container \<Rightarrow> ('w, unit) prog \<Rightarrow> ('w, unit) prog \<Rightarrow> ('w, unit) prog" where
  "run_pool c aclose pool_run = try_finally pool_run (andThen aclose (\<lambda>_. container_close c))"

definition run_worker ::
  "'w Surroundings \<Rightarrow> 'w Container \<Rightarrow> string \<Rightarrow> ('w, unit) prog \<Rightarrow> ('w, unit) prog \<Rightarrow>
   (string \<Rightarrow> Pool \<Rightarrow> ('w, unit) prog) \<Rightarrow> ('w, unit) prog" where
  "run_worker e c host load_tasks aclose pool_run =
     andThen (set_up e (c_settings c) ''atlasqueue-worker'') (\<lambda>_.
     andThen (start_worker c host load_tasks) (\<lambda>(wid, pool).
     run_pool c aclose (pool_run wid pool)))"

definition scheduler_main :: "'w Surroundings \<Rightarrow> 'w Container \<Rightarrow> string \<Rightarrow> nat \<Rightarrow> nat \<Rightarrow> ('w, bool) prog" where
  "scheduler_main e c host turns rounds =
     andThen (set_up e (c_settings c) ''atlasqueue-scheduler'') (\<lambda>_. scheduler_process c host turns rounds)"

definition lifespan ::
  "'w Surroundings \<Rightarrow> 'w Container \<Rightarrow> 'w Crypto \<Rightarrow> ('w, unit) prog \<Rightarrow> ('w, unit) prog" where
  "lifespan e c cr serve =
     andThen (set_up e (c_settings c) ''atlasqueue-api'') (\<lambda>_.
     andThen (startup c cr) (\<lambda>_.
     andThen serve (\<lambda>_. container_close c)))"

text \<open>
  Once the pool or the scheduler's loop has been entered, the connection to Redis is closed on
  every way out, for which \<open>R\<close> stands, if closing the webhook client does not raise. The only
  way out of the scheduler's loop is an exception.
\<close>

lemma run_pool_closes:
  assumes "\<And>w. wp (container_close c) (\<lambda>_. R) (\<lambda>_. R) w" and "\<And>w. wp aclose (\<lambda>_ _. True) (\<lambda>_ _. False) w"
  shows "wp (run_pool c aclose m) (\<lambda>_. R) (\<lambda>_. R) w"
proof -
  have fin: "wp aclose (\<lambda>_. wp (container_close c) (\<lambda>_. R) (\<lambda>_. R)) (\<lambda>_. R) w1" for w1
    by (rule wp_mono [OF assms(2)]) (simp_all add: assms(1))
  show ?thesis
    unfolding run_pool_def wp_try_finally wp_andThen by (rule wp_mono [OF wp_any]) (simp_all add: fin)
qed

lemma run_worker_closes:
  assumes "\<And>w. wp (container_close c) (\<lambda>_. R) (\<lambda>_. R) w" and "\<And>w. wp aclose (\<lambda>_ _. True) (\<lambda>_ _. False) w"
    and "wp (set_up e (c_settings c) ''atlasqueue-worker'')
      (\<lambda>_. wp (start_worker c host load_tasks) (\<lambda>_ _. True) F) F w"
  shows "wp (run_worker e c host load_tasks aclose run) (\<lambda>_. R) (\<lambda>e w'. R w' \<or> F e w') w"
proof -
  have pool: "wp (run_pool c aclose m) (\<lambda>_. R) (\<lambda>e w'. R w' \<or> F e w') w1" for m w1
    by (rule wp_mono [OF run_pool_closes [OF assms(1,2)]]) auto
  have start: "wp (case x of (wid, p) \<Rightarrow> run_pool c aclose (run wid p))
      (\<lambda>_. R) (\<lambda>e w'. R w' \<or> F e w') w1" for x w1
    by (cases x) (simp add: pool)
  show ?thesis
    unfolding run_worker_def wp_andThen
    by (rule wp_mono [OF assms(3)], erule wp_mono) (simp_all add: start)
qed

lemma run_scheduler_inside: "wp (run_scheduler c lock turns rounds) (\<lambda>left _. \<not> left) (\<lambda>_ _. True) w"
proof (induction rounds arbitrary: w)
  case (Suc rounds)
  have "wp (if left then run_scheduler c lock turns rounds else ret False) (\<lambda>left _. \<not> left) (\<lambda>_ _. True) w'" for left w'
    using Suc by (simp add: wp_simps)
  then show ?case by (simp add: wp_andThen wp_mono [OF wp_any])
qed (simp add: wp_simps)

lemma scheduler_process_closes:
  assumes "\<And>w. wp (container_close c) (\<lambda>_. R) (\<lambda>_. R) w"
  shows "wp (scheduler_process c host turns rounds) (\<lambda>left _. \<not> left) (\<lambda>_. R) w"
proof -
  have "wp (finally_left (run_scheduler c lock turns rounds) (container_close c)) (\<lambda>left _. \<not> left) (\<lambda>_. R) w1" for lock w1
    unfolding wp_finally_left by (rule wp_mono [OF run_scheduler_inside]) (simp_all add: assms)
  then show ?thesis
    unfolding scheduler_process_def wp_andThen by (simp add: wp_def uuid4_def split: prod.split)
qed

end
