(* ===== verification/Race.thy ===== *)
theory Race
  imports Worker_Pool Lifecycle
begin

text \<open>
  One task, the session of the worker that took it and the session of a cancellation, both open
  at once. What the two do to the row is followed in its column of the status, which every save
  of the two sets. A session reads what is committed and its own changes, an update waits while
  the other session has changed the row and not ended (PostgreSQL's READ COMMITTED), and the task
  object that a service has got keeps its status whatever becomes of the row. The steps are those
  of \<^verbatim>\<open>_process_task\<close> with \<^verbatim>\<open>execute_task\<close>, and of \<^verbatim>\<open>cancel\<close>, between their calls of the
  database and of Redis; the moves are those that \<^verbatim>\<open>transition_to\<close> allows.
\<close>

section \<open>The two sessions\<close>

datatype party = Worker_session | Cancel_session

text \<open>Where the worker is, with the status of the object in its session.\<close>

datatype worker_at =
    Popped
  | Loaded TaskStatus
  | Unmarked TaskStatus
  | Executing TaskStatus
  | Marked TaskStatus
  | Unmarking
  | Ending
  | Gone

datatype canceller_at =
    Asked
  | Found TaskStatus
  | Told TaskStatus
  | Written
  | Answered
  | Refused

text \<open>
  The committed status, the change that is not committed with its session, the mark in Redis, and
  for the record: if the task code ran, and if the cancellation was committed while the worker
  was between its look at the mark and its first save.
\<close>

record Row_race =
  row_status :: TaskStatus
  unsaved :: "(party \<times> TaskStatus) option"
  mark :: bool
  w_at :: worker_at
  c_at :: canceller_at
  ran :: bool
  overtaken :: bool

text \<open>The moves of \<^verbatim>\<open>transition_to\<close>.\<close>

definition moves :: "TaskStatus \<Rightarrow> TaskStatus \<Rightarrow> bool" where
  "moves s s' \<longleftrightarrow> s' \<in> set (allowed s)"

lemma moves_transition: "moves (task_status t) s \<longleftrightarrow> (\<exists>t'. transition_to n t s = Inr t' \<and> task_status t' = s)"
  by (auto simp: moves_def transition_to_def)

text \<open>A save of one session and what follows it; it waits for the other's to end.\<close>

definition put_status :: "party \<Rightarrow> TaskStatus \<Rightarrow> (Row_race \<Rightarrow> Row_race) \<Rightarrow> Row_race \<Rightarrow> Row_race" where
  "put_status p st after s =
     (case unsaved s of
        Some (q, _) \<Rightarrow> if q = p then after (s\<lparr>unsaved := Some (p, st)\<rparr>) else s
      | None \<Rightarrow> after (s\<lparr>unsaved := Some (p, st)\<rparr>))"

definition commit :: "Row_race \<Rightarrow> Row_race" where
  "commit s = (case unsaved s of None \<Rightarrow> s | Some (_, st) \<Rightarrow> s\<lparr>row_status := st, unsaved := None\<rparr>)"

definition rollback :: "party \<Rightarrow> Row_race \<Rightarrow> Row_race" where
  "rollback p s =
     (case unsaved s of
        Some (q, _) \<Rightarrow> if q = p then s\<lparr>unsaved := None\<rparr> else s
      | None \<Rightarrow> s)"

text \<open>
  The next step of the worker: \<open>ended\<close> is how the execution ends, COMPLETED, QUEUED for a retry or
  DEAD_LETTER. A move that \<^verbatim>\<open>transition_to\<close> refuses raises.
\<close>

definition worker_fails :: "Row_race \<Rightarrow> Row_race" where
  "worker_fails s = (rollback Worker_session s)\<lparr>w_at := Gone\<rparr>"

definition worker_step :: "TaskStatus \<Rightarrow> Row_race \<Rightarrow> Row_race" where
  "worker_step ended s =
     (case w_at s of
        Popped \<Rightarrow> s\<lparr>w_at := (if row_status s = QUEUED then Loaded QUEUED else Gone)\<rparr>
      | Loaded st \<Rightarrow> s\<lparr>w_at := (if mark s then Marked st else Unmarked st)\<rparr>
      | Unmarked st \<Rightarrow>
          if moves st RUNNING then put_status Worker_session RUNNING (\<lambda>s. s\<lparr>w_at := Executing RUNNING\<rparr>) s
          else worker_fails s
      | Executing st \<Rightarrow>
          if moves st ended then put_status Worker_session ended (\<lambda>s. s\<lparr>w_at := Ending, ran := True\<rparr>) s
          else worker_fails s
      | Marked st \<Rightarrow>
          if moves st CANCELLED then put_status Worker_session CANCELLED (\<lambda>s. s\<lparr>w_at := Unmarking\<rparr>) s
          else worker_fails s
      | Unmarking \<Rightarrow> s\<lparr>mark := False, w_at := Ending\<rparr>
      | Ending \<Rightarrow> (commit s)\<lparr>w_at := Gone\<rparr>
      | Gone \<Rightarrow> s)"

definition cancel_fails :: "Row_race \<Rightarrow> Row_race" where
  "cancel_fails s = (rollback Cancel_session s)\<lparr>c_at := Refused\<rparr>"

definition cancel_step :: "Row_race \<Rightarrow> Row_race" where
  "cancel_step s =
     (case c_at s of
        Asked \<Rightarrow> if row_status s \<in> {COMPLETED, CANCELLED, DEAD_LETTER} then cancel_fails s
                 else s\<lparr>c_at := Found (row_status s)\<rparr>
      | Found st \<Rightarrow> s\<lparr>mark := True, c_at := Told st\<rparr>
      | Told st \<Rightarrow>
          if moves st CANCELLED then put_status Cancel_session CANCELLED (\<lambda>s. s\<lparr>c_at := Written\<rparr>) s
          else cancel_fails s
      | Written \<Rightarrow>
          (commit s)\<lparr>c_at := Answered,
            overtaken := (case w_at s of Unmarked st \<Rightarrow> True | _ \<Rightarrow> overtaken s)\<rparr>
      | Answered \<Rightarrow> s
      | Refused \<Rightarrow> s)"

text \<open>Either session moves on, or an exception ends it before its commit.\<close>

datatype race_event = Worker_moves TaskStatus | Worker_fails | Cancel_moves | Cancel_fails

fun race_step :: "race_event \<Rightarrow> Row_race \<Rightarrow> Row_race" where
  "race_step (Worker_moves ended) s = worker_step ended s"
| "race_step Worker_fails s = worker_fails s"
| "race_step Cancel_moves s = cancel_step s"
| "race_step Cancel_fails s = (if c_at s = Answered then s else cancel_fails s)"

definition race_start :: "TaskStatus \<Rightarrow> Row_race" where
  "race_start st = \<lparr>row_status = st, unsaved = None, mark = False, w_at = Popped, c_at = Asked,
     ran = False, overtaken = False\<rparr>"

inductive race_reachable :: "TaskStatus \<Rightarrow> Row_race \<Rightarrow> bool" for st where
  race_start: "race_reachable st (race_start st)"
| race_event: "race_reachable st s \<Longrightarrow> race_reachable st (race_step e s)"


section \<open>Who wins\<close>

text \<open>
  What holds in between: the uncommitted change is that of the session that is between its first
  save and its commit; the mark is there from the moment it is set until the worker has taken it
  away; and a cancellation that has been answered and was not overtaken stays.
\<close>

fun saved_some :: "worker_at \<Rightarrow> bool" where
  "saved_some (Executing st) = True"
| "saved_some Unmarking = True"
| "saved_some Ending = True"
| "saved_some _ = False"

fun past_the_mark :: "worker_at \<Rightarrow> bool" where
  "past_the_mark (Unmarked st) = True"
| "past_the_mark (Executing st) = True"
| "past_the_mark _ = False"

fun has_told :: "canceller_at \<Rightarrow> bool" where
  "has_told (Told st) = True"
| "has_told Written = True"
| "has_told Answered = True"
| "has_told _ = False"

definition race_inv :: "Row_race \<Rightarrow> bool" where
  "race_inv s \<longleftrightarrow>
     (case unsaved s of
        None \<Rightarrow> \<not> saved_some (w_at s) \<and> c_at s \<noteq> Written
      | Some (p, st) \<Rightarrow>
          if p = Worker_session then
            saved_some (w_at s) \<and> c_at s \<noteq> Written \<and>
            (w_at s = Unmarking \<or> c_at s = Answered \<and> \<not> overtaken s \<longrightarrow> st = CANCELLED)
          else \<not> saved_some (w_at s) \<and> c_at s = Written \<and> st = CANCELLED) \<and>
     (has_told (c_at s) \<longrightarrow> mark s \<or> w_at s = Ending \<or> w_at s = Gone) \<and>
     (c_at s = Answered \<and> \<not> overtaken s \<longrightarrow> row_status s = CANCELLED \<and> \<not> past_the_mark (w_at s))"

lemmas race_defs = worker_step_def cancel_step_def worker_fails_def cancel_fails_def put_status_def commit_def
  rollback_def

lemma not_worker: "p \<noteq> Worker_session \<longleftrightarrow> p = Cancel_session"
  by (cases p) simp_all

lemma race_inv_start: "race_inv (race_start st)"
  by (simp add: race_inv_def race_start_def)

lemma race_inv_worker_fails: "race_inv s \<Longrightarrow> race_inv (worker_fails s)"
  by (cases "unsaved s") (auto simp: race_inv_def race_defs split: if_splits)

lemma race_inv_cancel_fails: "race_inv s \<Longrightarrow> c_at s \<noteq> Answered \<Longrightarrow> race_inv (cancel_fails s)"
  by (cases "unsaved s") (auto simp: race_inv_def race_defs not_worker split: if_splits)

lemma race_inv_worker: "race_inv s \<Longrightarrow> race_inv (worker_step ended s)"
  by (cases "w_at s"; cases "unsaved s") (auto simp: race_inv_def race_defs split: if_splits)

lemma race_inv_cancel: "race_inv s \<Longrightarrow> race_inv (cancel_step s)"
  by (cases "c_at s"; cases "unsaved s"; cases "w_at s") (auto simp: race_inv_def race_defs split: if_splits)

lemma race_inv_step: "race_inv s \<Longrightarrow> race_inv (race_step e s)"
  by (cases e) (simp_all add: race_inv_worker race_inv_cancel race_inv_worker_fails race_inv_cancel_fails)

lemma race_reachable_inv: "race_reachable st s \<Longrightarrow> race_inv s"
  by (induction rule: race_reachable.induct) (simp_all add: race_inv_start race_inv_step)

text \<open>A sequence of events.\<close>

lemma race_run: "race_reachable st s \<Longrightarrow> race_reachable st (fold race_step es s)"
  by (induction es arbitrary: s) (auto intro: race_event)

lemma race_runs: "race_reachable st (fold race_step es (race_start st))"
  by (rule race_run) (rule race_reachable.race_start)

text \<open>
  C23. A cancellation that was answered while a worker had the task holds: when both sessions have
  ended the row is CANCELLED, unless the cancellation was committed between the worker's look at
  the mark and its first save. In this window it is lost: the task runs, and its row goes from
  CANCELLED to COMPLETED, which no object is allowed to.
\<close>

theorem answered_cancellation:
  assumes "race_reachable st s" and "c_at s = Answered" and "w_at s = Gone"
  shows "(row_status s = CANCELLED \<or> overtaken s) \<and>
    (\<exists>s'. race_reachable QUEUED s' \<and> c_at s' = Answered \<and> w_at s' = Gone \<and>
       ran s' \<and> row_status s' = COMPLETED \<and> \<not> moves CANCELLED COMPLETED)"
proof (intro conjI exI)
  let ?es = "[Worker_moves COMPLETED, Worker_moves COMPLETED] @ replicate 4 Cancel_moves @ replicate 3 (Worker_moves COMPLETED)"
  show "row_status s = CANCELLED \<or> overtaken s"
    using race_reachable_inv [OF assms(1)] assms(2,3) by (auto simp: race_inv_def split: option.splits if_splits)
  show "race_reachable QUEUED (fold race_step ?es (race_start QUEUED))" by (rule race_runs)
  show "c_at (fold race_step ?es (race_start QUEUED)) = Answered" by code_simp
  show "w_at (fold race_step ?es (race_start QUEUED)) = Gone" by code_simp
  show "ran (fold race_step ?es (race_start QUEUED))" by code_simp
  show "row_status (fold race_step ?es (race_start QUEUED)) = COMPLETED" by code_simp
  show "\<not> moves CANCELLED COMPLETED" by (simp add: moves_def)
qed

text \<open>The other way round: the task has run to its end, and the row is CANCELLED afterwards.\<close>

definition late_cancel :: "race_event list" where
  "late_cancel = replicate 3 (Worker_moves COMPLETED) @ replicate 3 Cancel_moves @
     replicate 2 (Worker_moves COMPLETED) @ replicate 2 Cancel_moves"

lemma completed_then_cancelled:
  "\<exists>s. race_reachable QUEUED s \<and> ran s \<and> c_at s = Answered \<and> w_at s = Gone \<and> row_status s = CANCELLED \<and> \<not> overtaken s"
proof (intro exI conjI)
  show "race_reachable QUEUED (fold race_step late_cancel (race_start QUEUED))" by (rule race_runs)
qed code_simp+

theorem answered_cancellation_witness:
  "row_status (fold race_step late_cancel (race_start QUEUED)) = CANCELLED \<or>
   overtaken (fold race_step late_cancel (race_start QUEUED))"
proof -
  have "c_at (fold race_step late_cancel (race_start QUEUED)) = Answered"
    and "w_at (fold race_step late_cancel (race_start QUEUED)) = Gone" by code_simp+
  from answered_cancellation [OF race_runs this] show ?thesis by (rule conjunct1)
qed

end
