(* ===== verification/Spec2Isabelle.thy ===== *)
theory Spec2Isabelle
  imports Adapter_Theorems System_Theorems App_Theorems Leader Process Race
begin

text \<open>
  AtlasQueue, a distributed task queue in Python over PostgreSQL and Redis, modelled from the
  sources under \<^verbatim>\<open>src/src/atlasqueue/\<close> and verified.

  The program. An API process accepts tasks, stores a row per task in PostgreSQL and pushes its
  identifier on one of the ready lists in Redis, one per priority (four by default, the setting
  \<^verbatim>\<open>priority_levels\<close>; a higher number goes to the last list). Worker processes pop identifiers, run
  the task's handler (a Python function or a webhook) and store the outcome; a failed task is
  rescheduled with backoff or moved to the dead letter list. A scheduler process, one at a time
  by a leader lock in Redis, releases due tasks, repairs submissions whose queueing failed and
  clears stale in-flight markers.

  Effects. A service call is a function from the state of the world to an outcome, a returned
  value or a raised exception, with the new state; theory Prelude gives the monad and the
  predicate \<^verbatim>\<open>wp\<close>, with a separate postcondition for exceptions. A read or a write of a
  port is an operation of a record whose fields are parameters of the services, as the
  constructors of the source take them. What the SQLAlchemy session and the Redis server do is not
  under src/: they are the parameters \<^verbatim>\<open>sql\<close> and \<^verbatim>\<open>redis\<close>, with laws (the locales \<^verbatim>\<open>sql_service\<close>, \<^verbatim>\<open>redis_service\<close>)
  that state their documented behaviour and leave them free to raise at any call. Which exceptions
  their drivers raise is a parameter \<open>pe\<close> of the laws, of which nothing is assumed; what the
  code itself raises for a malformed member of Redis is \<^verbatim>\<open>unreadable\<close>. Every
  locale is interpreted on the model; the theory Reference gives concrete instances, on which
  the witnesses compute.

  What is durable. A body in a session works on the session's view of the tables; the session
  scope makes its changes durable when it returns. When it raises, nothing is durable
  (\<^verbatim>\<open>durable\<close>), but for one case, \<^verbatim>\<open>commit_lost\<close>: the commit took effect and its answer,
  or that of the close after it, was lost. The properties of submissions name this case wherever
  they allow for it.

  The theories, in the order of the program:
    \<^item> Prelude (the monad and its rules), Uuid, Py_Float and Py_Value: Python's values: UUID
      texts, binary64 arithmetic as rationals rounded to 53 bits, JSON and its length.
    \<^item> Config: shared/config.py, the settings. Logging: both formatters of
      shared/logging.py and the set-up of the root logger.
    \<^item> Domain: domain/, the entities, the backoff policy and the state machine of a task.
    \<^item> Ports: domain/ports/, the repositories, the queue and the lock as records, their contracts
      as locales; the metrics of observability/metrics.py as the events that the code records.
    \<^item> Persistence: infrastructure/persistence/, models and repositories over a session; the
      locale \<^verbatim>\<open>sql_service\<close>, and \<^verbatim>\<open>user_service\<close> for the table of users.
    \<^item> Schema: the tables of models.py and the revisions under alembic/versions/ as lists of
      commands over a database, the cells of a row against the columns, and the address that
      alembic/env.py passes on.
    \<^item> Redis_Backend: infrastructure/redis/queue_backend.py, the queue and the leader lock over a
      client, and the Lua script of the claim; the locale \<^verbatim>\<open>redis_service\<close>.
    \<^item> Services, Queue_Manager, Lifecycle, Failure_Handler: application/services/. The locale
      \<^verbatim>\<open>services\<close> holds what the services need of their ports; each operation has one rule there.
    \<^item> Dto: application/dto/, the constraints of the request models (a function that lists the
      fields that break theirs), the responses and the mappers.
    \<^item> Executor: worker/executor/python_executor.py. Example_Tasks: worker/example_tasks.py, with the
      binding of keyword arguments and the addition of values. Webhook: infrastructure/http/webhook_client.py,
      with the part of \<^verbatim>\<open>urlsplit\<close> that decides which host a URL names.
    \<^item> Clock: containers over a clock that never runs back, the locale \<^verbatim>\<open>ticking\<close>; a submission
      for later, and the due time of a retry, which is the delay of the backoff after a reading of
      the clock between the start and the end of \<^verbatim>\<open>schedule_retry\<close>.
    \<^item> Container: infrastructure/di/container.py, which wires the adapters into the services, and the
      session scope with its commit and rollback; the locale \<^verbatim>\<open>container\<close> discharges the
      contracts of the ports from the laws of the two servers.
    \<^item> Worker_Pool and Scheduler: worker/pool.py and scheduler/main.py. Leader: several scheduler
      processes over one lock, interleaved command by command; the commands are shown to be those of
      the lock in Redis_Backend.
    \<^item> Process: the worker, the scheduler and the API's lifespan from the first line to the last
      (worker/main.py, scheduler/main.py, api/main.py), observability/telemetry.py, and the objects that
      the container makes once.
    \<^item> Auth: api/middleware/auth.py and api/routes/auth.py, passwords, tokens, roles, the login and
      the session at start, over bcrypt and PyJWT as the parameter \<^verbatim>\<open>Crypto\<close>; the locales
      \<^verbatim>\<open>crypto_service\<close> and \<^verbatim>\<open>accounts\<close>.
    \<^item> Api: api/routes/v1.py and api/errors.py, each route as a program and the answer that the
      exception handlers make of what it raises. App: api/main.py, the table of routes in the order
      in which \<^verbatim>\<open>create_app\<close> adds them, the search of a route, the middlewares around it, and the
      OpenAPI document.
    \<^item> Client: sdk/client.py over an HTTP client; the locale \<^verbatim>\<open>transport\<close> is the interface
      between it and the application.
    \<^item> Interruption: the container of a process that is killed after a number of operations, and of
      one whose \<^verbatim>\<open>uuid4()\<close> draws given identifiers.
    \<^item> System: all processes interleaved as a list of actions. A worker takes an identifier off the
      ready lists, holds it while others act, and then processes it in a session or is killed at any
      operation before it sends the commit. A session that is not killed is one step.
    \<^item> Race: an execution and a cancellation of the same task in two open sessions, step by step, on
      the status of the row and the mark in Redis.
    \<^item> Quiet, Lost_Retry, Drain: what pushes nothing on the ready lists; tasks outside of them stay
      there, also when their worker is killed; and the order in which the workers take what is in them.
    \<^item> Reference, Loopback: the concrete servers, and a transport to the application over them.
    \<^item> Queue_Theorems, System_Theorems, Adapter_Theorems, Api_Theorems, App_Theorems: the
      properties, with a few in Domain, Leader, Race, Webhook and Schema.

  What the lemmas show. Domain: what reaches COMPLETED, delays are monotone, capped and exact.
  Queue_Theorems: what a submission commits on every branch, what the retry, the cancellation and
  the release of due tasks do and refuse. System_Theorems: which statuses are ever committed,
  how an execution ends, that a rescheduled task is never run, that one whose worker is killed between
  the pop and the commit is lost, that the workers take everything that waits, what the sample tasks leave behind,
  and the bounds of the pool's semaphore. Adapter_Theorems: the Redis queue refines a queue per priority, a due
  identifier is claimed once, the lock keeps its owner, a row reads back as it was saved.
  Race: an answered cancellation stays, but for one window between two calls of the worker.
  Leader: at most one scheduler ticks unless the key of the lock expires under it, and two do if
  it expires between the check of the owner and the command after it.
  Webhook: which URLs are ever requested. Api_Theorems: who gets in, what a token and a login are
  worth, what an answer of 202 says of the database, which rows the columns take. App_Theorems:
  what is open to everyone, and that a submission through the client library does what
  \<^verbatim>\<open>QueueManager.submit\<close> does. Schema: the migrations make the models' tables and can be undone.
  Logging: a record in JSON is one line of printable ASCII, and one handler is left after the set-up.
  Process: the connection to Redis is closed on every way out of the pool and of the scheduler's loop.

  Bounds and fuel. The loop of SCAN takes fuel; \<^verbatim>\<open>scan_ends_with_the_cursor\<close> shows that the number of the
  server's batches is enough and that more changes nothing. Loops over due tasks and stale rows are
  structural, and the chain of revisions is as long as their number at most. The endless loops
  of the processes are followed for any finite number of turns; a run that is cut off inside a loop
  has returned false, and no \<^verbatim>\<open>finally\<close> clause around the loop has run in it.

  Parameters beside the two servers, each with its documented behaviour as the laws of a locale or
  as named hypotheses: the clock and \<^verbatim>\<open>uuid4\<close>, the registered handlers and
  \<^verbatim>\<open>asyncio.wait_for\<close>, the addition of floats, the tracing library, bcrypt and PyJWT, the HTTP client, the rate limiter's count, the
  middlewares of CORS and of the limiter, what FastAPI reads from a query or a body and the
  texts of its validation errors, the exposition of the metrics.

  Not modelled: which records the code writes to the log, the options of the database engine and of
  the Redis client (persistence/database.py), the rest of alembic/env.py, the start of the HTTP
  server, the import of the user's task modules and the event loop: input and output
  of libraries without an effect on tasks, queues or answers. In System the sessions of two
  processes follow each other as wholes, with the identifiers that workers hold in between; inside
  each other they are followed for the lock of the scheduler (Leader) and for an execution with a
  cancellation (Race), other pairs are not. The power of floats is taken as correctly rounded, which
  the C library's \<^verbatim>\<open>pow\<close> does not promise: its result may differ in the last of 53 bits.
  A text is a list of characters below code point 256.
\<close>

end
